(* ===== verification/Prelude.thy ===== *)
theory Prelude
  imports Main "HOL-Library.Word" "HOL-Library.AList"
begin

text \<open>
  What the component theories share.

  \<^item> \<open>exn\<close> and \<open>abrupt\<close>: the ways a C++ statement can end other than normally. An
    exception can be caught, the other outcomes (a failed \<open>assert\<close>, undefined behaviour, the
    end of the process, a loop that does not end) cannot.
  \<^item> \<open>('s, 'a) M\<close>: a computation that reads and writes a state \<open>'s\<close> and ends with a
    value or abruptly. What was written before an exception stays written, as in C++.
  \<^item> \<open>preserves I m\<close>: the computation \<open>m\<close> keeps the state predicate \<open>I\<close> whichever
    way it ends; its rules are in the collection \<open>preserves_rules\<close>.
  \<^item> \<open>fails_in E m\<close>: every way \<open>m\<close> can end abruptly is in \<open>E\<close>.
  \<^item> generic facts on association lists, maps and words.
\<close>

named_theorems preserves_rules \<open>rules that decompose preserves goals\<close>
named_theorems fails_rules \<open>rules that decompose fails_in goals\<close>
named_theorems monad_simps \<open>evaluation of computations at a state\<close>

section \<open>Abrupt completion\<close>

datatype exn =
    RuntimeError string
  | LogicError string
  | RangeError string
  | OutOfRange string
  | InvalidArgument string
  | SystemError int string
  | JsonTypeError
  | JsonParseError
  | InvalidManifestError
  | NotSupportedError
  | ProcessNotFound
  | BadOptionalAccess

datatype abrupt =
    Throw exn
  | Abort string
  | Undefined string
  | Exit int
  | Exec string "string list" "string list"
  | Hang

section \<open>Computations\<close>

type_synonym ('s, 'a) M = "'s \<Rightarrow> (abrupt + 'a) \<times> 's"

definition returnM :: "'a \<Rightarrow> ('s, 'a) M" where
  "returnM x = (\<lambda>s. (Inr x, s))"

definition failM :: "abrupt \<Rightarrow> ('s, 'a) M" where
  "failM e = (\<lambda>s. (Inl e, s))"

definition throwM :: "exn \<Rightarrow> ('s, 'a) M" where
  "throwM e = failM (Throw e)"

definition bindM :: "('s, 'a) M \<Rightarrow> ('a \<Rightarrow> ('s, 'b) M) \<Rightarrow> ('s, 'b) M" where
  "bindM m f = (\<lambda>s. case m s of (r, s') \<Rightarrow> (case r of Inl e \<Rightarrow> (Inl e, s') | Inr x \<Rightarrow> f x s'))"

definition thenM :: "('s, 'a) M \<Rightarrow> ('s, 'b) M \<Rightarrow> ('s, 'b) M" where
  "thenM m n = bindM m (\<lambda>_. n)"

definition getsM :: "('s \<Rightarrow> 'a) \<Rightarrow> ('s, 'a) M" where
  "getsM f = (\<lambda>s. (Inr (f s), s))"

definition modifyM :: "('s \<Rightarrow> 's) \<Rightarrow> ('s, unit) M" where
  "modifyM f = (\<lambda>s. (Inr (), f s))"

definition whenM :: "bool \<Rightarrow> ('s, unit) M \<Rightarrow> ('s, unit) M" where
  "whenM b m = (if b then m else returnM ())"

definition liftE :: "exn + 'a \<Rightarrow> ('s, 'a) M" where
  "liftE r = (case r of Inl e \<Rightarrow> throwM e | Inr x \<Rightarrow> returnM x)"

definition assertM :: "bool \<Rightarrow> string \<Rightarrow> ('s, unit) M" where
  "assertM b msg = (if b then returnM () else failM (Abort msg))"

text \<open>\<open>catch (...)\<close> sees exceptions only.\<close>

definition catchM :: "('s, 'a) M \<Rightarrow> (exn \<Rightarrow> ('s, 'a) M) \<Rightarrow> ('s, 'a) M" where
  "catchM m h = (\<lambda>s. case m s of
     (Inl (Throw e), s') \<Rightarrow> h e s'
   | (r, s') \<Rightarrow> (r, s'))"

text \<open>An exception that leaves a \<open>noexcept\<close> function calls \<open>std::terminate\<close>.\<close>

definition noexceptM :: "('s, 'a) M \<Rightarrow> ('s, 'a) M" where
  "noexceptM m = catchM m (\<lambda>_. failM (Abort ''std::terminate''))"

primrec forM :: "'a list \<Rightarrow> ('a \<Rightarrow> ('s, unit) M) \<Rightarrow> ('s, unit) M" where
  "forM [] f = returnM ()"
| "forM (x # xs) f = thenM (f x) (forM xs f)"

text \<open>A loop that threads a value, as a local variable of the enclosing function.\<close>

primrec foldM :: "('b \<Rightarrow> 'a \<Rightarrow> ('s, 'b) M) \<Rightarrow> 'b \<Rightarrow> 'a list \<Rightarrow> ('s, 'b) M" where
  "foldM f b [] = returnM b"
| "foldM f b (x # xs) = bindM (f b x) (\<lambda>b'. foldM f b' xs)"

section \<open>Evaluation at a state\<close>

lemma returnM_apply [monad_simps]: "returnM x s = (Inr x, s)"
  by (simp add: returnM_def)

lemma failM_apply [monad_simps]: "failM e s = (Inl e, s)"
  by (simp add: failM_def)

lemma throwM_apply [monad_simps]: "throwM e s = (Inl (Throw e), s)"
  by (simp add: throwM_def failM_def)

lemma bindM_apply [monad_simps]:
  "bindM m f s = (case m s of (r, s') \<Rightarrow> (case r of Inl e \<Rightarrow> (Inl e, s') | Inr x \<Rightarrow> f x s'))"
  by (simp add: bindM_def)

lemma thenM_apply [monad_simps]:
  "thenM m n s = (case m s of (r, s') \<Rightarrow> (case r of Inl e \<Rightarrow> (Inl e, s') | Inr x \<Rightarrow> n s'))"
  by (simp add: thenM_def bindM_def)

lemma getsM_apply [monad_simps]: "getsM f s = (Inr (f s), s)"
  by (simp add: getsM_def)

lemma modifyM_apply [monad_simps]: "modifyM f s = (Inr (), f s)"
  by (simp add: modifyM_def)

lemma whenM_apply [monad_simps]: "whenM b m s = (if b then m s else (Inr (), s))"
  by (simp add: whenM_def returnM_def)

lemma liftE_apply [monad_simps]:
  "liftE r s = (case r of Inl e \<Rightarrow> (Inl (Throw e), s) | Inr x \<Rightarrow> (Inr x, s))"
  by (simp add: liftE_def throwM_def failM_def returnM_def split: sum.split)

lemma assertM_apply [monad_simps]:
  "assertM b msg s = (if b then (Inr (), s) else (Inl (Abort msg), s))"
  by (simp add: assertM_def failM_def returnM_def)

lemma catchM_apply [monad_simps]:
  "catchM m h s = (case m s of (Inl (Throw e), s') \<Rightarrow> h e s' | (r, s') \<Rightarrow> (r, s'))"
  by (simp add: catchM_def)

lemma noexceptM_apply [monad_simps]:
  "noexceptM m s =
     (case m s of (Inl (Throw e), s') \<Rightarrow> (Inl (Abort ''std::terminate''), s') | (r, s') \<Rightarrow> (r, s'))"
  by (simp add: noexceptM_def catchM_def failM_def)

lemma noexceptM_no_throw: "fst (noexceptM m s) \<noteq> Inl (Throw e)"
  by (simp add: noexceptM_apply split: prod.split sum.split abrupt.split)

lemma bindM_assoc: "bindM (bindM m f) g = bindM m (\<lambda>x. bindM (f x) g)"
  by (rule ext) (simp add: bindM_def split: prod.split sum.split)

lemma bindM_returnM_left: "bindM (returnM x) f = f x"
  by (rule ext) (simp add: bindM_def returnM_def)

lemma bindM_returnM_right: "bindM m returnM = m"
  by (rule ext) (simp add: bindM_def returnM_def split: prod.split sum.split)

text \<open>What follows a computation, moved inside it.\<close>

lemma thenM_bindM: "thenM (bindM m f) k = bindM m (\<lambda>x. thenM (f x) k)"
  by (rule ext) (simp add: thenM_def bindM_def split: prod.split sum.split)

lemma thenM_thenM: "thenM (thenM m n) k = thenM m (thenM n k)"
  by (rule ext) (simp add: thenM_def bindM_def split: prod.split sum.split)

lemma thenM_returnM: "thenM (returnM x) k = k"
  by (rule ext) (simp add: thenM_def bindM_def returnM_def)

lemma thenM_if: "thenM (if b then m else n) k = (if b then thenM m k else thenM n k)"
  by simp

lemmas thenM_distrib = thenM_bindM thenM_thenM thenM_returnM thenM_if

section \<open>State predicates kept whichever way a computation ends\<close>

definition preserves :: "('s \<Rightarrow> bool) \<Rightarrow> ('s, 'a) M \<Rightarrow> bool" where
  "preserves I m = (\<forall>s. I s \<longrightarrow> I (snd (m s)))"

lemma preservesD: "preserves I m \<Longrightarrow> I s \<Longrightarrow> I (snd (m s))"
  by (simp add: preserves_def)

lemma preservesE: "preserves I m \<Longrightarrow> m s = (r, s') \<Longrightarrow> I s \<Longrightarrow> I s'"
  by (metis preserves_def snd_conv)

lemma preserves_returnM [preserves_rules]: "preserves I (returnM x)"
  by (simp add: preserves_def returnM_def)

lemma preserves_failM [preserves_rules]: "preserves I (failM e)"
  by (simp add: preserves_def failM_def)

lemma preserves_throwM [preserves_rules]: "preserves I (throwM e)"
  by (simp add: preserves_def throwM_def failM_def)

lemma preserves_getsM [preserves_rules]: "preserves I (getsM f)"
  by (simp add: preserves_def getsM_def)

lemma preserves_liftE [preserves_rules]: "preserves I (liftE r)"
  by (simp add: preserves_def liftE_apply split: sum.split)

lemma preserves_assertM [preserves_rules]: "preserves I (assertM b msg)"
  by (simp add: preserves_def assertM_apply)

lemma preserves_modifyM [preserves_rules]:
  "(\<And>s. I s \<Longrightarrow> I (f s)) \<Longrightarrow> preserves I (modifyM f)"
  by (simp add: preserves_def modifyM_def)

lemma preserves_bindM [preserves_rules]:
  "preserves I m \<Longrightarrow> (\<And>x. preserves I (f x)) \<Longrightarrow> preserves I (bindM m f)"
  by (fastforce simp: preserves_def bindM_def split: prod.split sum.split)

lemma preserves_thenM [preserves_rules]:
  "preserves I m \<Longrightarrow> preserves I n \<Longrightarrow> preserves I (thenM m n)"
  by (simp add: thenM_def preserves_bindM)

lemma preserves_whenM [preserves_rules]:
  "(b \<Longrightarrow> preserves I m) \<Longrightarrow> preserves I (whenM b m)"
  by (simp add: whenM_def preserves_returnM)

lemma preserves_if [preserves_rules]:
  "(b \<Longrightarrow> preserves I m) \<Longrightarrow> (\<not> b \<Longrightarrow> preserves I n) \<Longrightarrow> preserves I (if b then m else n)"
  by simp

lemma preserves_option [preserves_rules]:
  "(x = None \<Longrightarrow> preserves I m) \<Longrightarrow> (\<And>y. x = Some y \<Longrightarrow> preserves I (f y)) \<Longrightarrow>
   preserves I (case x of None \<Rightarrow> m | Some y \<Rightarrow> f y)"
  by (simp split: option.split)

lemma preserves_prod [preserves_rules]:
  "(\<And>a b. x = (a, b) \<Longrightarrow> preserves I (f a b)) \<Longrightarrow> preserves I (case x of (a, b) \<Rightarrow> f a b)"
  by (simp split: prod.split)

lemma preserves_sum [preserves_rules]:
  "(\<And>a. x = Inl a \<Longrightarrow> preserves I (f a)) \<Longrightarrow> (\<And>b. x = Inr b \<Longrightarrow> preserves I (g b)) \<Longrightarrow>
   preserves I (case x of Inl a \<Rightarrow> f a | Inr b \<Rightarrow> g b)"
  by (simp split: sum.split)

lemma preserves_catchM [preserves_rules]:
  "preserves I m \<Longrightarrow> (\<And>e. preserves I (h e)) \<Longrightarrow> preserves I (catchM m h)"
  by (fastforce simp: preserves_def catchM_def split: prod.split sum.split abrupt.split)

lemma preserves_noexceptM [preserves_rules]: "preserves I m \<Longrightarrow> preserves I (noexceptM m)"
  by (simp add: noexceptM_def preserves_catchM preserves_failM)

lemma preserves_forM [preserves_rules]:
  "(\<And>x. x \<in> set xs \<Longrightarrow> preserves I (f x)) \<Longrightarrow> preserves I (forM xs f)"
  by (induction xs) (auto intro: preserves_rules)

lemma preserves_foldM [preserves_rules]:
  "(\<And>b x. x \<in> set xs \<Longrightarrow> preserves I (f b x)) \<Longrightarrow> preserves I (foldM f b xs)"
  by (induction xs arbitrary: b) (auto intro: preserves_rules)

lemma preserves_conj: "preserves I m \<Longrightarrow> preserves J m \<Longrightarrow> preserves (\<lambda>s. I s \<and> J s) m"
  by (simp add: preserves_def)

text \<open>\<open>carries P m Q\<close>: started in \<open>P\<close>, the computation ends in \<open>Q\<close>, whichever way it ends.\<close>

definition carries :: "('s \<Rightarrow> bool) \<Rightarrow> ('s, 'a) M \<Rightarrow> ('s \<Rightarrow> bool) \<Rightarrow> bool" where
  "carries P m Q = (\<forall>s. P s \<longrightarrow> Q (snd (m s)))"

lemma carriesD: "carries P m Q \<Longrightarrow> P s \<Longrightarrow> Q (snd (m s))"
  by (simp add: carries_def)

lemma preserves_carries: "preserves I m = carries I m I"
  by (simp add: preserves_def carries_def)

lemma carries_weaken: "preserves P m \<Longrightarrow> (\<And>s. P s \<Longrightarrow> Q s) \<Longrightarrow> carries P m Q"
  by (simp add: preserves_def carries_def)

lemma carries_bindM:
  "preserves P m \<Longrightarrow> (\<And>x. carries P (f x) Q) \<Longrightarrow> (\<And>s. P s \<Longrightarrow> Q s) \<Longrightarrow> carries P (bindM m f) Q"
  unfolding preserves_def carries_def bindM_def
  by (auto split: prod.split sum.split)

lemma carries_thenM:
  "preserves P m \<Longrightarrow> carries P n Q \<Longrightarrow> (\<And>s. P s \<Longrightarrow> Q s) \<Longrightarrow> carries P (thenM m n) Q"
  by (simp add: thenM_def carries_bindM)

lemma carries_seq:
  "carries P m Q \<Longrightarrow> carries Q n R \<Longrightarrow> (\<And>s. Q s \<Longrightarrow> R s) \<Longrightarrow> carries P (thenM m n) R"
  unfolding carries_def thenM_def bindM_def by (auto split: prod.split sum.split)

lemma carries_then:
  "carries P m Q \<Longrightarrow> preserves Q n \<Longrightarrow> carries P (thenM m n) Q"
  by (rule carries_seq) (simp_all add: preserves_carries)

lemma carries_returnM: "(\<And>s. P s \<Longrightarrow> Q s) \<Longrightarrow> carries P (returnM x) Q"
  by (simp add: carries_def returnM_def)

lemma carries_throwM: "(\<And>s. P s \<Longrightarrow> Q s) \<Longrightarrow> carries P (throwM e) Q"
  by (simp add: carries_def throwM_def failM_def)

lemma carries_if:
  "(b \<Longrightarrow> carries P m Q) \<Longrightarrow> (\<not> b \<Longrightarrow> carries P n Q) \<Longrightarrow> carries P (if b then m else n) Q"
  by simp

lemma carries_modifyM: "(\<And>s. P s \<Longrightarrow> Q (f s)) \<Longrightarrow> carries P (modifyM f) Q"
  by (simp add: carries_def modifyM_def)

section \<open>The ways a computation can fail\<close>

definition fails_in :: "abrupt set \<Rightarrow> ('s, 'a) M \<Rightarrow> bool" where
  "fails_in E m = (\<forall>s e s'. m s = (Inl e, s') \<longrightarrow> e \<in> E)"

lemma fails_inD: "fails_in E m \<Longrightarrow> m s = (Inl e, s') \<Longrightarrow> e \<in> E"
  by (auto simp: fails_in_def)

lemma fails_in_mono: "fails_in E m \<Longrightarrow> E \<subseteq> F \<Longrightarrow> fails_in F m"
  by (auto simp: fails_in_def)

lemma fails_in_returnM [fails_rules]: "fails_in E (returnM x)"
  by (simp add: fails_in_def returnM_def)

lemma fails_in_getsM [fails_rules]: "fails_in E (getsM f)"
  by (simp add: fails_in_def getsM_def)

lemma fails_in_modifyM [fails_rules]: "fails_in E (modifyM f)"
  by (simp add: fails_in_def modifyM_def)

lemma fails_in_failM [fails_rules]: "e \<in> E \<Longrightarrow> fails_in E (failM e)"
  by (simp add: fails_in_def failM_def)

lemma fails_in_throwM [fails_rules]: "Throw x \<in> E \<Longrightarrow> fails_in E (throwM x)"
  by (simp add: throwM_def fails_in_failM)

lemma fails_in_liftE [fails_rules]: "range Throw \<subseteq> E \<Longrightarrow> fails_in E (liftE r)"
  by (auto simp: liftE_def intro: fails_rules split: sum.split)

lemma fails_in_bindM [fails_rules]:
  "fails_in E m \<Longrightarrow> (\<And>x. fails_in E (f x)) \<Longrightarrow> fails_in E (bindM m f)"
  unfolding fails_in_def bindM_def by (auto split: prod.splits sum.splits; metis)

lemma fails_in_thenM [fails_rules]: "fails_in E m \<Longrightarrow> fails_in E n \<Longrightarrow> fails_in E (thenM m n)"
  by (simp add: thenM_def fails_in_bindM)

lemma fails_in_whenM [fails_rules]: "(b \<Longrightarrow> fails_in E m) \<Longrightarrow> fails_in E (whenM b m)"
  by (simp add: whenM_def fails_in_returnM)

lemma fails_in_if [fails_rules]:
  "(b \<Longrightarrow> fails_in E m) \<Longrightarrow> (\<not> b \<Longrightarrow> fails_in E n) \<Longrightarrow> fails_in E (if b then m else n)"
  by simp

lemma fails_in_option [fails_rules]:
  "(x = None \<Longrightarrow> fails_in E m) \<Longrightarrow> (\<And>y. x = Some y \<Longrightarrow> fails_in E (f y)) \<Longrightarrow>
   fails_in E (case x of None \<Rightarrow> m | Some y \<Rightarrow> f y)"
  by (simp split: option.split)

lemma fails_in_prod [fails_rules]:
  "(\<And>a b. x = (a, b) \<Longrightarrow> fails_in E (f a b)) \<Longrightarrow> fails_in E (case x of (a, b) \<Rightarrow> f a b)"
  by (simp split: prod.split)

lemma fails_in_sum [fails_rules]:
  "(\<And>a. x = Inl a \<Longrightarrow> fails_in E (f a)) \<Longrightarrow> (\<And>b. x = Inr b \<Longrightarrow> fails_in E (g b)) \<Longrightarrow>
   fails_in E (case x of Inl a \<Rightarrow> f a | Inr b \<Rightarrow> g b)"
  by (simp split: sum.split)

lemma fails_in_catchM [fails_rules]:
  "fails_in (E \<union> range Throw) m \<Longrightarrow> (\<And>e. fails_in E (h e)) \<Longrightarrow> fails_in E (catchM m h)"
  unfolding fails_in_def catchM_def
  by (auto split: prod.splits sum.splits abrupt.splits; blast)

lemma fails_in_forM [fails_rules]:
  "(\<And>x. x \<in> set xs \<Longrightarrow> fails_in E (f x)) \<Longrightarrow> fails_in E (forM xs f)"
  by (induction xs) (auto intro: fails_rules)

lemma fails_in_foldM [fails_rules]:
  "(\<And>b x. x \<in> set xs \<Longrightarrow> fails_in E (f b x)) \<Longrightarrow> fails_in E (foldM f b xs)"
  by (induction xs arbitrary: b) (auto intro: fails_rules)

text \<open>A failure of another kind can only come from the second part.\<close>

lemma bindM_failE:
  assumes "bindM m f s = (Inl e, s')" and "fails_in E m" and "e \<notin> E"
  obtains x s1 where "m s = (Inr x, s1)" and "f x s1 = (Inl e, s')"
  using assms by (auto simp: bindM_def fails_in_def split: prod.splits sum.splits)

lemma thenM_failE:
  assumes "thenM m n s = (Inl e, s')" and "fails_in E m" and "e \<notin> E"
  obtains x s1 where "m s = (Inr x, s1)" and "n s1 = (Inl e, s')"
  using assms unfolding thenM_def by (rule bindM_failE)

section \<open>Association lists and maps\<close>

text \<open>\<open>insert\<close> and \<open>emplace\<close> of the standard maps leave an existing entry alone.\<close>

definition map_insert :: "('k \<rightharpoonup> 'v) \<Rightarrow> 'k \<Rightarrow> 'v \<Rightarrow> ('k \<rightharpoonup> 'v)" where
  "map_insert m k v = (if m k = None then m(k \<mapsto> v) else m)"

definition alist_insert :: "'k \<Rightarrow> 'v \<Rightarrow> ('k \<times> 'v) list \<Rightarrow> ('k \<times> 'v) list" where
  "alist_insert k v xs = (if map_of xs k = None then xs @ [(k, v)] else xs)"

lemma map_insert_fresh: "m k = None \<Longrightarrow> map_insert m k v = m(k \<mapsto> v)"
  by (simp add: map_insert_def)

lemma dom_map_insert: "dom (map_insert m k v) = insert k (dom m)"
  by (auto simp: map_insert_def)

lemma alist_insert_fresh: "map_of xs k = None \<Longrightarrow> alist_insert k v xs = xs @ [(k, v)]"
  by (simp add: alist_insert_def)

lemma map_of_alist_insert: "map_of (alist_insert k v xs) = map_insert (map_of xs) k v"
  by (auto simp: alist_insert_def map_insert_def map_add_def fun_eq_iff split: option.split)

lemma distinct_alist_insert:
  "distinct (map fst xs) \<Longrightarrow> distinct (map fst (alist_insert k v xs))"
  by (auto simp: alist_insert_def map_of_eq_None_iff)

lemma fst_set_alist_insert: "fst ` set (alist_insert k v xs) = insert k (fst ` set xs)"
  by (auto simp: alist_insert_def) (metis domI domIff dom_map_of_conv_image_fst image_eqI)

section \<open>Words\<close>

text \<open>A 64-bit number stored in an \<open>int\<close>.\<close>

lemma sint_ucast_small:
  assumes "uint (w :: 64 word) < 2 ^ 31"
  shows "sint (ucast w :: 32 word) = uint w"
proof -
  have "uint (ucast w :: 32 word) = uint w"
    using assms by (simp add: unsigned_ucast_eq take_bit_int_eq_self)
  moreover have "signed_take_bit 31 (uint w) = uint w"
    by (rule signed_take_bit_int_eq_self) (use assms uint_ge_0 [of w] in linarith)+
  ultimately show ?thesis by (simp add: sint_uint)
qed

end
