(* ===== verification/Text.thy ===== *)
theory Text
  imports Prelude "HOL-Library.Char_ord"
begin

text \<open>
  The string functions of the C++ standard library that the code calls: \<open>std::stoi\<close>,
  \<open>std::stoul\<close>, \<open>toupper\<close>, \<open>find\<close>, \<open>compare\<close> on a suffix, \<open>std::to_string\<close> and
  the \<open>/\<close> of \<open>std::filesystem::path\<close>. Characters are bytes.
\<close>

definition char_code :: "char \<Rightarrow> nat" where
  "char_code c = of_char c"

definition is_space :: "char \<Rightarrow> bool" where
  "is_space c \<longleftrightarrow> char_code c = 32 \<or> (9 \<le> char_code c \<and> char_code c \<le> 13)"

text \<open>The value of a decimal or octal digit.\<close>

definition digit_value :: "nat \<Rightarrow> char \<Rightarrow> nat option" where
  "digit_value base c =
     (if 48 \<le> char_code c \<and> char_code c < 48 + base then Some (char_code c - 48) else None)"

text \<open>
  The longest run of digits at the front, read in the given base; \<open>None\<close> when there is none.
\<close>

primrec scan_digits :: "nat \<Rightarrow> string \<Rightarrow> nat \<Rightarrow> nat" where
  "scan_digits base [] acc = acc"
| "scan_digits base (c # cs) acc =
     (case digit_value base c of None \<Rightarrow> acc | Some d \<Rightarrow> scan_digits base cs (base * acc + d))"

definition scan_nat :: "nat \<Rightarrow> string \<Rightarrow> nat option" where
  "scan_nat base s =
     (case s of [] \<Rightarrow> None
      | c # cs \<Rightarrow> (case digit_value base c of None \<Rightarrow> None | Some d \<Rightarrow> Some (scan_digits base cs d)))"

text \<open>White space, an optional sign, digits: the syntax of \<open>strtol\<close> in base 8 or 10.\<close>

definition scan_int :: "nat \<Rightarrow> string \<Rightarrow> (bool \<times> nat) option" where
  "scan_int base s =
     (let t = dropWhile is_space s in
      case t of
        [] \<Rightarrow> None
      | c # cs \<Rightarrow>
          if c = CHR ''-'' then map_option (Pair True) (scan_nat base cs)
          else if c = CHR ''+'' then map_option (Pair False) (scan_nat base cs)
          else map_option (Pair False) (scan_nat base t))"

definition stoi :: "string \<Rightarrow> exn + int" where
  "stoi s =
     (case scan_int 10 s of
        None \<Rightarrow> Inl (InvalidArgument ''stoi'')
      | Some (neg, n) \<Rightarrow>
          let v = (if neg then - int n else int n) in
          if - (2 ^ 31) \<le> v \<and> v < 2 ^ 31 then Inr v else Inl (OutOfRange ''stoi''))"

definition stoul :: "nat \<Rightarrow> string \<Rightarrow> exn + 64 word" where
  "stoul base s =
     (case scan_int base s of
        None \<Rightarrow> Inl (InvalidArgument ''stoul'')
      | Some (neg, n) \<Rightarrow>
          if n < 2 ^ 64 then Inr (if neg then - word_of_nat n else word_of_nat n)
          else Inl (OutOfRange ''stoul''))"

definition toupper :: "char \<Rightarrow> char" where
  "toupper c = (if 97 \<le> char_code c \<and> char_code c \<le> 122 then char_of (char_code c - 32) else c)"

definition has_prefix :: "string \<Rightarrow> string \<Rightarrow> bool" where
  "has_prefix p s \<longleftrightarrow> take (length p) s = p"

primrec contains_sub :: "string \<Rightarrow> string \<Rightarrow> bool" where
  "contains_sub p [] = has_prefix p []"
| "contains_sub p (c # cs) = (has_prefix p (c # cs) \<or> contains_sub p cs)"

section \<open>Digits and decimal text\<close>

definition digit_char :: "nat \<Rightarrow> char" where
  "digit_char d = char_of (48 + d)"

fun show_base :: "nat \<Rightarrow> nat \<Rightarrow> string" where
  "show_base b n =
     (if b < 2 \<or> n < b then [digit_char n] else show_base b (n div b) @ [digit_char (n mod b)])"

declare show_base.simps [simp del]

definition to_string :: "int \<Rightarrow> string" where
  "to_string i = (if i < 0 then CHR ''-'' # show_base 10 (nat (- i)) else show_base 10 (nat i))"

lemma char_code_digit: "d < 10 \<Longrightarrow> char_code (digit_char d) = 48 + d"
  by (simp add: char_code_def digit_char_def)

lemma digit_value_digit: "d < b \<Longrightarrow> b \<le> 10 \<Longrightarrow> digit_value b (digit_char d) = Some d"
  by (simp add: digit_value_def char_code_digit)

lemma scan_digits_append_one:
  "(\<forall>c \<in> set s. digit_value b c \<noteq> None) \<Longrightarrow>
   scan_digits b (s @ [digit_char d]) acc = scan_digits b [digit_char d] (scan_digits b s acc)"
  by (induction s arbitrary: acc) (auto split: option.split)

lemma show_base_nonempty: "show_base b n \<noteq> []"
  by (subst show_base.simps) simp

lemma show_base_digits:
  assumes "2 \<le> b" "b \<le> 10"
  shows "\<forall>c \<in> set (show_base b n). digit_value b c \<noteq> None"
  using assms
proof (induction b n rule: show_base.induct)
  case (1 b n)
  then show ?case
    by (subst show_base.simps) (auto simp: digit_value_digit)
qed

lemma scan_digits_show_base:
  assumes "2 \<le> b" "b \<le> 10"
  shows "scan_digits b (show_base b n) 0 = n"
  using assms
proof (induction b n rule: show_base.induct)
  case (1 b n)
  show ?case
  proof (cases "n < b")
    case True
    with 1 show ?thesis
      by (subst show_base.simps) (simp add: digit_value_digit)
  next
    case False
    with 1 have "scan_digits b (show_base b (n div b)) 0 = n div b" by simp
    with 1 False show ?thesis
      by (subst show_base.simps)
        (simp add: scan_digits_append_one show_base_digits digit_value_digit)
  qed
qed

text \<open>Reading back what was printed.\<close>

lemma scan_nat_show_base:
  assumes "2 \<le> b" "b \<le> 10"
  shows "scan_nat b (show_base b n) = Some n"
proof -
  obtain c cs where eq: "show_base b n = c # cs"
    using show_base_nonempty by (cases "show_base b n") blast+
  have "digit_value b c \<noteq> None" using show_base_digits [OF assms, of n] eq by simp
  then show ?thesis
    using scan_digits_show_base [OF assms, of n] eq by (auto simp: scan_nat_def)
qed

lemma digit_value_char:
  assumes "digit_value b c \<noteq> None" "b \<le> 10"
  shows "\<not> is_space c" "c \<noteq> CHR ''-''" "c \<noteq> CHR ''+''"
  using assms by (auto simp: digit_value_def is_space_def char_code_def split: if_splits)

lemma scan_int_show_base:
  assumes "2 \<le> b" "b \<le> 10"
  shows "scan_int b (show_base b n) = Some (False, n)"
proof -
  obtain c cs where eq: "show_base b n = c # cs"
    using show_base_nonempty by (cases "show_base b n") blast+
  have c: "digit_value b c \<noteq> None" using show_base_digits [OF assms, of n] eq by simp
  show ?thesis
    using scan_nat_show_base [OF assms, of n] digit_value_char [OF c assms(2)]
    by (simp add: scan_int_def eq)
qed

section \<open>Paths\<close>

text \<open>\<open>p / q\<close>: an absolute \<open>q\<close> replaces \<open>p\<close>; otherwise a separator is added where needed.\<close>

definition path_append :: "string \<Rightarrow> string \<Rightarrow> string" where
  "path_append p q =
     (if has_prefix ''/'' q then q
      else if p = [] \<or> last p = CHR ''/'' then p @ q
      else p @ ''/'' @ q)"

text \<open>
  \<open>path::extension()\<close>: from the last dot of the last component, unless the component is a
  single dot, two dots, or the dot is its first character.
\<close>

definition path_filename :: "string \<Rightarrow> string" where
  "path_filename p = rev (takeWhile (\<lambda>c. c \<noteq> CHR ''/'') (rev p))"

definition path_extension :: "string \<Rightarrow> string" where
  "path_extension p =
     (let f = path_filename p; r = rev f;
          ext = takeWhile (\<lambda>c. c \<noteq> CHR ''.'') r in
      if f = ''.'' \<or> f = ''..'' \<or> length ext = length r \<or> length ext + 1 = length r then []
      else CHR ''.'' # rev ext)"

end
