(* ===== verification/Log.thy ===== *)
theory Log
  imports Text
begin

text \<open>
  Logging, \<open>src/log.h\<close> and \<open>src/log.cc\<close>: where a message goes, and what the two macros that report a
  fatal error do after it. The arguments of a format are expanded by \<open>printf\<close>: a message of this
  theory is the text that results. A call to the log is not part of the daemon's trace; the rest of
  the model keeps of \<open>err\<close> that it aborts (\<open>err_is_abort\<close>).
\<close>

section \<open>The environment of the log\<close>

text \<open>
  An open stream has a number. \<open>written\<close> and \<open>syslog_out\<close> are what was logged, the latest first;
  a stream in \<open>closed\<close> must not be used any more.
\<close>

record log_env =
  logfile :: "int option"
  written :: "(int \<times> string) list"
  closed :: "int set"
  syslog_out :: "(int \<times> string) list"

definition LOG_ERR :: int where "LOG_ERR = 3"
definition LOG_WARNING :: int where "LOG_WARNING = 4"
definition LOG_NOTICE :: int where "LOG_NOTICE = 5"
definition LOG_INFO :: int where "LOG_INFO = 6"
definition LOG_DEBUG :: int where "LOG_DEBUG = 7"

text \<open>The initial value of the global.\<close>

definition init_log :: log_env where
  "init_log = \<lparr>logfile = None, written = [], closed = {}, syslog_out = []\<rparr>"

text \<open>The function, the file and the line of the call.\<close>

record site =
  site_func :: string
  site_file :: string
  site_line :: int

definition syslog_text :: "site \<Rightarrow> string \<Rightarrow> string" where
  "syslog_text w msg = site_func w @ ''('' @ site_file w @ '':'' @ to_string (site_line w) @ ''): '' @ msg @ [CHR 0x0A]"

definition stream_text :: "int \<Rightarrow> int \<Rightarrow> site \<Rightarrow> string \<Rightarrow> string" where
  "stream_text pid level w msg = ''['' @ to_string pid @ ''] '' @ to_string level @ '' '' @ syslog_text w msg"

definition log_all :: "int \<Rightarrow> site \<Rightarrow> int \<Rightarrow> string \<Rightarrow> (log_env, unit) M" where
  "log_all pid w level msg =
     bindM (getsM (\<lambda>s. (logfile s, closed s))) (\<lambda>(file, gone).
     case file of
       Some f \<Rightarrow>
         if f \<in> gone then failM (Undefined ''fprintf() on a closed stream'')
         else modifyM (\<lambda>s. s\<lparr>written := (f, stream_text pid level w msg) # written s\<rparr>)
     | None \<Rightarrow> modifyM (\<lambda>s. s\<lparr>syslog_out := (level, syslog_text w msg) # syslog_out s\<rparr>))"

definition log_error :: "int \<Rightarrow> site \<Rightarrow> string \<Rightarrow> (log_env, unit) M" where
  "log_error pid w msg = log_all pid w LOG_ERR (''**ERROR** '' @ msg)"

definition log_warning :: "int \<Rightarrow> site \<Rightarrow> string \<Rightarrow> (log_env, unit) M" where
  "log_warning pid w msg = log_all pid w LOG_WARNING (''WARNING: '' @ msg)"

definition log_notice :: "int \<Rightarrow> site \<Rightarrow> string \<Rightarrow> (log_env, unit) M" where
  "log_notice pid w msg = log_all pid w LOG_NOTICE msg"

definition log_info :: "int \<Rightarrow> site \<Rightarrow> string \<Rightarrow> (log_env, unit) M" where
  "log_info pid w msg = log_all pid w LOG_INFO msg"

definition log_debug :: "int \<Rightarrow> site \<Rightarrow> string \<Rightarrow> (log_env, unit) M" where
  "log_debug pid w msg = log_all pid w LOG_DEBUG msg"

text \<open>\<open>errno\<close> and the text of \<open>strerror\<close> are arguments.\<close>

definition log_errno :: "int \<Rightarrow> site \<Rightarrow> int \<Rightarrow> string \<Rightarrow> string \<Rightarrow> (log_env, unit) M" where
  "log_errno pid w errno errtext msg =
     log_all pid w LOG_ERR (msg @ '': errno='' @ to_string errno @ '' ('' @ errtext @ '')'')"

definition log_freopen :: "int option \<Rightarrow> (log_env, unit) M" where
  "log_freopen new_logfile =
     bindM (getsM (\<lambda>s. (logfile s, closed s))) (\<lambda>(file, gone).
     thenM
       (case file of
          None \<Rightarrow> returnM ()
        | Some f \<Rightarrow>
            if f \<in> gone then failM (Undefined ''fclose() on a closed stream'')
            else modifyM (\<lambda>s. s\<lparr>closed := insert f gone\<rparr>))
       (modifyM (\<lambda>s. s\<lparr>logfile := new_logfile\<rparr>)))"

definition crash :: "int \<Rightarrow> (log_env, 'a) M" where
  "crash code = failM (Abort ''abort()'')"

definition log_err :: "int \<Rightarrow> site \<Rightarrow> int \<Rightarrow> string \<Rightarrow> int \<Rightarrow> string \<Rightarrow> (log_env, 'a) M" where
  "log_err pid w errno errtext code msg =
     thenM (log_errno pid w errno errtext (''**FATAL ERROR** '' @ msg)) (crash code)"

definition log_errx :: "int \<Rightarrow> site \<Rightarrow> int \<Rightarrow> string \<Rightarrow> (log_env, 'a) M" where
  "log_errx pid w code msg = thenM (log_all pid w LOG_ERR (''**FATAL ERROR** '' @ msg)) (crash code)"

lemmas log_defs = log_error_def log_warning_def log_notice_def log_info_def log_debug_def log_errno_def

section \<open>An open log\<close>

text \<open>The stream in use, if there is one, is open.\<close>

definition log_open :: "log_env \<Rightarrow> bool" where
  "log_open s \<longleftrightarrow> (case logfile s of None \<Rightarrow> True | Some f \<Rightarrow> f \<notin> closed s)"

lemma init_log_open: "log_open init_log"
  by (simp add: log_open_def init_log_def)

text \<open>A message goes to exactly one place, and nothing that was logged is lost.\<close>

definition logged :: "int \<Rightarrow> site \<Rightarrow> int \<Rightarrow> string \<Rightarrow> log_env \<Rightarrow> log_env" where
  "logged pid w level msg s =
     (case logfile s of
        Some f \<Rightarrow> s\<lparr>written := (f, stream_text pid level w msg) # written s\<rparr>
      | None \<Rightarrow> s\<lparr>syslog_out := (level, syslog_text w msg) # syslog_out s\<rparr>)"

lemma log_all_open:
  assumes "log_open s"
  shows "log_all pid w level msg s = (Inr (), logged pid w level msg s)" "log_open (logged pid w level msg s)"
  using assms by (auto simp: log_all_def log_open_def logged_def monad_simps split: option.splits)

lemma logged_once:
  "length (written (logged pid w level msg s)) + length (syslog_out (logged pid w level msg s)) =
   Suc (length (written s) + length (syslog_out s))"
  by (simp add: logged_def split: option.split)

text \<open>
  Changing to another stream keeps the log open and closes the one before: its lines stay as they are,
  whatever is logged afterwards.
\<close>

lemma log_freopen_open:
  assumes "log_open s" and "case new of None \<Rightarrow> True | Some f \<Rightarrow> f \<notin> closed s \<and> logfile s \<noteq> Some f"
  shows "\<exists>s'. log_freopen new s = (Inr (), s') \<and> log_open s' \<and> logfile s' = new \<and> written s' = written s \<and>
    closed s' = closed s \<union> set_option (logfile s)"
  using assms by (auto simp: log_freopen_def log_open_def monad_simps split: option.splits)

lemma closed_stream_unwritten:
  assumes "log_open s" and "f \<in> closed s"
  shows "filter (\<lambda>(g, _). g = f) (written (logged pid w level msg s)) = filter (\<lambda>(g, _). g = f) (written s)"
  using assms by (auto simp: logged_def log_open_def split: option.splits)

text \<open>
  Reopening the stream that is in use closes it and keeps it: the next message is written to a closed
  stream. The daemon calls \<open>log_freopen\<close> once, when no stream is in use.
\<close>

lemma reopen_same_stream:
  assumes "logfile s = Some f" and "f \<notin> closed s"
  shows "\<exists>s'. log_freopen (Some f) s = (Inr (), s') \<and>
    fst (log_all pid w level msg s') = Inl (Undefined ''fprintf() on a closed stream'')"
  using assms by (simp add: log_freopen_def log_all_def monad_simps)

lemma foreground_log: "log_freopen (Some 1) init_log = (Inr (), init_log\<lparr>logfile := Some 1\<rparr>)"
  by (simp add: log_freopen_def init_log_def monad_simps)

section \<open>Fatal errors\<close>

text \<open>
  The two macros log the message as an error and abort the process: the exit code of the call has no
  effect, where that of \<open>err.h\<close> is the status of the process.
\<close>

lemma err_is_abort:
  assumes "log_open s"
  shows "log_err pid w errno errtext code msg s = (Inl (Abort ''abort()''),
      logged pid w LOG_ERR ((''**FATAL ERROR** '' @ msg) @ '': errno='' @ to_string errno @ '' ('' @ errtext @ '')'') s)"
    and "log_errx pid w code msg s = (Inl (Abort ''abort()''), logged pid w LOG_ERR (''**FATAL ERROR** '' @ msg) s)"
  using log_all_open(1) [OF assms] by (simp_all add: log_err_def log_errx_def log_errno_def crash_def monad_simps)

lemma exit_code_ignored:
  "log_err pid w errno errtext code msg = log_err pid w errno errtext 0 msg" "log_errx pid w code msg = log_errx pid w 0 msg"
  by (simp_all add: log_err_def log_errx_def crash_def)

end
