(* ===== verification/Fsm.thy ===== *)
theory Fsm
  imports Prelude
begin

text \<open>
  The generic state machine, \<open>src/fsm.h\<close>. Guards and actions are closures over the object that
  owns the machine, so they are computations on the owner's state \<open>'s\<close>, and the current state
  \<open>m_cs\<close> is a field of that state, read and written through the two arguments \<open>get\<close> and
  \<open>put\<close>. A guard or an action may throw, and an action may call \<open>execute\<close> again.
\<close>

datatype fsm_status = Fsm_Success | Fsm_NoMatchingTrigger | Fsm_BlockedByGuard

record ('s, 'st, 'tr) trans =
  from_state :: 'st
  to_state :: 'st
  trigger :: 'tr
  guard :: "('s, bool) M option"
  action :: "('s, unit) M option"

text \<open>\<open>map<State, vector<Trans>>\<close>\<close>

type_synonym ('s, 'st, 'tr) transitions = "'st \<rightharpoonup> ('s, 'st, 'tr) trans list"

section \<open>Operations\<close>

definition add_transition :: "('s, 'st, 'tr) transitions \<Rightarrow> ('s, 'st, 'tr) trans \<Rightarrow>
    ('s, 'st, 'tr) transitions" where
  "add_transition m t =
     m(from_state t \<mapsto> (case m (from_state t) of None \<Rightarrow> [] | Some ts \<Rightarrow> ts) @ [t])"

primrec add_transitions :: "('s, 'st, 'tr) transitions \<Rightarrow> ('s, 'st, 'tr) trans list \<Rightarrow>
    ('s, 'st, 'tr) transitions" where
  "add_transitions m [] = m"
| "add_transitions m (t # ts) = add_transitions (add_transition m t) ts"

text \<open>The loop of \<open>execute\<close> over the transitions of the current state.\<close>

primrec exec_loop :: "('st \<Rightarrow> 's \<Rightarrow> 's) \<Rightarrow> ('st \<Rightarrow> 'st \<Rightarrow> 'tr \<Rightarrow> ('s, unit) M) option \<Rightarrow> 'tr \<Rightarrow>
    fsm_status \<Rightarrow> ('s, 'st, 'tr) trans list \<Rightarrow> ('s, fsm_status) M" where
  "exec_loop put debug_fn trig err_code [] = returnM err_code"
| "exec_loop put debug_fn trig err_code (t # ts) =
     (if trig \<noteq> trigger t then exec_loop put debug_fn trig err_code ts
      else
        bindM (case guard t of None \<Rightarrow> returnM True | Some g \<Rightarrow> g) (\<lambda>ok.
        if \<not> ok then exec_loop put debug_fn trig Fsm_BlockedByGuard ts
        else
          thenM (case action t of None \<Rightarrow> returnM () | Some a \<Rightarrow> a)
         (thenM (modifyM (put (to_state t)))
         (thenM (case debug_fn of None \<Rightarrow> returnM ()
                 | Some f \<Rightarrow> f (from_state t) (to_state t) trig)
                (returnM Fsm_Success)))))"

definition execute :: "('s \<Rightarrow> 'st) \<Rightarrow> ('st \<Rightarrow> 's \<Rightarrow> 's) \<Rightarrow>
    ('st \<Rightarrow> 'st \<Rightarrow> 'tr \<Rightarrow> ('s, unit) M) option \<Rightarrow> ('s, 'st, 'tr) transitions \<Rightarrow> 'tr \<Rightarrow>
    ('s, fsm_status) M" where
  "execute get put debug_fn m_transitions trig =
     bindM (getsM get) (\<lambda>m_cs.
     case m_transitions m_cs of
       None \<Rightarrow> returnM Fsm_NoMatchingTrigger
     | Some active \<Rightarrow> exec_loop put debug_fn trig Fsm_NoMatchingTrigger active)"

definition fsm_reset :: "('st \<Rightarrow> 's \<Rightarrow> 's) \<Rightarrow> 'st \<Rightarrow> ('s, unit) M" where
  "fsm_reset put st = modifyM (put st)"

section \<open>The table as a list\<close>

text \<open>
  The vectors of the map are the transitions of the initialiser list that leave the state, in
  the order of the list.
\<close>

lemma add_transitions_map:
  "add_transitions m ts st =
     (let new = filter (\<lambda>t. from_state t = st) ts in
      if new = [] then m st else Some ((case m st of None \<Rightarrow> [] | Some old \<Rightarrow> old) @ new))"
proof (induction ts arbitrary: m)
  case (Cons t ts)
  show ?case
    unfolding add_transitions.simps Cons.IH
    by (auto simp: add_transition_def Let_def split: option.split)
qed simp

lemma execute_add_transitions:
  "execute get put dbg (add_transitions Map.empty ts) trig s =
     exec_loop put dbg trig Fsm_NoMatchingTrigger (filter (\<lambda>t. from_state t = get s) ts) s"
proof (cases "filter (\<lambda>t. from_state t = get s) ts = []")
  case True
  then show ?thesis
    by (simp add: execute_def monad_simps add_transitions_map Let_def)
next
  case False
  then show ?thesis
    by (simp add: execute_def monad_simps add_transitions_map Let_def)
qed

lemma exec_loop_filter:
  "exec_loop put dbg trig err (filter (\<lambda>t. trigger t = trig) ts) = exec_loop put dbg trig err ts"
  by (induction ts arbitrary: err) (auto cong: if_cong)

text \<open>\<open>candidates\<close>: the transitions a trigger can take from a state, in the order they are tried.\<close>

definition candidates :: "('s, 'st, 'tr) trans list \<Rightarrow> 'st \<Rightarrow> 'tr \<Rightarrow> ('s, 'st, 'tr) trans list" where
  "candidates ts st trig = filter (\<lambda>t. from_state t = st \<and> trigger t = trig) ts"

lemma execute_candidates:
  "execute get put dbg (add_transitions Map.empty ts) trig s =
     exec_loop put dbg trig Fsm_NoMatchingTrigger (candidates ts (get s) trig) s"
  unfolding execute_add_transitions candidates_def
  by (subst exec_loop_filter [symmetric]) (simp only: filter_filter)

section \<open>Predicates every guard and action keeps\<close>

lemma preserves_exec_loop:
  assumes "\<And>t g. t \<in> set ts \<Longrightarrow> guard t = Some g \<Longrightarrow> preserves I g"
    and "\<And>t a. t \<in> set ts \<Longrightarrow> action t = Some a \<Longrightarrow> preserves I a"
    and "\<And>st s. I s \<Longrightarrow> I (put st s)"
  shows "preserves I (exec_loop put (Some (\<lambda>_ _ _. returnM ())) trig err ts)"
  using assms(1,2)
proof (induction ts arbitrary: err)
  case (Cons t ts)
  have g: "preserves I (case guard t of None \<Rightarrow> returnM True | Some g \<Rightarrow> g)"
    and a: "preserves I (case action t of None \<Rightarrow> returnM () | Some a \<Rightarrow> a)"
    using Cons.prems by (auto intro: preserves_returnM split: option.split)
  have ih: "preserves I (exec_loop put (Some (\<lambda>_ _ _. returnM ())) trig err ts)" for err
    by (rule Cons.IH) (use Cons.prems in auto)
  show ?case
    using ih g a assms(3) by (auto intro!: preserves_rules)
qed (simp add: preserves_returnM)

lemma preserves_execute:
  assumes "\<And>t g. t \<in> set ts \<Longrightarrow> guard t = Some g \<Longrightarrow> preserves I g"
    and "\<And>t a. t \<in> set ts \<Longrightarrow> action t = Some a \<Longrightarrow> preserves I a"
    and "\<And>st s. I s \<Longrightarrow> I (put st s)"
  shows "preserves I (execute get put (Some (\<lambda>_ _ _. returnM ())) (add_transitions Map.empty ts) trig)"
proof -
  have "preserves I (exec_loop put (Some (\<lambda>_ _ _. returnM ())) trig Fsm_NoMatchingTrigger
      (candidates ts st trig))" for st
    by (rule preserves_exec_loop) (use assms in \<open>auto simp: candidates_def\<close>)
  then show ?thesis
    unfolding preserves_def execute_candidates by blast
qed

text \<open>
  The same for a predicate \<open>K st\<close> that holds while the machine is in \<open>st\<close>: the guards and the action
  of a transition keep it, and the move to the next state gives \<open>I\<close>.
\<close>

lemma carries_exec_loop:
  assumes "\<And>t g. t \<in> set ts \<Longrightarrow> guard t = Some g \<Longrightarrow> preserves K g"
    and "\<And>t a. t \<in> set ts \<Longrightarrow> action t = Some a \<Longrightarrow> preserves K a"
    and "\<And>t s. t \<in> set ts \<Longrightarrow> K s \<Longrightarrow> I (put (to_state t) s)" and "\<And>s. K s \<Longrightarrow> I s"
  shows "carries K (exec_loop put (Some (\<lambda>_ _ _. returnM ())) trig err ts) I"
  using assms(1-3)
proof (induction ts arbitrary: err)
  case Nil
  then show ?case by (simp add: carries_returnM assms(4))
next
  case (Cons t ts)
  have g: "preserves K (case guard t of None \<Rightarrow> returnM True | Some g \<Rightarrow> g)"
    and a: "preserves K (case action t of None \<Rightarrow> returnM () | Some a \<Rightarrow> a)"
    using Cons.prems by (auto intro: preserves_returnM split: option.split)
  have ih: "carries K (exec_loop put (Some (\<lambda>_ _ _. returnM ())) trig err ts) I" for err
    by (rule Cons.IH) (use Cons.prems in auto)
  have "carries K (modifyM (put (to_state t))) I"
    by (rule carries_modifyM) (use Cons.prems(3) in simp)
  then have "carries K (thenM (modifyM (put (to_state t))) (thenM (returnM ()) (returnM Fsm_Success))) I"
    by (rule carries_then) (intro preserves_rules)
  then show ?case
    using ih g a assms(4) by (auto intro!: carries_bindM carries_thenM)
qed

lemma carries_execute:
  assumes "\<And>t g. t \<in> set ts \<Longrightarrow> guard t = Some g \<Longrightarrow> preserves (K (from_state t)) g"
    and "\<And>t a. t \<in> set ts \<Longrightarrow> action t = Some a \<Longrightarrow> preserves (K (from_state t)) a"
    and "\<And>t s. t \<in> set ts \<Longrightarrow> trigger t = trig \<Longrightarrow> K (from_state t) s \<Longrightarrow> I (put (to_state t) s)"
    and "\<And>st s. K st s \<Longrightarrow> I s" and "\<And>s. I s \<Longrightarrow> K (get s) s"
  shows "preserves I (execute get put (Some (\<lambda>_ _ _. returnM ())) (add_transitions Map.empty ts) trig)"
proof -
  have "carries (K st) (exec_loop put (Some (\<lambda>_ _ _. returnM ())) trig Fsm_NoMatchingTrigger
      (candidates ts st trig)) I" for st
    by (rule carries_exec_loop) (use assms in \<open>auto simp: candidates_def\<close>)
  then show ?thesis
    using assms(5) unfolding preserves_def carries_def execute_candidates by blast
qed

text \<open>The same, row by row: an action and the move that follows it are judged together.\<close>

lemma carries_exec_rows:
  assumes "\<And>t g. t \<in> set ts \<Longrightarrow> guard t = Some g \<Longrightarrow> preserves K g"
    and "\<And>t. t \<in> set ts \<Longrightarrow>
      carries K (thenM (case action t of None \<Rightarrow> returnM () | Some a \<Rightarrow> a) (modifyM (put (to_state t)))) I"
    and "\<And>s. K s \<Longrightarrow> I s"
  shows "carries K (exec_loop put (Some (\<lambda>_ _ _. returnM ())) trig err ts) I"
  using assms(1,2)
proof (induction ts arbitrary: err)
  case Nil
  then show ?case by (simp add: carries_returnM assms(3))
next
  case (Cons t ts)
  let ?a = "case action t of None \<Rightarrow> returnM () | Some a \<Rightarrow> a"
  have g: "preserves K (case guard t of None \<Rightarrow> returnM True | Some g \<Rightarrow> g)"
    using Cons.prems by (auto intro: preserves_returnM split: option.split)
  have ih: "carries K (exec_loop put (Some (\<lambda>_ _ _. returnM ())) trig err ts) I" for err
    by (rule Cons.IH) (use Cons.prems in auto)
  have a: "carries K (thenM ?a (modifyM (put (to_state t)))) I" by (rule Cons.prems) simp
  have "carries K (thenM ?a (thenM (modifyM (put (to_state t))) (thenM (returnM ()) (returnM Fsm_Success)))) I"
    using a by (auto simp: carries_def monad_simps split: prod.splits sum.splits)
  then show ?case
    using ih g assms(3) by (auto intro!: carries_bindM)
qed

lemma carries_execute_rows:
  assumes "\<And>t g. t \<in> set ts \<Longrightarrow> guard t = Some g \<Longrightarrow> preserves (\<lambda>s. K s \<and> get s = from_state t) g"
    and "\<And>t. t \<in> set ts \<Longrightarrow> trigger t = trig \<Longrightarrow> carries (\<lambda>s. K s \<and> get s = from_state t)
      (thenM (case action t of None \<Rightarrow> returnM () | Some a \<Rightarrow> a) (modifyM (put (to_state t)))) I"
    and "\<And>s. K s \<Longrightarrow> I s"
  shows "carries K (execute get put (Some (\<lambda>_ _ _. returnM ())) (add_transitions Map.empty ts) trig) I"
proof -
  have "carries (\<lambda>s. K s \<and> get s = st) (exec_loop put (Some (\<lambda>_ _ _. returnM ())) trig Fsm_NoMatchingTrigger
      (candidates ts st trig)) I" for st
    by (rule carries_exec_rows) (use assms in \<open>auto simp: candidates_def\<close>)
  then show ?thesis
    unfolding carries_def execute_candidates by blast
qed

section \<open>The interface a machine's owner relies on\<close>

text \<open>
  An owner supplies a table, the access to \<open>m_cs\<close> and a debug function that only logs. When
  the guards tried do not change the current state and always return, the result of \<open>execute\<close>
  is that of the first transition whose guard holds, as the header of \<open>fsm.h\<close> promises: one
  and only one action runs, and the state changes only on success.
\<close>

definition quiet :: "('s \<Rightarrow> 'st) \<Rightarrow> ('s, bool) M option \<Rightarrow> bool" where
  "quiet get g \<longleftrightarrow> (case g of None \<Rightarrow> True | Some f \<Rightarrow> \<forall>s. get (snd (f s)) = get s)"

locale fsm_owner =
  fixes get :: "'s \<Rightarrow> 'st"
    and put :: "'st \<Rightarrow> 's \<Rightarrow> 's"
    and dbg :: "('st \<Rightarrow> 'st \<Rightarrow> 'tr \<Rightarrow> ('s, unit) M) option"
    and table :: "('s, 'st, 'tr) trans list"
  assumes get_put: "get (put st s) = st"
    and dbg_logs: "dbg = Some f \<Longrightarrow> f a b tr s = (Inr (), s)"
    and guards_quiet: "t \<in> set table \<Longrightarrow> quiet get (guard t)"
begin

lemma debug_step: "(case dbg of None \<Rightarrow> returnM () | Some f \<Rightarrow> f a b t) s = (Inr (), s)"
  by (simp add: returnM_def dbg_logs split: option.split)

text \<open>One step of the loop, for each outcome of the guard.\<close>

lemma loop_guard_true:
  assumes "trigger t = trig" and "(case guard t of None \<Rightarrow> returnM True | Some g \<Rightarrow> g) s = (Inr True, s1)"
  shows "exec_loop put dbg trig err (t # ts) s =
    (case (case action t of None \<Rightarrow> returnM () | Some a \<Rightarrow> a) s1 of
       (Inl e, s2) \<Rightarrow> (Inl e, s2) | (Inr _, s2) \<Rightarrow> (Inr Fsm_Success, put (to_state t) s2))"
  using assms by (simp add: monad_simps debug_step split: prod.split sum.split)

lemma loop_guard_false:
  assumes "trigger t = trig" and "(case guard t of None \<Rightarrow> returnM True | Some g \<Rightarrow> g) s = (Inr False, s1)"
  shows "exec_loop put dbg trig err (t # ts) s = exec_loop put dbg trig Fsm_BlockedByGuard ts s1"
  using assms by (simp add: monad_simps)

lemma loop_guard_fails:
  assumes "trigger t = trig" and "(case guard t of None \<Rightarrow> returnM True | Some g \<Rightarrow> g) s = (Inl e, s1)"
  shows "exec_loop put dbg trig err (t # ts) s = (Inl e, s1)"
  using assms by (simp add: monad_simps)

lemma guard_keeps_state:
  "t \<in> set table \<Longrightarrow> get (snd ((case guard t of None \<Rightarrow> returnM True | Some g \<Rightarrow> g) s)) = get s"
  using guards_quiet [of t] by (simp add: quiet_def returnM_def split: option.splits)

text \<open>
  What a trigger can do: nothing, when no transition of the state has it; otherwise the state
  stays as it was unless the status is success, and then it is the target of one of the
  candidates.
\<close>

lemma loop_outcome:
  assumes "set ts \<subseteq> set table" and "\<forall>t \<in> set ts. trigger t = trig"
  shows "case exec_loop put dbg trig err ts s of
      (Inr Fsm_Success, s') \<Rightarrow> err = Fsm_Success \<or> (\<exists>t \<in> set ts. get s' = to_state t)
    | (Inr st, s') \<Rightarrow> get s' = get s \<and> (st = err \<or> st = Fsm_BlockedByGuard) \<and>
        (ts \<noteq> [] \<longrightarrow> st = Fsm_BlockedByGuard)
    | (Inl e, s') \<Rightarrow> True"
  using assms
proof (induction ts arbitrary: err s)
  case Nil
  then show ?case by (simp add: monad_simps split: fsm_status.split)
next
  case (Cons t ts)
  let ?g = "case guard t of None \<Rightarrow> returnM True | Some g \<Rightarrow> g"
  have tr: "trigger t = trig" using Cons.prems by simp
  obtain r s1 where g: "?g s = (r, s1)" by (cases "?g s")
  then have get1: "get s1 = get s"
    using guard_keeps_state [of t s] Cons.prems by simp
  show ?case
  proof (cases r)
    case (Inl e)
    then show ?thesis using loop_guard_fails [OF tr, of s e s1] g by simp
  next
    case (Inr b)
    show ?thesis
    proof (cases b)
      case True
      then have "exec_loop put dbg trig err (t # ts) s =
        (case (case action t of None \<Rightarrow> returnM () | Some a \<Rightarrow> a) s1 of
          (Inl e, s2) \<Rightarrow> (Inl e, s2) | (Inr _, s2) \<Rightarrow> (Inr Fsm_Success, put (to_state t) s2))"
        using g Inr by (intro loop_guard_true tr) simp
      then show ?thesis by (simp add: get_put split: prod.split sum.split)
    next
      case False
      then have "exec_loop put dbg trig err (t # ts) s = exec_loop put dbg trig Fsm_BlockedByGuard ts s1"
        using g Inr by (intro loop_guard_false tr) simp
      then show ?thesis
        using Cons.IH [of Fsm_BlockedByGuard s1] Cons.prems get1
        by (auto split: prod.splits sum.splits fsm_status.splits)
    qed
  qed
qed

lemma execute_outcome:
  "case execute get put dbg (add_transitions Map.empty table) trig s of
      (Inr Fsm_Success, s') \<Rightarrow> (\<exists>t \<in> set (candidates table (get s) trig). get s' = to_state t)
    | (Inr Fsm_NoMatchingTrigger, s') \<Rightarrow> candidates table (get s) trig = [] \<and> s' = s
    | (Inr Fsm_BlockedByGuard, s') \<Rightarrow> candidates table (get s) trig \<noteq> [] \<and> get s' = get s
    | (Inl e, s') \<Rightarrow> candidates table (get s) trig \<noteq> []"
proof (cases "candidates table (get s) trig = []")
  case True
  then show ?thesis by (simp add: execute_candidates monad_simps)
next
  case False
  have "set (candidates table (get s) trig) \<subseteq> set table"
    and "\<forall>t \<in> set (candidates table (get s) trig). trigger t = trig"
    by (auto simp: candidates_def)
  from loop_outcome [OF this, of Fsm_NoMatchingTrigger s] False show ?thesis
    by (auto simp: execute_candidates split: prod.splits sum.splits fsm_status.splits)
qed

text \<open>An action that fails without changing the current state leaves the machine where it was.\<close>

lemma loop_error:
  assumes act: "\<And>t a s e s'. t \<in> set table \<Longrightarrow> action t = Some a \<Longrightarrow> a s = (Inl e, s') \<Longrightarrow>
      get s' = get s"
  shows "set ts \<subseteq> set table \<Longrightarrow> \<forall>t \<in> set ts. trigger t = trig \<Longrightarrow>
    exec_loop put dbg trig err ts s = (Inl e, s') \<Longrightarrow> get s' = get s"
proof (induction ts arbitrary: err s)
  case Nil
  then show ?case by (simp add: monad_simps)
next
  case (Cons t ts)
  have tr: "trigger t = trig" and tt: "t \<in> set table" using Cons.prems by simp_all
  obtain r s1 where g: "(case guard t of None \<Rightarrow> returnM True | Some g \<Rightarrow> g) s = (r, s1)"
    by (cases "(case guard t of None \<Rightarrow> returnM True | Some g \<Rightarrow> g) s")
  then have get1: "get s1 = get s" using guard_keeps_state [OF tt, of s] by simp
  consider (fails) e' where "r = Inl e'" | (true) "r = Inr True" | (false) "r = Inr False"
    by (metis (full_types) sum.exhaust)
  then show ?case
  proof cases
    case fails
    then show ?thesis using loop_guard_fails [OF tr, of s e' s1] g get1 Cons.prems(3) by simp
  next
    case true
    then have "(case action t of None \<Rightarrow> returnM () | Some a \<Rightarrow> a) s1 = (Inl e, s')"
      using loop_guard_true [OF tr, of s s1] g Cons.prems(3) by (auto split: prod.splits sum.splits)
    then show ?thesis
      using act [OF tt] get1 by (auto simp: returnM_def split: option.splits)
  next
    case false
    then show ?thesis
      using loop_guard_false [OF tr, of s s1] g get1 Cons.prems Cons.IH by simp
  qed
qed

lemma execute_error:
  assumes "\<And>t a s e s'. t \<in> set table \<Longrightarrow> action t = Some a \<Longrightarrow> a s = (Inl e, s') \<Longrightarrow>
      get s' = get s"
    and "execute get put dbg (add_transitions Map.empty table) trig s = (Inl e, s')"
  shows "get s' = get s"
proof (rule loop_error)
  show "exec_loop put dbg trig Fsm_NoMatchingTrigger (candidates table (get s) trig) s = (Inl e, s')"
    using assms(2) by (simp add: execute_candidates)
qed (use assms(1) in \<open>auto simp: candidates_def\<close>)

end

section \<open>Which transition is taken\<close>

text \<open>A guard that only looks at the state, with its value.\<close>

definition guard_is :: "('s, 'st, 'tr) trans \<Rightarrow> 's \<Rightarrow> bool \<Rightarrow> bool" where
  "guard_is t s b \<longleftrightarrow> (case guard t of None \<Rightarrow> b | Some g \<Rightarrow> g s = (Inr b, s))"

lemma guard_is_run:
  "guard_is t s b \<Longrightarrow> (case guard t of None \<Rightarrow> returnM True | Some g \<Rightarrow> g) s = (Inr b, s)"
  by (simp add: guard_is_def returnM_def split: option.splits)

lemma loop_skip_blocked:
  assumes "\<forall>t \<in> set pre. trigger t = trig \<and> guard_is t s False"
  shows "exec_loop put dbg trig err (pre @ ts) s =
    exec_loop put dbg trig (if pre = [] then err else Fsm_BlockedByGuard) ts s"
  using assms by (induction pre arbitrary: err) (auto simp: monad_simps guard_is_run)

text \<open>
  C27: of the transitions a trigger has in the current state, the one taken is the first, in the
  order of the table, whose guard holds: its action runs on the state as it was, and only then
  does the current state change. A failing action leaves the current state alone.
\<close>

theorem execute_first_enabled:
  assumes "candidates ts (get s) trig = pre @ t # post"
    and "\<forall>x \<in> set pre. guard_is x s False" and "guard_is t s True"
  shows "execute get put None (add_transitions Map.empty ts) trig s =
    (case (case action t of None \<Rightarrow> returnM () | Some a \<Rightarrow> a) s of
       (Inl e, s') \<Rightarrow> (Inl e, s') | (Inr _, s') \<Rightarrow> (Inr Fsm_Success, put (to_state t) s'))"
proof -
  have all: "\<forall>x \<in> set (pre @ t # post). trigger x = trig"
    unfolding assms(1) [symmetric] by (simp add: candidates_def)
  have "execute get put None (add_transitions Map.empty ts) trig s =
      exec_loop put None trig Fsm_NoMatchingTrigger (pre @ t # post) s"
    by (simp add: execute_candidates assms(1))
  also have "\<dots> = exec_loop put None trig
      (if pre = [] then Fsm_NoMatchingTrigger else Fsm_BlockedByGuard) (t # post) s"
    by (rule loop_skip_blocked) (use all assms(2) in auto)
  finally show ?thesis
    using all guard_is_run [OF assms(3)] by (simp add: monad_simps split: prod.split sum.split)
qed

definition two_rows :: "(nat \<times> nat, nat, nat) trans list" where
  "two_rows = [
     \<lparr>from_state = 0, to_state = 1, trigger = 7, guard = Some (getsM (\<lambda>s. snd s = 5)), action = None\<rparr>,
     \<lparr>from_state = 0, to_state = 2, trigger = 7, guard = None,
      action = Some (modifyM (\<lambda>(c, x). (c, x + 1)))\<rparr>]"

theorem execute_first_enabled_witness:
  "execute fst (\<lambda>st s. (st, snd s)) None (add_transitions Map.empty two_rows) 7 (0, 3) =
     (Inr Fsm_Success, (2, 4))"
  using execute_first_enabled [of two_rows fst "(0, 3)" 7 "[two_rows ! 0]" "two_rows ! 1" "[]"
      "\<lambda>st s. (st, snd s)"]
  by (simp add: candidates_def two_rows_def guard_is_def monad_simps)

section \<open>The table without the map\<close>

text \<open>
  A reference for \<open>execute\<close>: one scan of the table as it is written, that skips the rows of other
  states and other triggers. \<open>m_cs\<close> is read once, before the first guard runs.
\<close>

primrec scan_table :: "('st \<Rightarrow> 's \<Rightarrow> 's) \<Rightarrow> ('st \<Rightarrow> 'st \<Rightarrow> 'tr \<Rightarrow> ('s, unit) M) option \<Rightarrow> 'st \<Rightarrow> 'tr \<Rightarrow>
    fsm_status \<Rightarrow> ('s, 'st, 'tr) trans list \<Rightarrow> ('s, fsm_status) M" where
  "scan_table put debug_fn st trig result [] = returnM result"
| "scan_table put debug_fn st trig result (t # ts) =
     (if from_state t = st \<and> trigger t = trig then
        bindM (case guard t of None \<Rightarrow> returnM True | Some g \<Rightarrow> g) (\<lambda>ok.
        if ok then
          thenM (case action t of None \<Rightarrow> returnM () | Some a \<Rightarrow> a)
         (thenM (modifyM (put (to_state t)))
         (thenM (case debug_fn of None \<Rightarrow> returnM () | Some f \<Rightarrow> f (from_state t) (to_state t) trig)
                (returnM Fsm_Success)))
        else scan_table put debug_fn st trig Fsm_BlockedByGuard ts)
      else scan_table put debug_fn st trig result ts)"

lemma scan_candidates:
  "scan_table put dbg st trig err ts = exec_loop put dbg trig err (candidates ts st trig)"
proof (induction ts arbitrary: err)
  case (Cons t ts)
  have swap: "(if \<not> ok then m else n) = (if ok then n else m)" for ok and m n :: "('s, fsm_status) M"
    by simp
  show ?case using Cons by (simp add: candidates_def swap cong: if_cong)
qed (simp add: candidates_def)

text \<open>
  C28: the lookup by state, the vectors of transitions and the loop of \<open>execute\<close> together do what one
  scan of the written table does, from every state, for every trigger and whatever the guards,
  actions and the debug function do.
\<close>

theorem execute_is_scan:
  "execute get put dbg (add_transitions Map.empty ts) trig s =
     scan_table put dbg (get s) trig Fsm_NoMatchingTrigger ts s"
  by (simp add: execute_candidates scan_candidates)

end
