(* ===== verification/Json.thy ===== *)
theory Json
  imports Prelude
begin

text \<open>
  The JSON values the program exchanges and stores, and the library that handles them.

  The library (nlohmann::json) is not part of the repository, so its operations are the fields
  of the record \<open>json_lib\<close>, an argument of every definition that calls them. What the code
  relies on is the predicate \<open>json_documented\<close>: the documented behaviour of \<open>contains\<close>,
  \<open>at\<close>, \<open>operator[]\<close>, \<open>emplace\<close>, \<open>get\<close> and \<open>type\<close>. \<open>nl_json\<close> is a concrete
  library with that behaviour, so that the hypothesis can be met and witnesses can compute.
\<close>

section \<open>Values\<close>

text \<open>
  \<open>json::value_t\<close> distinguishes signed and unsigned integers. A floating-point number is
  kept as its text: the code never computes with one.
\<close>

datatype json =
    JNull
  | JBool bool
  | JString string
  | JInteger int
  | JUnsigned nat
  | JFloat string
  | JArray "json list"
  | JObject "(string \<times> json) list"

datatype value_t =
    VNull | VBoolean | VString | VNumberInteger | VNumberUnsigned | VNumberFloat | VArray | VObject

section \<open>The library as a parameter\<close>

record json_lib =
  j_type :: "json \<Rightarrow> value_t"
  j_contains :: "json \<Rightarrow> string \<Rightarrow> bool"
  j_at :: "json \<Rightarrow> string \<Rightarrow> exn + json"
  j_index :: "json \<Rightarrow> nat \<Rightarrow> exn + json"
  j_put :: "json \<Rightarrow> string \<Rightarrow> json \<Rightarrow> exn + json"
  j_emplace :: "json \<Rightarrow> string \<Rightarrow> json \<Rightarrow> exn + json"
  j_push_back :: "json \<Rightarrow> json \<Rightarrow> exn + json"
  j_elems :: "json \<Rightarrow> json list"
  j_get_bool :: "json \<Rightarrow> exn + bool"
  j_get_string :: "json \<Rightarrow> exn + string"
  j_get_u32 :: "json \<Rightarrow> exn + 32 word"
  j_get_strings :: "json \<Rightarrow> exn + string list"
  j_get_strmap :: "json \<Rightarrow> exn + (string \<times> string) list"
  j_dump :: "json \<Rightarrow> exn + string"
  j_print :: "json \<Rightarrow> string \<times> exn option"
  j_parse :: "string \<Rightarrow> exn + json"

text \<open>
  \<open>j_print\<close> is \<open>operator<<\<close> on a stream: what it has handed to the stream, and the exception
  it ends with when the value has a string that is not UTF-8.
\<close>

text \<open>
  The documented behaviour the theorems use. \<open>j_put\<close> is the assignment
  \<open>j[key] = v\<close>, \<open>j_emplace\<close> inserts where the key is free.
\<close>

definition json_documented :: "json_lib \<Rightarrow> bool" where
  "json_documented J \<longleftrightarrow>
     (\<forall>kvs k. j_contains J (JObject kvs) k = (map_of kvs k \<noteq> None)) \<and>
     (\<forall>kvs k. j_at J (JObject kvs) k =
        (case map_of kvs k of Some v \<Rightarrow> Inr v | None \<Rightarrow> Inl (OutOfRange k))) \<and>
     (\<forall>kvs k v. \<exists>kvs'. j_put J (JObject kvs) k v = Inr (JObject kvs') \<and>
        map_of kvs' = (map_of kvs)(k \<mapsto> v)) \<and>
     (\<forall>kvs k v. \<exists>kvs'. j_emplace J (JObject kvs) k v = Inr (JObject kvs') \<and>
        map_of kvs' = map_insert (map_of kvs) k v) \<and>
     (\<forall>xs v. j_push_back J (JArray xs) v = Inr (JArray (xs @ [v]))) \<and>
     (\<forall>xs. j_elems J (JArray xs) = xs) \<and>
     (\<forall>xs i. j_index J (JArray xs) i =
        (if i < length xs then Inr (xs ! i) else Inl (OutOfRange ''array index''))) \<and>
     (\<forall>b. j_get_bool J (JBool b) = Inr b) \<and>
     (\<forall>s. j_get_string J (JString s) = Inr s) \<and>
     (\<forall>ss. j_get_strings J (JArray (map JString ss)) = Inr ss) \<and>
     (\<forall>n. j_get_u32 J (JUnsigned n) = Inr (word_of_nat n)) \<and>
     (\<forall>i. j_get_u32 J (JInteger i) = Inr (word_of_int i)) \<and>
     (\<forall>s. j_type J (JString s) = VString) \<and>
     (\<forall>b. j_type J (JBool b) = VBoolean) \<and>
     (\<forall>i. j_type J (JInteger i) = VNumberInteger) \<and>
     (\<forall>n. j_type J (JUnsigned n) = VNumberUnsigned) \<and>
     (\<forall>kvs. j_type J (JObject kvs) = VObject) \<and>
     (\<forall>k v. j_put J JNull k v = Inr (JObject [(k, v)]))"

text \<open>The laws one at a time, in the form the component proofs apply them.\<close>

lemma documented_contains:
  "json_documented J \<Longrightarrow> j_contains J (JObject kvs) k = (map_of kvs k \<noteq> None)"
  by (simp add: json_documented_def)

lemma documented_at:
  "json_documented J \<Longrightarrow>
   j_at J (JObject kvs) k = (case map_of kvs k of Some v \<Rightarrow> Inr v | None \<Rightarrow> Inl (OutOfRange k))"
  by (simp add: json_documented_def)

lemma documented_put:
  assumes "json_documented J"
  obtains kvs' where "j_put J (JObject kvs) k v = Inr (JObject kvs')"
    and "map_of kvs' = (map_of kvs)(k \<mapsto> v)"
proof -
  have "\<exists>kvs'. j_put J (JObject kvs) k v = Inr (JObject kvs') \<and>
      map_of kvs' = (map_of kvs)(k \<mapsto> v)"
    using assms by (simp add: json_documented_def)
  then show thesis using that by blast
qed

lemma documented_emplace:
  assumes "json_documented J"
  obtains kvs' where "j_emplace J (JObject kvs) k v = Inr (JObject kvs')"
    and "map_of kvs' = map_insert (map_of kvs) k v"
proof -
  have "\<exists>kvs'. j_emplace J (JObject kvs) k v = Inr (JObject kvs') \<and>
      map_of kvs' = map_insert (map_of kvs) k v"
    using assms by (simp add: json_documented_def)
  then show thesis using that by blast
qed

lemma documented_scalar:
  assumes "json_documented J"
  shows "j_get_bool J (JBool b) = Inr b" and "j_get_string J (JString s) = Inr s"
    and "j_get_u32 J (JUnsigned n) = Inr (word_of_nat n)"
    and "j_get_u32 J (JInteger i) = Inr (word_of_int i)"
    and "j_get_strings J (JArray (map JString ss)) = Inr ss"
  using assms by (simp_all add: json_documented_def)

lemma documented_type:
  assumes "json_documented J"
  shows "j_type J (JString s) = VString" and "j_type J (JBool b) = VBoolean"
    and "j_type J (JInteger i) = VNumberInteger" and "j_type J (JUnsigned n) = VNumberUnsigned"
    and "j_type J (JObject kvs) = VObject"
  using assms by (simp_all add: json_documented_def)

lemma documented_null: "json_documented J \<Longrightarrow> j_put J JNull k v = Inr (JObject [(k, v)])"
  by (simp add: json_documented_def)

lemma documented_array:
  assumes "json_documented J"
  shows "j_push_back J (JArray xs) v = Inr (JArray (xs @ [v]))"
    and "j_elems J (JArray xs) = xs"
    and "j_index J (JArray xs) i =
      (if i < length xs then Inr (xs ! i) else Inl (OutOfRange ''array index''))"
  using assms by (simp_all add: json_documented_def)

lemmas documented_rules =
  documented_contains documented_at documented_scalar documented_type documented_array

section \<open>A library that meets the documentation\<close>

fun nl_type :: "json \<Rightarrow> value_t" where
  "nl_type JNull = VNull"
| "nl_type (JBool _) = VBoolean"
| "nl_type (JString _) = VString"
| "nl_type (JInteger _) = VNumberInteger"
| "nl_type (JUnsigned _) = VNumberUnsigned"
| "nl_type (JFloat _) = VNumberFloat"
| "nl_type (JArray _) = VArray"
| "nl_type (JObject _) = VObject"

fun nl_contains :: "json \<Rightarrow> string \<Rightarrow> bool" where
  "nl_contains (JObject kvs) k = (map_of kvs k \<noteq> None)"
| "nl_contains _ k = False"

fun nl_at :: "json \<Rightarrow> string \<Rightarrow> exn + json" where
  "nl_at (JObject kvs) k = (case map_of kvs k of Some v \<Rightarrow> Inr v | None \<Rightarrow> Inl (OutOfRange k))"
| "nl_at _ k = Inl JsonTypeError"

fun nl_index :: "json \<Rightarrow> nat \<Rightarrow> exn + json" where
  "nl_index (JArray xs) i =
     (if i < length xs then Inr (xs ! i) else Inl (OutOfRange ''array index''))"
| "nl_index _ i = Inl JsonTypeError"

fun nl_put :: "json \<Rightarrow> string \<Rightarrow> json \<Rightarrow> exn + json" where
  "nl_put (JObject kvs) k v = Inr (JObject (AList.update k v kvs))"
| "nl_put JNull k v = Inr (JObject [(k, v)])"
| "nl_put _ k v = Inl JsonTypeError"

fun nl_emplace :: "json \<Rightarrow> string \<Rightarrow> json \<Rightarrow> exn + json" where
  "nl_emplace (JObject kvs) k v = Inr (JObject (alist_insert k v kvs))"
| "nl_emplace JNull k v = Inr (JObject [(k, v)])"
| "nl_emplace _ k v = Inl JsonTypeError"

fun nl_push_back :: "json \<Rightarrow> json \<Rightarrow> exn + json" where
  "nl_push_back (JArray xs) v = Inr (JArray (xs @ [v]))"
| "nl_push_back JNull v = Inr (JArray [v])"
| "nl_push_back _ v = Inl JsonTypeError"

fun nl_elems :: "json \<Rightarrow> json list" where
  "nl_elems (JArray xs) = xs"
| "nl_elems (JObject kvs) = map snd kvs"
| "nl_elems JNull = []"
| "nl_elems v = [v]"

fun nl_get_bool :: "json \<Rightarrow> exn + bool" where
  "nl_get_bool (JBool b) = Inr b"
| "nl_get_bool _ = Inl JsonTypeError"

fun nl_get_string :: "json \<Rightarrow> exn + string" where
  "nl_get_string (JString s) = Inr s"
| "nl_get_string _ = Inl JsonTypeError"

fun nl_get_u32 :: "json \<Rightarrow> exn + 32 word" where
  "nl_get_u32 (JUnsigned n) = Inr (word_of_nat n)"
| "nl_get_u32 (JInteger i) = Inr (word_of_int i)"
| "nl_get_u32 (JBool b) = Inr (if b then 1 else 0)"
| "nl_get_u32 _ = Inl JsonTypeError"

primrec nl_strings :: "json list \<Rightarrow> exn + string list" where
  "nl_strings [] = Inr []"
| "nl_strings (v # vs) = (case nl_get_string v of Inl e \<Rightarrow> Inl e | Inr s \<Rightarrow>
     (case nl_strings vs of Inl e \<Rightarrow> Inl e | Inr ss \<Rightarrow> Inr (s # ss)))"

fun nl_get_strings :: "json \<Rightarrow> exn + string list" where
  "nl_get_strings (JArray xs) = nl_strings xs"
| "nl_get_strings _ = Inl JsonTypeError"

fun nl_get_strmap :: "json \<Rightarrow> exn + (string \<times> string) list" where
  "nl_get_strmap (JObject kvs) = (case nl_strings (map snd kvs) of
     Inl e \<Rightarrow> Inl e | Inr ss \<Rightarrow> Inr (zip (map fst kvs) ss))"
| "nl_get_strmap _ = Inl JsonTypeError"

definition nl_json :: json_lib where
  "nl_json = \<lparr> j_type = nl_type, j_contains = nl_contains, j_at = nl_at, j_index = nl_index,
     j_put = nl_put, j_emplace = nl_emplace, j_push_back = nl_push_back, j_elems = nl_elems, j_get_bool = nl_get_bool,
     j_get_string = nl_get_string, j_get_u32 = nl_get_u32, j_get_strings = nl_get_strings,
     j_get_strmap = nl_get_strmap, j_dump = (\<lambda>_. Inr []),
     j_print = (\<lambda>_. ([], None)), j_parse = (\<lambda>_. Inl JsonParseError) \<rparr>"

lemma nl_strings_map: "nl_strings (map JString ss) = Inr ss"
  by (induction ss) auto

lemma nl_json_documented: "json_documented nl_json"
  by (auto simp: nl_strings_map json_documented_def nl_json_def update_conv' map_of_alist_insert)

lemma nl_json_print [simp]: "j_print nl_json j = ([], None)"
  by (simp add: nl_json_def)

lemma nl_json_simps:
  "j_type nl_json = nl_type" "j_contains nl_json = nl_contains" "j_at nl_json = nl_at"
  "j_index nl_json = nl_index" "j_put nl_json = nl_put" "j_emplace nl_json = nl_emplace"
  "j_push_back nl_json = nl_push_back" "j_elems nl_json = nl_elems" "j_get_bool nl_json = nl_get_bool"
  "j_get_string nl_json = nl_get_string" "j_get_u32 nl_json = nl_get_u32"
  "j_get_strings nl_json = nl_get_strings" "j_get_strmap nl_json = nl_get_strmap"
  by (simp_all add: nl_json_def)

end
