(* ===== verification/Platform.thy ===== *)
theory Platform
  imports Json
begin

text \<open>
  The operating system as the program sees it.

  The kernel and the C library's account database are not part of the repository. Each call the
  code makes is a value of \<open>syscall\<close>; the state keeps the calls made so far, latest first, in
  \<open>trace\<close>; the record \<open>platform\<close> answers a call as a function of that history. A
  \<open>platform\<close> is thus an arbitrary behaviour of the environment, and a theorem for every
  \<open>platform\<close> holds whatever the kernel answers. The record also carries the JSON library
  and the compile-time options. The status macros of \<open><sys/wait.h>\<close>, the error numbers and
  the signal numbers are those of Linux.
\<close>

section \<open>Calls\<close>

datatype epoll_payload = PayU32 int | PayFd int

datatype exec_error_code =
    ExecSuccess | CreateSessionFailed | SetWorkingDirectoryFailed | SetRootDirectoryFailed
  | SetPriorityFailed | InitGroupsFailed | SetGroupIdFailed | SetLoginFailed | SetUserIdFailed
  | OpenFailed | ReadFailed | CloseFailed | Dup2Failed | MemoryAllocationFailed | ExecFailed
  | ForkHandlerFailed

datatype error_context =
  ChildProcess | RedirectStdin | RedirectStdout | RedirectStderr | ParentProcess

record exec_status =
  errorCode :: exec_error_code
  savedErrno :: int
  errorContext :: error_context

text \<open>Accounts and environment; processes; the set-up of a child; events; sockets; files.\<close>

datatype acct_call =
    SysGetuid | SysGetgid | SysGetpid | SysGetenv string
  | SysGetgrnam string | SysGetgrgid int | SysGetpwnam string | SysGetpwuid int

datatype proc_call =
    SysPipe | SysFcntlCloexec int | SysClose int | SysReadStatus int
  | SysFork | SysGetpgid int | SysKill int int | SysKillpg int int
  | SysWaitpid int | SysWaitpidNohang int | SysClock
  | SysSetSubreaper | SysSystem string

datatype child_call =
    SysUmask int | SysSetsid | SysSetpriority int | SysChdir string | SysChroot string
  | SysInitgroups string int | SysSetgid int | SysSetlogin string | SysSetuid int
  | SysOpen string int int | SysDup2 int int | SysCalloc nat
  | SysExecve string "string list" "string list"
  | SysWriteStatus int exec_status

datatype event_call =
    SysEpollCreate | SysEpollAdd int int epoll_payload | SysEpollDel int int
  | SysEpollWait int int
  | SysSignalfd int "int set" | SysBlock int | SysUnblock "int set"
  | SysReadSiginfo int | SysReadTimer int
  | SysTimerfdCreate | SysTimerfdSettime int int int

text \<open>
  \<open>SysKevent\<close> changes one entry of a kqueue: its descriptor, then \<open>ident\<close>, \<open>filter\<close>, \<open>flags\<close>, \<open>fflags\<close>
  and \<open>data\<close>. \<open>SysKeventWait\<close> waits for one event, for seconds and nanoseconds.
\<close>

datatype kqueue_call =
    SysKqueue | SysKevent int int int int int "64 word"
  | SysKeventWait int "(int \<times> int) option" | SysSignalIgnore int | SysSignalDefault int

record kevent =
  kev_ident :: "64 word"
  kev_filter :: int
  kev_data :: "64 word"

datatype socket_call =
    SysSocket | SysBind int string | SysListen int int | SysAccept int
  | SysConnect int string | SysRead int | SysWrite int string

datatype file_call =
    SysExists string | SysIsDirectory string | SysReaddir string | SysReadFile string
  | SysCreateDirectories string | SysCreate string | SysWriteFile string string
  | SysRename string string | SysRemove string | SysUnlink string | SysCanonical string

datatype syscall =
    Acct acct_call | Proc proc_call | Child child_call | Evt event_call | Kq kqueue_call
  | Sock socket_call | File file_call

record passwd =
  pw_name :: string
  pw_uid :: int
  pw_gid :: int
  pw_dir :: string
  pw_shell :: string

text \<open>
  The answers. Most calls return an integer and, on failure, an \<open>errno\<close>: \<open>sys_int\<close>.
\<close>

text \<open>What the XML library finds in a file: the nodes of a document and of each element, in order.\<close>

datatype xml_node = XmlElement string "xml_node list" | XmlText string | XmlComment | XmlOther

record platform =
  sys_int :: "syscall list \<Rightarrow> syscall \<Rightarrow> int \<times> int"
  sys_getenv :: "syscall list \<Rightarrow> string \<Rightarrow> string option"
  sys_passwd :: "syscall list \<Rightarrow> syscall \<Rightarrow> passwd option"
  sys_group :: "syscall list \<Rightarrow> syscall \<Rightarrow> int option"
  sys_pipe_fds :: "syscall list \<Rightarrow> int \<times> int"
  sys_status :: "syscall list \<Rightarrow> int \<Rightarrow> exec_status"
  sys_wait_status :: "syscall list \<Rightarrow> int"
  sys_epoll_event :: "syscall list \<Rightarrow> int \<Rightarrow> epoll_payload"
  sys_kevent :: "syscall list \<Rightarrow> int \<Rightarrow> kevent"
  sys_siginfo :: "syscall list \<Rightarrow> int \<Rightarrow> int"
  sys_read_data :: "syscall list \<Rightarrow> int \<Rightarrow> string"
  sys_readdir :: "syscall list \<Rightarrow> string \<Rightarrow> string list"
  sys_file_json :: "syscall list \<Rightarrow> string \<Rightarrow> exn + json"
  sys_file_xml :: "syscall list \<Rightarrow> string \<Rightarrow> xml_node list option"
  sys_canonical :: "syscall list \<Rightarrow> string \<Rightarrow> string"
  sys_strerror :: "int \<Rightarrow> string"
  jlib :: json_lib
  ndebug :: bool
  have_setlogin :: bool
  xml_support :: bool
  loop_bound :: nat

section \<open>Making a call\<close>

record os_state =
  trace :: "syscall list"

definition sysM :: "syscall \<Rightarrow> (syscall list \<Rightarrow> 'r) \<Rightarrow> ('a os_state_scheme, 'r) M" where
  "sysM c f = (\<lambda>s. (Inr (f (trace s)), s\<lparr>trace := c # trace s\<rparr>))"

definition callM :: "platform \<Rightarrow> syscall \<Rightarrow> ('a os_state_scheme, int \<times> int) M" where
  "callM pf c = sysM c (\<lambda>h. sys_int pf h c)"

lemma sysM_apply [monad_simps]: "sysM c f s = (Inr (f (trace s)), s\<lparr>trace := c # trace s\<rparr>)"
  by (simp add: sysM_def)

lemma callM_apply [monad_simps]:
  "callM pf c s = (Inr (sys_int pf (trace s) c), s\<lparr>trace := c # trace s\<rparr>)"
  by (simp add: callM_def sysM_def)

lemma preserves_sysM [preserves_rules]:
  "(\<And>s. I s \<Longrightarrow> I (s\<lparr>trace := c # trace s\<rparr>)) \<Longrightarrow> preserves I (sysM c f)"
  by (simp add: preserves_def sysM_def)

lemma preserves_callM [preserves_rules]:
  "(\<And>s. I s \<Longrightarrow> I (s\<lparr>trace := c # trace s\<rparr>)) \<Longrightarrow> preserves I (callM pf c)"
  by (simp add: callM_def preserves_sysM)

lemma fails_in_sysM [fails_rules]: "fails_in E (sysM c f)"
  by (simp add: fails_in_def sysM_def)

lemma fails_in_callM [fails_rules]: "fails_in E (callM pf c)"
  by (simp add: callM_def fails_in_sysM)

text \<open>
  \<open>assert\<close> is compiled out when \<open>NDEBUG\<close> is set, as in the release build.
\<close>

definition c_assert :: "platform \<Rightarrow> bool \<Rightarrow> string \<Rightarrow> ('s, unit) M" where
  "c_assert pf b msg = assertM (b \<or> ndebug pf) msg"

lemma c_assert_apply [monad_simps]:
  "c_assert pf b msg s = (if b \<or> ndebug pf then (Inr (), s) else (Inl (Abort msg), s))"
  by (simp add: c_assert_def assertM_apply)

lemma preserves_c_assert [preserves_rules]: "preserves I (c_assert pf b msg)"
  by (simp add: c_assert_def preserves_assertM)

lemma fails_in_c_assert [fails_rules]:
  "(\<not> b \<Longrightarrow> \<not> ndebug pf \<Longrightarrow> Abort msg \<in> E) \<Longrightarrow> fails_in E (c_assert pf b msg)"
  by (auto simp: fails_in_def c_assert_apply)

definition current_time :: "platform \<Rightarrow> ('a os_state_scheme, int) M" where
  "current_time pf =
     bindM (callM pf (Proc SysClock)) (\<lambda>(now, _).
     if now < 0 then failM (Abort ''abort()'') else returnM now)"

lemma preserves_current_time [preserves_rules]:
  "(\<And>s. I s \<Longrightarrow> I (s\<lparr>trace := Proc SysClock # trace s\<rparr>)) \<Longrightarrow> preserves I (current_time pf)"
  unfolding current_time_def by (auto intro!: preserves_rules)

lemma fails_in_current_time [fails_rules]: "Abort ''abort()'' \<in> E \<Longrightarrow> fails_in E (current_time pf)"
  unfolding current_time_def by (auto intro!: fails_rules)

section \<open>Error numbers, signal numbers and wait statuses\<close>

definition EPERM :: int where "EPERM = 1"
definition ENOENT :: int where "ENOENT = 2"
definition ESRCH :: int where "ESRCH = 3"
definition EINTR :: int where "EINTR = 4"
definition ECHILD :: int where "ECHILD = 10"
definition EAGAIN :: int where "EAGAIN = 11"
definition EADDRINUSE :: int where "EADDRINUSE = 98"

lemmas errno_defs = EPERM_def ENOENT_def ESRCH_def EINTR_def ECHILD_def EAGAIN_def EADDRINUSE_def

definition SIGINT :: int where "SIGINT = 2"
definition SIGKILL :: int where "SIGKILL = 9"
definition SIGUSR1 :: int where "SIGUSR1 = 10"
definition SIGUSR2 :: int where "SIGUSR2 = 12"
definition SIGPIPE :: int where "SIGPIPE = 13"
definition SIGTERM :: int where "SIGTERM = 15"
definition SIGCHLD :: int where "SIGCHLD = 17"

lemmas signum_defs =
  SIGINT_def SIGKILL_def SIGUSR1_def SIGUSR2_def SIGPIPE_def SIGTERM_def SIGCHLD_def

definition WTERMSIG :: "int \<Rightarrow> int" where "WTERMSIG status = status mod 128"
definition WIFEXITED :: "int \<Rightarrow> bool" where "WIFEXITED status \<longleftrightarrow> WTERMSIG status = 0"
definition WEXITSTATUS :: "int \<Rightarrow> int" where "WEXITSTATUS status = (status div 256) mod 256"
definition WIFSTOPPED :: "int \<Rightarrow> bool" where "WIFSTOPPED status \<longleftrightarrow> status mod 256 = 127"
definition WSTOPSIG :: "int \<Rightarrow> int" where "WSTOPSIG status = WEXITSTATUS status"
definition WIFSIGNALED :: "int \<Rightarrow> bool" where
  "WIFSIGNALED status \<longleftrightarrow> WTERMSIG status \<noteq> 0 \<and> WTERMSIG status \<noteq> 127"

lemmas wait_status_defs =
  WTERMSIG_def WIFEXITED_def WEXITSTATUS_def WIFSTOPPED_def WSTOPSIG_def WIFSIGNALED_def

lemma WIFSTOPPED_WTERMSIG: "WIFSTOPPED st \<Longrightarrow> WTERMSIG st = 127"
proof -
  assume "WIFSTOPPED st"
  moreover have "st mod 128 = (st mod 256) mod 128" by (simp add: mod_mod_cancel)
  ultimately show ?thesis by (simp add: wait_status_defs)
qed

lemma wait_status_exclusive:
  shows "WIFEXITED st \<Longrightarrow> \<not> WIFSIGNALED st" and "WIFEXITED st \<Longrightarrow> \<not> WIFSTOPPED st"
    and "WIFSIGNALED st \<Longrightarrow> \<not> WIFSTOPPED st"
  using WIFSTOPPED_WTERMSIG [of st] by (auto simp: WIFEXITED_def WIFSIGNALED_def)

section \<open>An environment for concrete runs\<close>

text \<open>Every call returns 0. Witnesses update the answers they need.\<close>

definition null_platform :: platform where
  "null_platform = \<lparr> sys_int = (\<lambda>_ _. (0, 0)), sys_getenv = (\<lambda>_ _. None),
     sys_passwd = (\<lambda>_ _. None), sys_group = (\<lambda>_ _. None), sys_pipe_fds = (\<lambda>_. (3, 4)),
     sys_status = (\<lambda>_ _. \<lparr>errorCode = ExecSuccess, savedErrno = 0, errorContext = ChildProcess\<rparr>),
     sys_wait_status = (\<lambda>_. 0), sys_epoll_event = (\<lambda>_ _. PayU32 0),
     sys_kevent = (\<lambda>_ _. \<lparr>kev_ident = 0, kev_filter = 0, kev_data = 0\<rparr>), sys_siginfo = (\<lambda>_ _. 0),
     sys_read_data = (\<lambda>_ _. []), sys_readdir = (\<lambda>_ _. []),
     sys_file_json = (\<lambda>_ _. Inl JsonParseError), sys_file_xml = (\<lambda>_ _. None), sys_canonical = (\<lambda>_ p. p), sys_strerror = (\<lambda>_. []),
     jlib = nl_json, ndebug = False, have_setlogin = False, xml_support = False, loop_bound = 10 \<rparr>"

lemma null_platform_jlib [simp]: "jlib null_platform = nl_json"
  by (simp add: null_platform_def)

definition init_os :: os_state where
  "init_os = \<lparr>trace = []\<rparr>"

end
