(* ===== verification/JsonText.thy ===== *)
theory JsonText
  imports Text Json
begin

text \<open>
  JSON documents as text: what the program relies on when it stores a value with \<open>operator<<\<close>
  or \<open>dump\<close> and reads it back with \<open>json::parse\<close>.

  The library is not part of the repository. \<open>stored_as\<close> says how a value comes back: a
  non-negative number of the signed type is read as one of the unsigned type, and an object keeps
  its keys and not their order. \<open>json_text_documented\<close> is the round trip for the values
  that have one: strings of ASCII bytes, integers of 64 bits, and no floating-point number (NaN and
  infinities are written as \<open>null\<close>). \<open>text_json\<close> is a printer and a parser of the compact
  syntax that meet it, so that the hypothesis can hold and witnesses compute.
\<close>

section \<open>Values that survive being stored\<close>

definition ascii :: "string \<Rightarrow> bool" where
  "ascii s \<longleftrightarrow> (\<forall>c \<in> set s. char_code c < 128)"

fun storable :: "json \<Rightarrow> bool" where
  "storable JNull = True"
| "storable (JBool b) = True"
| "storable (JString s) = ascii s"
| "storable (JInteger i) = (- (2 ^ 63) \<le> i \<and> i < 2 ^ 63)"
| "storable (JUnsigned n) = (n < 2 ^ 64)"
| "storable (JFloat s) = False"
| "storable (JArray xs) = (\<forall>x \<in> set xs. storable x)"
| "storable (JObject kvs) = (distinct (map fst kvs) \<and> (\<forall>(k, v) \<in> set kvs. ascii k \<and> storable v))"

inductive stored_as :: "json \<Rightarrow> json \<Rightarrow> bool" where
  null: "stored_as JNull JNull"
| bool: "stored_as (JBool b) (JBool b)"
| str: "stored_as (JString s) (JString s)"
| negative: "i < 0 \<Longrightarrow> stored_as (JInteger i) (JInteger i)"
| signed: "0 \<le> i \<Longrightarrow> stored_as (JInteger i) (JUnsigned (nat i))"
| unsigned: "stored_as (JUnsigned n) (JUnsigned n)"
| array: "list_all2 stored_as xs ys \<Longrightarrow> stored_as (JArray xs) (JArray ys)"
| object: "dom (map_of kvs) = dom (map_of kvs') \<Longrightarrow>
    (\<And>k v v'. map_of kvs k = Some v \<Longrightarrow> map_of kvs' k = Some v' \<Longrightarrow> stored_as v v') \<Longrightarrow>
    stored_as (JObject kvs) (JObject kvs')"

inductive_cases stored_as_objectE: "stored_as (JObject kvs) j"
inductive_cases stored_as_boolE: "stored_as (JBool b) j"

definition json_text_documented :: "json_lib \<Rightarrow> bool" where
  "json_text_documented J \<longleftrightarrow>
     (\<forall>j. storable j \<longrightarrow> (\<exists>t j'. j_dump J j = Inr t \<and> j_print J j = (t, None) \<and>
        j_parse J t = Inr j' \<and> stored_as j j'))"

lemma stored_as_lookup:
  assumes "stored_as (JObject kvs) j"
  obtains kvs' where "j = JObject kvs'" and "\<And>k. map_of kvs k = None \<Longrightarrow> map_of kvs' k = None"
    and "\<And>k v. map_of kvs k = Some v \<Longrightarrow> \<exists>v'. map_of kvs' k = Some v' \<and> stored_as v v'"
proof -
  obtain kvs' where j: "j = JObject kvs'" and dom: "dom (map_of kvs) = dom (map_of kvs')"
    and vals: "\<And>k v v'. map_of kvs k = Some v \<Longrightarrow> map_of kvs' k = Some v' \<Longrightarrow> stored_as v v'"
    using assms by (rule stored_as_objectE) blast
  show thesis
  proof (rule that [OF j])
    show "map_of kvs' k = None" if "map_of kvs k = None" for k
      using that dom by (metis domIff)
    show "\<exists>v'. map_of kvs' k = Some v' \<and> stored_as v v'" if "map_of kvs k = Some v" for k v
      using that dom vals by (metis domD domI)
  qed
qed

section \<open>A printer\<close>

definition hex_digit :: "nat \<Rightarrow> char" where
  "hex_digit d = (if d < 10 then char_of (48 + d) else char_of (87 + d))"

text \<open>The escapes of a string: the named ones, and four hexadecimal digits below the space.\<close>

definition escape_char :: "char \<Rightarrow> string" where
  "escape_char c =
     (let n = char_code c in
      if n = 34 then [CHR 0x5C, CHR 0x22]
      else if n = 92 then [CHR 0x5C, CHR 0x5C]
      else if n = 8 then [CHR 0x5C, CHR ''b'']
      else if n = 12 then [CHR 0x5C, CHR ''f'']
      else if n = 10 then [CHR 0x5C, CHR ''n'']
      else if n = 13 then [CHR 0x5C, CHR ''r'']
      else if n = 9 then [CHR 0x5C, CHR ''t'']
      else if n < 32 then [CHR 0x5C, CHR ''u'', CHR ''0'', CHR ''0'', hex_digit (n div 16), hex_digit (n mod 16)]
      else [c])"

definition print_string :: "string \<Rightarrow> string" where
  "print_string s = CHR 0x22 # concat (map escape_char s) @ [CHR 0x22]"

fun print_json :: "json \<Rightarrow> string"
  and print_elems :: "json list \<Rightarrow> string"
  and print_members :: "(string \<times> json) list \<Rightarrow> string" where
  "print_json JNull = ''null''"
| "print_json (JBool b) = (if b then ''true'' else ''false'')"
| "print_json (JString s) = print_string s"
| "print_json (JInteger i) = to_string i"
| "print_json (JUnsigned n) = show_base 10 n"
| "print_json (JFloat s) = s"
| "print_json (JArray xs) = CHR ''['' # print_elems xs"
| "print_json (JObject kvs) = CHR ''{'' # print_members kvs"
| "print_elems [] = '']''"
| "print_elems [x] = print_json x @ '']''"
| "print_elems (x # y # xs) = print_json x @ CHR '','' # print_elems (y # xs)"
| "print_members [] = ''}''"
| "print_members [kv] = print_string (fst kv) @ CHR '':'' # print_json (snd kv) @ ''}''"
| "print_members (kv # y # kvs) =
     print_string (fst kv) @ CHR '':'' # print_json (snd kv) @ CHR '','' # print_members (y # kvs)"

section \<open>A parser\<close>

definition hex_value :: "char \<Rightarrow> nat option" where
  "hex_value c =
     (let n = char_code c in
      if 48 \<le> n \<and> n < 58 then Some (n - 48)
      else if 97 \<le> n \<and> n < 103 then Some (n - 87)
      else if 65 \<le> n \<and> n < 71 then Some (n - 55) else None)"

text \<open>The character after a backslash; only code points of one byte are read.\<close>

definition unescape :: "string \<Rightarrow> (char \<times> string) option" where
  "unescape s =
     (case s of
        [] \<Rightarrow> None
      | c # cs \<Rightarrow>
          if c = CHR 0x22 \<or> c = CHR 0x5C \<or> c = CHR ''/'' then Some (c, cs)
          else if c = CHR ''b'' then Some (char_of (8 :: nat), cs)
          else if c = CHR ''f'' then Some (char_of (12 :: nat), cs)
          else if c = CHR ''n'' then Some (char_of (10 :: nat), cs)
          else if c = CHR ''r'' then Some (char_of (13 :: nat), cs)
          else if c = CHR ''t'' then Some (char_of (9 :: nat), cs)
          else if c = CHR ''u'' then
            (case map hex_value (take 4 cs) of
               [Some a, Some b, Some d, Some e] \<Rightarrow>
                 if a = 0 \<and> b = 0 \<and> d < 8 then Some (char_of (16 * d + e), drop 4 cs) else None
             | _ \<Rightarrow> None)
          else None)"

fun parse_chars :: "nat \<Rightarrow> string \<Rightarrow> (string \<times> string) option" where
  "parse_chars 0 s = None"
| "parse_chars (Suc n) [] = None"
| "parse_chars (Suc n) (c # cs) =
     (if c = CHR 0x22 then Some ([], cs)
      else if c = CHR 0x5C then
        (case unescape cs of None \<Rightarrow> None
         | Some (d, cs') \<Rightarrow> map_option (apfst ((#) d)) (parse_chars n cs'))
      else if char_code c < 32 then None
      else map_option (apfst ((#) c)) (parse_chars n cs))"

definition parse_string :: "string \<Rightarrow> (string \<times> string) option" where
  "parse_string s =
     (case s of [] \<Rightarrow> None | c # cs \<Rightarrow> if c = CHR 0x22 then parse_chars (Suc (length cs)) cs else None)"

definition is_digit :: "char \<Rightarrow> bool" where
  "is_digit c \<longleftrightarrow> digit_value 10 c \<noteq> None"

definition parse_number :: "string \<Rightarrow> (json \<times> string) option" where
  "parse_number s =
     (case s of [] \<Rightarrow> None
      | c # cs \<Rightarrow>
          if c = CHR ''-'' then
            map_option (\<lambda>n. (JInteger (- int n), dropWhile is_digit cs)) (scan_nat 10 (takeWhile is_digit cs))
          else map_option (\<lambda>n. (JUnsigned n, dropWhile is_digit s)) (scan_nat 10 (takeWhile is_digit s)))"

definition expect :: "string \<Rightarrow> 'a \<Rightarrow> string \<Rightarrow> ('a \<times> string) option" where
  "expect w x s = (if has_prefix w s then Some (x, drop (length w) s) else None)"

fun parse_value :: "nat \<Rightarrow> string \<Rightarrow> (json \<times> string) option"
  and parse_elems :: "nat \<Rightarrow> string \<Rightarrow> (json list \<times> string) option"
  and parse_members :: "nat \<Rightarrow> string \<Rightarrow> ((string \<times> json) list \<times> string) option" where
  "parse_value 0 s = None"
| "parse_value (Suc n) [] = None"
| "parse_value (Suc n) (c # cs) =
     (if c = CHR ''n'' then expect ''null'' JNull (c # cs)
      else if c = CHR ''t'' then expect ''true'' (JBool True) (c # cs)
      else if c = CHR ''f'' then expect ''false'' (JBool False) (c # cs)
      else if c = CHR 0x22 then map_option (apfst JString) (parse_string (c # cs))
      else if c = CHR ''['' then
        (if has_prefix '']'' cs then Some (JArray [], drop 1 cs)
         else map_option (apfst JArray) (parse_elems n cs))
      else if c = CHR ''{'' then
        (if has_prefix ''}'' cs then Some (JObject [], drop 1 cs)
         else map_option (apfst JObject) (parse_members n cs))
      else parse_number (c # cs))"
| "parse_elems 0 s = None"
| "parse_elems (Suc n) s =
     (case parse_value n s of
        Some (v, c # cs) \<Rightarrow>
          if c = CHR '','' then map_option (apfst ((#) v)) (parse_elems n cs)
          else if c = CHR '']'' then Some ([v], cs) else None
      | _ \<Rightarrow> None)"
| "parse_members 0 s = None"
| "parse_members (Suc n) s =
     (case parse_string s of
        Some (k, d # ds) \<Rightarrow>
          if d = CHR '':'' then
            (case parse_value n ds of
               Some (v, c # cs) \<Rightarrow>
                 if c = CHR '','' then map_option (apfst ((#) (k, v))) (parse_members n cs)
                 else if c = CHR ''}'' then Some ([(k, v)], cs) else None
             | _ \<Rightarrow> None)
          else None
      | _ \<Rightarrow> None)"

definition parse_json :: "string \<Rightarrow> exn + json" where
  "parse_json s =
     (case parse_value (2 * length s) s of
        Some (v, []) \<Rightarrow> Inr v
      | _ \<Rightarrow> Inl JsonParseError)"


section \<open>The round trip\<close>

text \<open>What a value is read back as: the numbers of the signed type that are not negative change type.\<close>

fun norm_json :: "json \<Rightarrow> json" where
  "norm_json (JInteger i) = (if 0 \<le> i then JUnsigned (nat i) else JInteger i)"
| "norm_json (JArray xs) = JArray (map norm_json xs)"
| "norm_json (JObject kvs) = JObject (map (map_prod id norm_json) kvs)"
| "norm_json j = j"

lemma map_of_norm: "map_of (map (map_prod id f) kvs) k = map_option f (map_of kvs k)"
  by (induction kvs) auto

lemma stored_as_norm: "storable j \<Longrightarrow> stored_as j (norm_json j)"
proof (induction j)
  case (JArray xs)
  then show ?case
    by (auto intro!: stored_as.array simp: list_all2_conv_all_nth)
next
  case (JObject kvs)
  have "stored_as v (norm_json v)" if "map_of kvs k = Some v" for k v
  proof -
    have "(k, v) \<in> set kvs" using that by (rule map_of_SomeD)
    then show ?thesis using JObject.IH [of "(k, v)" v] JObject.prems by auto
  qed
  then show ?case
    by (auto intro!: stored_as.object simp: map_of_norm dom_def)
qed (auto intro: stored_as.intros)

subsection \<open>Strings\<close>

lemma hex_digit_value: "d < 16 \<Longrightarrow> hex_value (hex_digit d) = Some d"
  by (auto simp: hex_value_def hex_digit_def char_code_def Let_def)

lemma char_code_eq: "char_code c = n \<Longrightarrow> c = char_of n"
  by (auto simp: char_code_def)

lemma char_code_eqI: "char_code c = char_code d \<Longrightarrow> c = d"
  by (simp add: char_code_def)

lemma unescape_hex:
  assumes "char_code c < 32"
  shows "unescape (CHR ''u'' # CHR ''0'' # CHR ''0'' # hex_digit (char_code c div 16) #
    hex_digit (char_code c mod 16) # r) = Some (c, r)"
proof -
  have h: "hex_value (hex_digit (char_code c div 16)) = Some (char_code c div 16)"
    "hex_value (hex_digit (char_code c mod 16)) = Some (char_code c mod 16)"
    using assms by (auto intro!: hex_digit_value)
  have z: "hex_value CHR ''0'' = Some 0" by (simp add: hex_value_def char_code_def)
  have "(of_char c :: nat) < 256" by simp
  then have "char_of (char_code c) = c" by (simp add: char_code_def)
  then show ?thesis
    using assms by (simp add: unescape_def h z)
qed

lemma named_chars:
  "char_of (8 :: nat) = CHR 0x08" "char_of (9 :: nat) = CHR 0x09" "char_of (10 :: nat) = CHR 0x0A"
  "char_of (12 :: nat) = CHR 0x0C" "char_of (13 :: nat) = CHR 0x0D"
  by (rule char_code_eqI, simp add: char_code_def)+

lemma escape_char_cases:
  obtains "c \<in> {CHR 0x22, CHR 0x5C, CHR 0x08, CHR 0x09, CHR 0x0A, CHR 0x0C, CHR 0x0D}"
    | "char_code c < 32" "char_code c \<notin> {8, 9, 10, 12, 13}"
    | "32 \<le> char_code c" "char_code c \<noteq> 34" "char_code c \<noteq> 92"
proof -
  have "c \<in> {CHR 0x22, CHR 0x5C, CHR 0x08, CHR 0x09, CHR 0x0A, CHR 0x0C, CHR 0x0D}"
    if "char_code c \<in> {34, 92, 8, 9, 10, 12, 13}"
    using that by (auto simp: char_code_def intro!: char_code_eqI)
  then show thesis using that by fastforce
qed

lemma parse_escaped:
  "parse_chars (Suc n) (escape_char c @ r) = map_option (apfst ((#) c)) (parse_chars n r)"
proof (cases c rule: escape_char_cases)
  case 1
  then show ?thesis
    by (elim insertE emptyE; simp add: escape_char_def unescape_def char_code_def named_chars Let_def)
next
  case 2
  then have "escape_char c = [CHR 0x5C, CHR ''u'', CHR ''0'', CHR ''0'',
      hex_digit (char_code c div 16), hex_digit (char_code c mod 16)]"
    by (simp add: escape_char_def Let_def)
  then show ?thesis using unescape_hex [OF 2(1), of r] by simp
next
  case 3
  then have "escape_char c = [c]" by (simp add: escape_char_def Let_def)
  moreover have "c \<noteq> CHR 0x22" "c \<noteq> CHR 0x5C" using 3 by (auto simp: char_code_def)
  ultimately show ?thesis using 3 by simp
qed

lemma escape_char_length: "1 \<le> length (escape_char c)"
  by (simp add: escape_char_def Let_def)

lemma escaped_length: "length s \<le> length (concat (map escape_char s))"
proof (induction s)
  case (Cons c s)
  then show ?case using escape_char_length [of c] by simp
qed simp

lemma parse_chars_escaped:
  "ascii s \<Longrightarrow> length s < n \<Longrightarrow>
   parse_chars n (concat (map escape_char s) @ CHR 0x22 # r) = Some (s, r)"
proof (induction s arbitrary: n)
  case Nil
  then show ?case by (cases n) simp_all
next
  case (Cons c s)
  then obtain m where n: "n = Suc m" "length s < m" by (cases n) simp_all
  have "ascii s" "char_code c < 128" using Cons.prems(1) by (simp_all add: ascii_def)
  then show ?case using Cons.IH [OF _ n(2)] by (simp add: n(1) parse_escaped)
qed

lemma parse_string_print:
  assumes "ascii s"
  shows "parse_string (print_string s @ r) = Some (s, r)"
proof -
  let ?e = "concat (map escape_char s)"
  have "parse_chars (Suc (length (?e @ CHR 0x22 # r))) (?e @ CHR 0x22 # r) = Some (s, r)"
    by (rule parse_chars_escaped [OF assms]) (use escaped_length [of s] in simp)
  then show ?thesis by (simp add: parse_string_def print_string_def)
qed

subsection \<open>Numbers\<close>

definition number_ends :: "string \<Rightarrow> bool" where
  "number_ends r \<longleftrightarrow> (case r of [] \<Rightarrow> True | c # _ \<Rightarrow> \<not> is_digit c)"

lemma number_ends_simps [simp]:
  "number_ends []" "number_ends (CHR '','' # r)" "number_ends (CHR '']'' # r)"
  "number_ends (CHR ''}'' # r)"
  by (simp_all add: number_ends_def is_digit_def digit_value_def char_code_def)

lemma take_digits:
  assumes "number_ends r"
  shows "takeWhile is_digit (show_base 10 n @ r) = show_base 10 n"
    and "dropWhile is_digit (show_base 10 n @ r) = r"
proof -
  have d: "\<forall>c \<in> set (show_base 10 n). is_digit c"
    using show_base_digits [of 10 n] by (simp add: is_digit_def)
  have r: "takeWhile is_digit r = []" "dropWhile is_digit r = r"
    using assms by (cases r; simp add: number_ends_def)+
  show "takeWhile is_digit (show_base 10 n @ r) = show_base 10 n"
    and "dropWhile is_digit (show_base 10 n @ r) = r"
    using d r by (simp_all add: takeWhile_append dropWhile_append)
qed

lemma show_base_head:
  obtains c cs where "show_base 10 n = c # cs" and "48 \<le> char_code c" and "char_code c < 58"
proof -
  obtain c cs where eq: "show_base 10 n = c # cs"
    using show_base_nonempty by (cases "show_base 10 n") blast+
  have "digit_value 10 c \<noteq> None" using show_base_digits [of 10 n] eq by simp
  then show thesis using that eq by (auto simp: digit_value_def split: if_splits)
qed

lemma parse_number_show:
  assumes "number_ends r"
  shows "parse_number (show_base 10 n @ r) = Some (JUnsigned n, r)"
proof -
  obtain c cs where eq: "show_base 10 n = c # cs" and c: "48 \<le> char_code c" "char_code c < 58"
    by (rule show_base_head)
  have "c \<noteq> CHR ''-''" using c by (auto simp: char_code_def)
  then have "parse_number (show_base 10 n @ r) =
    map_option (\<lambda>m. (JUnsigned m, dropWhile is_digit (show_base 10 n @ r)))
      (scan_nat 10 (takeWhile is_digit (show_base 10 n @ r)))"
    by (simp add: parse_number_def eq)
  then show ?thesis by (simp add: take_digits [OF assms] scan_nat_show_base)
qed

lemma parse_number_minus:
  "number_ends r \<Longrightarrow>
   parse_number (CHR ''-'' # show_base 10 n @ r) = Some (JInteger (- int n), r)"
  by (simp add: parse_number_def take_digits scan_nat_show_base)

lemma parse_value_show:
  assumes "number_ends r"
  shows "parse_value (Suc n) (show_base 10 m @ r) = Some (JUnsigned m, r)"
proof -
  obtain c cs where eq: "show_base 10 m = c # cs" and c: "48 \<le> char_code c" "char_code c < 58"
    by (rule show_base_head)
  have "c \<notin> {CHR ''n'', CHR ''t'', CHR ''f'', CHR 0x22, CHR ''['', CHR ''{''}"
    using c by (auto simp: char_code_def)
  then have "parse_value (Suc n) (show_base 10 m @ r) = parse_number (show_base 10 m @ r)"
    by (simp add: eq)
  then show ?thesis by (simp add: parse_number_show [OF assms])
qed

subsection \<open>Values\<close>

lemma print_json_head:
  assumes "storable j"
  obtains c cs where "print_json j = c # cs" and "c \<noteq> CHR '']''" and "c \<noteq> CHR ''}''"
proof (cases j)
  case (JInteger i)
  obtain c cs where "show_base 10 (nat i) = c # cs" and "48 \<le> char_code c" "char_code c < 58"
    by (rule show_base_head)
  then have c: "c \<noteq> CHR '']''" "c \<noteq> CHR ''}''" "show_base 10 (nat i) = c # cs"
    by (auto simp: char_code_def)
  then show thesis using that JInteger by (cases "i < 0") (simp_all add: to_string_def)
next
  case (JUnsigned m)
  obtain c cs where "show_base 10 m = c # cs" and "48 \<le> char_code c" "char_code c < 58"
    by (rule show_base_head)
  then have "c \<noteq> CHR '']''" "c \<noteq> CHR ''}''" "show_base 10 m = c # cs"
    by (auto simp: char_code_def)
  then show thesis using that JUnsigned by simp
next
  case (JBool b)
  then show thesis using that by (cases b) simp_all
qed (use assms that in \<open>simp_all add: print_string_def\<close>)

lemma print_elems_head:
  assumes "storable x"
  shows "\<not> has_prefix '']'' (print_elems (x # xs) @ r)" "print_elems (x # xs) \<noteq> []"
proof -
  obtain c cs where "print_json x = c # cs" "c \<noteq> CHR '']''" using assms by (rule print_json_head)
  then show "\<not> has_prefix '']'' (print_elems (x # xs) @ r)" "print_elems (x # xs) \<noteq> []"
    by (cases xs; simp add: has_prefix_def)+
qed

lemma print_members_head: "\<not> has_prefix ''}'' (print_members (x # xs) @ r)"
  by (cases xs) (simp_all add: has_prefix_def print_string_def)

lemma parse_print:
  shows "storable j \<Longrightarrow> number_ends r \<Longrightarrow> 2 * length (print_json j) \<le> n \<Longrightarrow>
      parse_value n (print_json j @ r) = Some (norm_json j, r)"
    and "xs \<noteq> [] \<Longrightarrow> \<forall>x \<in> set xs. storable x \<Longrightarrow> 2 * length (print_elems xs) < n \<Longrightarrow>
      parse_elems n (print_elems xs @ r) = Some (map norm_json xs, r)"
    and "kvs \<noteq> [] \<Longrightarrow> \<forall>(k, v) \<in> set kvs. ascii k \<and> storable v \<Longrightarrow>
      2 * length (print_members kvs) < n \<Longrightarrow>
      parse_members n (print_members kvs @ r) = Some (map (map_prod id norm_json) kvs, r)"
proof (induction j and xs and kvs arbitrary: n r and n r and n r
    rule: print_json_print_elems_print_members.induct)
  case 1
  then show ?case by (cases n) (simp_all add: expect_def has_prefix_def)
next
  case (2 b)
  then show ?case by (cases n; cases b) (simp_all add: expect_def has_prefix_def)
next
  case (3 s)
  then obtain m where n: "n = Suc m" by (cases n) (simp_all add: print_string_def)
  then show ?case using parse_string_print [of s r] 3 by (simp add: print_string_def)
next
  case (4 i)
  obtain c cs where "show_base 10 (nat i) = c # cs" by (rule show_base_head)
  with 4 obtain m where n: "n = Suc m" by (cases n) (auto simp: to_string_def split: if_splits)
  show ?case
  proof (cases "i < 0")
    case True
    then show ?thesis using 4(2) parse_number_minus [of r "nat (- i)"] by (simp add: to_string_def n)
  next
    case False
    then show ?thesis using 4(2) parse_value_show [of r m "nat i"] by (simp add: to_string_def n)
  qed
next
  case (5 m)
  obtain c cs where "show_base 10 m = c # cs" by (rule show_base_head)
  with 5 obtain k where "n = Suc k" by (cases n) simp_all
  then show ?case using 5 parse_value_show [of r k m] by simp
next
  case (6 s)
  then show ?case by simp
next
  case (7 xs)
  then obtain m where n: "n = Suc m" by (cases n) simp_all
  show ?case
  proof (cases xs)
    case Nil
    then show ?thesis by (simp add: n has_prefix_def)
  next
    case (Cons x ys)
    then have "\<not> has_prefix '']'' (print_elems xs @ r)"
      using 7(2) print_elems_head(1) [of x ys r] by simp
    moreover have "parse_elems m (print_elems xs @ r) = Some (map norm_json xs, r)"
      by (rule 7(1)) (use 7 Cons n in auto)
    ultimately show ?thesis by (simp add: n)
  qed
next
  case (8 kvs)
  then obtain m where n: "n = Suc m" by (cases n) simp_all
  show ?case
  proof (cases kvs)
    case Nil
    then show ?thesis by (simp add: n has_prefix_def)
  next
    case (Cons x ys)
    then have "\<not> has_prefix ''}'' (print_members kvs @ r)" by (simp add: print_members_head)
    moreover have "parse_members m (print_members kvs @ r) = Some (map (map_prod id norm_json) kvs, r)"
      by (rule 8(1)) (use 8 Cons n in auto)
    ultimately show ?thesis by (simp add: n)
  qed
next
  case 9
  then show ?case by simp
next
  case (10 x)
  then obtain m where n: "n = Suc m" by (cases n) simp_all
  have "parse_value m (print_json x @ CHR '']'' # r) = Some (norm_json x, CHR '']'' # r)"
    by (rule 10(1)) (use 10 n in auto)
  then show ?case by (simp add: n)
next
  case (11 x y xs)
  then obtain m where n: "n = Suc m" by (cases n) simp_all
  have "parse_value m (print_json x @ CHR '','' # print_elems (y # xs) @ r) =
      Some (norm_json x, CHR '','' # print_elems (y # xs) @ r)"
    by (rule 11(1)) (use 11 n in auto)
  moreover have "parse_elems m (print_elems (y # xs) @ r) = Some (map norm_json (y # xs), r)"
    by (rule 11(2)) (use 11(4,5) n in auto)
  ultimately show ?case by (simp add: n)
next
  case 12
  then show ?case by simp
next
  case (13 kv)
  then obtain m where n: "n = Suc m" by (cases n) simp_all
  have "parse_value m (print_json (snd kv) @ CHR ''}'' # r) = Some (norm_json (snd kv), CHR ''}'' # r)"
    by (rule 13(1)) (use 13 n in \<open>auto simp: print_string_def\<close>)
  moreover have "parse_string (print_string (fst kv) @ s) = Some (fst kv, s)" for s
    using 13 by (auto intro: parse_string_print)
  ultimately show ?case by (cases kv) (simp add: n)
next
  case (14 kv y kvs)
  then obtain m where n: "n = Suc m" by (cases n) simp_all
  let ?r = "CHR '','' # print_members (y # kvs) @ r"
  have "parse_value m (print_json (snd kv) @ ?r) = Some (norm_json (snd kv), ?r)"
    by (rule 14(1)) (use 14 n in \<open>auto simp: print_string_def\<close>)
  moreover have "parse_members m (print_members (y # kvs) @ r) =
      Some (map (map_prod id norm_json) (y # kvs), r)"
    by (rule 14(2)) (use 14(4,5) n in \<open>auto simp: print_string_def\<close>)
  moreover have "parse_string (print_string (fst kv) @ s) = Some (fst kv, s)" for s
    using 14(4) by (auto intro: parse_string_print)
  ultimately show ?case by (simp add: n split_beta map_prod_def)
qed

lemma parse_json_print: "storable j \<Longrightarrow> parse_json (print_json j) = Inr (norm_json j)"
  using parse_print(1) [of j "[]" "2 * length (print_json j)"] by (simp add: parse_json_def)

definition text_json :: json_lib where
  "text_json = nl_json\<lparr>j_dump := \<lambda>j. Inr (print_json j), j_print := \<lambda>j. (print_json j, None),
     j_parse := parse_json\<rparr>"

lemma text_json_documented: "json_documented text_json"
  using nl_json_documented by (simp add: json_documented_def text_json_def)

lemma text_json_text_documented: "json_text_documented text_json"
  using parse_json_print stored_as_norm by (auto simp: json_text_documented_def text_json_def)

end
