(* ===== verification/StateFile.thy ===== *)
theory StateFile
  imports Platform JsonText
begin

text \<open>
  The state file, \<open>src/state_file.cc\<close>, and the overrides the manager keeps in it.

  \<open>disk\<close> is the text of the files the module writes, which the code finds again when it opens
  them. \<open>sf_current\<close> is the member \<open>currentValue\<close>. A document is turned into text and back by
  the JSON library.
\<close>

record sf_state = os_state +
  disk :: "string \<rightharpoonup> string"
  sf_path :: string
  sf_default :: json
  sf_current :: json

section \<open>Operations\<close>

text \<open>
  \<open>std::ofstream ofs{path}; ofs << j; ofs.close()\<close>. Creating the file truncates it; when
  that fails the stream is bad, what is printed to it is lost and an old file stays. Printing can
  throw, and the destructor of the stream still writes out what was printed. The answer to
  \<open>SysWriteFile\<close> is the number of bytes that reached the file before the first error. The code
  checks neither error.
\<close>

definition write_file :: "platform \<Rightarrow> string \<Rightarrow> json \<Rightarrow> ('a sf_state_scheme, unit) M" where
  "write_file pf path j =
     bindM (callM pf (File (SysCreate path))) (\<lambda>(fd, _).
     thenM (whenM (0 \<le> fd) (modifyM (\<lambda>s. s\<lparr>disk := (disk s)(path \<mapsto> [])\<rparr>)))
    (case j_print (jlib pf) j of (text, err) \<Rightarrow>
       thenM (whenM (0 \<le> fd)
               (bindM (callM pf (File (SysWriteFile path text))) (\<lambda>(n, _).
                modifyM (\<lambda>s. s\<lparr>disk := (disk s)(path \<mapsto> take (nat n) text)\<rparr>))))
             (case err of None \<Rightarrow> returnM () | Some e \<Rightarrow> throwM e)))"

text \<open>A call that succeeds only when the file it names is there.\<close>

definition on_file :: "platform \<Rightarrow> file_call \<Rightarrow> string \<Rightarrow> ('a sf_state_scheme, int \<times> int) M" where
  "on_file pf c path =
     bindM (callM pf (File c)) (\<lambda>(rv, err).
     bindM (getsM disk) (\<lambda>d.
     returnM (if rv = 0 \<and> d path = None then (- 1, ENOENT) else (rv, err))))"

text \<open>
  \<open>std::filesystem::remove(path)\<close> calls \<open>remove\<close>, ignores \<open>ENOENT\<close> and throws any other
  error. It is entered with the value \<open>errno_in\<close> of \<open>errno\<close> and returns the one it leaves, which
  a successful call does not change.
\<close>

definition fs_remove :: "platform \<Rightarrow> string \<Rightarrow> int \<Rightarrow> ('a sf_state_scheme, int) M" where
  "fs_remove pf path errno_in =
     bindM (on_file pf (SysRemove path) path) (\<lambda>(rv, err).
     if rv \<noteq> 0 \<and> err \<noteq> ENOENT then throwM (SystemError err ''filesystem error'')
     else thenM (modifyM (\<lambda>s. s\<lparr>disk := (disk s)(path := None)\<rparr>))
                (returnM (if rv = 0 then errno_in else err)))"

definition sf_getValue :: "('a sf_state_scheme, json) M" where
  "sf_getValue = getsM sf_current"

definition tmp_path :: "string \<Rightarrow> int \<Rightarrow> string" where
  "tmp_path path pid = path @ ''.tmp'' @ to_string pid"

text \<open>\<open>setValue\<close> up to the rename, and the rename.\<close>

definition sf_write_tmp :: "platform \<Rightarrow> json \<Rightarrow> ('a sf_state_scheme, string) M" where
  "sf_write_tmp pf new_value =
     bindM (callM pf (Acct SysGetpid)) (\<lambda>(pid, _).
     bindM (getsM sf_path) (\<lambda>path.
     thenM (write_file pf (tmp_path path pid) new_value)
           (returnM (tmp_path path pid))))"

definition sf_commit :: "platform \<Rightarrow> string \<Rightarrow> ('a sf_state_scheme, unit) M" where
  "sf_commit pf tmpfilepath =
     bindM (getsM sf_path) (\<lambda>path.
     bindM (on_file pf (SysRename tmpfilepath path) tmpfilepath) (\<lambda>(rv, err).
     if rv \<noteq> 0 then
       bindM (fs_remove pf tmpfilepath err) (\<lambda>err.
       throwM (SystemError err ''rename()''))
     else modifyM (\<lambda>s. s\<lparr>disk := (disk s)(path := disk s tmpfilepath, tmpfilepath := None)\<rparr>)))"

definition sf_setValue :: "platform \<Rightarrow> json \<Rightarrow> ('a sf_state_scheme, unit) M" where
  "sf_setValue pf new_value =
     bindM (sf_write_tmp pf new_value) (\<lambda>tmpfilepath.
     thenM (sf_commit pf tmpfilepath)
           (modifyM (\<lambda>s. s\<lparr>sf_current := new_value\<rparr>)))"

definition sf_clear :: "platform \<Rightarrow> ('a sf_state_scheme, unit) M" where
  "sf_clear pf =
     bindM (getsM sf_path) (\<lambda>path.
     bindM (getsM sf_default) (\<lambda>d.
     thenM (write_file pf path d)
           (modifyM (\<lambda>s. s\<lparr>sf_current := d\<rparr>))))"

text \<open>
  The constructor. \<open>exists\<close> throws when the kernel cannot tell. The answer to \<open>SysReadFile\<close> is
  the number of bytes the stream delivers; a stream that could not be opened delivers none.
\<close>

definition sf_open :: "platform \<Rightarrow> string \<Rightarrow> json \<Rightarrow> ('a sf_state_scheme, unit) M" where
  "sf_open pf path default_value =
     thenM (modifyM (\<lambda>s. s\<lparr>sf_path := path, sf_default := default_value\<rparr>))
    (bindM (callM pf (File (SysExists path))) (\<lambda>(rv, err).
     if rv < 0 then throwM (SystemError err ''filesystem error'')
     else
       bindM (getsM disk) (\<lambda>d.
       case d path of
         None \<Rightarrow> sf_clear pf
       | Some text \<Rightarrow>
           bindM (callM pf (File (SysReadFile path))) (\<lambda>(n, _).
           bindM (liftE (j_parse (jlib pf) (take (nat n) text))) (\<lambda>j.
           modifyM (\<lambda>s. s\<lparr>sf_current := j\<rparr>))))))"

section \<open>Overrides\<close>

text \<open>
  The reads of \<open>Manager::loadManifest\<close> and \<open>Job::isDisabled\<close>: the value of
  \<open>Overrides[label].Enabled\<close>, or \<open>None\<close> when the label has no entry.
\<close>

definition bindX :: "exn + 'a \<Rightarrow> ('a \<Rightarrow> exn + 'b) \<Rightarrow> exn + 'b" where
  "bindX r f = (case r of Inl e \<Rightarrow> Inl e | Inr x \<Rightarrow> f x)"

lemma bindX_simps [simp]: "bindX (Inl e) f = Inl e" "bindX (Inr x) f = f x"
  by (simp_all add: bindX_def)

definition override_enabled :: "json_lib \<Rightarrow> json \<Rightarrow> string \<Rightarrow> exn + bool option" where
  "override_enabled J doc l =
     bindX (j_at J doc ''Overrides'') (\<lambda>ovs.
     if j_contains J ovs l then
       bindX (j_at J ovs l) (\<lambda>job_state.
       bindX (j_at J job_state ''Enabled'') (\<lambda>v.
       bindX (j_get_bool J v) (\<lambda>b. Inr (Some b))))
     else Inr None)"

text \<open>The document \<open>Manager::overrideJobEnabled\<close> writes.\<close>

definition override_doc :: "json_lib \<Rightarrow> json \<Rightarrow> string \<Rightarrow> bool \<Rightarrow> exn + json" where
  "override_doc J doc l enabled =
     bindX (j_at J doc ''Overrides'') (\<lambda>ovs.
     if j_contains J ovs l then
       bindX (j_at J ovs l) (\<lambda>entry.
       bindX (j_put J entry ''Enabled'' (JBool enabled)) (\<lambda>entry'.
       bindX (j_put J ovs l entry') (\<lambda>ovs'. j_put J doc ''Overrides'' ovs')))
     else
       bindX (j_emplace J ovs l (JObject [(''Enabled'', JBool enabled)])) (\<lambda>ovs'.
       j_put J doc ''Overrides'' ovs'))"

definition default_state_doc :: json where
  "default_state_doc = JObject [(''SchemaVersion'', JInteger 1), (''Overrides'', JObject [])]"

section \<open>The interface the jobs and the manager rely on\<close>

text \<open>
  A store of per-label switches: what a lookup returns after an update, and the predicate every
  update keeps. A sequence of updates succeeds, and the last update of a label decides its
  switch.
\<close>

primrec upds :: "('d \<Rightarrow> string \<Rightarrow> bool \<Rightarrow> exn + 'd) \<Rightarrow> 'd \<Rightarrow> (string \<times> bool) list \<Rightarrow>
    exn + 'd" where
  "upds upd d [] = Inr d"
| "upds upd d (x # xs) =
     (case upd d (fst x) (snd x) of Inl e \<Rightarrow> Inl e | Inr d' \<Rightarrow> upds upd d' xs)"

locale switch_store =
  fixes look :: "'d \<Rightarrow> string \<Rightarrow> exn + bool option"
    and upd :: "'d \<Rightarrow> string \<Rightarrow> bool \<Rightarrow> exn + 'd"
    and ok :: "'d \<Rightarrow> bool"
  assumes upd_ok: "ok d \<Longrightarrow> \<exists>d'. upd d l b = Inr d' \<and> ok d'"
    and look_upd: "ok d \<Longrightarrow> upd d l b = Inr d' \<Longrightarrow>
      look d' k = (if k = l then Inr (Some b) else look d k)"
    and look_total: "ok d \<Longrightarrow> \<exists>r. look d k = Inr r"
begin

lemma upds_ok: "ok d \<Longrightarrow> \<exists>d'. upds upd d xs = Inr d' \<and> ok d'"
proof (induction xs arbitrary: d)
  case (Cons x xs)
  obtain d' where "upd d (fst x) (snd x) = Inr d'" "ok d'" using upd_ok Cons.prems by blast
  then show ?case using Cons.IH by simp
qed simp

lemma look_upds:
  "ok d \<Longrightarrow> upds upd d xs = Inr d' \<Longrightarrow>
   look d' k = (case map_of (rev xs) k of Some b \<Rightarrow> Inr (Some b) | None \<Rightarrow> look d k)"
proof (induction xs arbitrary: d)
  case (Cons x xs)
  obtain d1 where d1: "upd d (fst x) (snd x) = Inr d1" "ok d1" using upd_ok Cons.prems(1) by blast
  then have "upds upd d1 xs = Inr d'" using Cons.prems(2) by simp
  then show ?case
    using Cons.IH [OF d1(2)] look_upd [OF Cons.prems(1) d1(1)]
    by (cases x) (auto simp: map_add_def split: option.splits)
qed simp

end

text \<open>A state document: every entry of \<open>Overrides\<close> has a boolean \<open>Enabled\<close>.\<close>

definition entry_ok :: "json \<Rightarrow> bool" where
  "entry_ok e \<longleftrightarrow> (\<exists>kvs b. e = JObject kvs \<and> map_of kvs ''Enabled'' = Some (JBool b))"

definition state_doc_ok :: "json \<Rightarrow> bool" where
  "state_doc_ok doc \<longleftrightarrow>
     (\<exists>kvs ovs. doc = JObject kvs \<and> map_of kvs ''Overrides'' = Some (JObject ovs) \<and>
        (\<forall>e \<in> ran (map_of ovs). entry_ok e))"

lemma default_state_doc_ok: "state_doc_ok default_state_doc"
  by (simp add: state_doc_ok_def default_state_doc_def)

locale documented_json =
  fixes J :: json_lib
  assumes documented: "json_documented J"
begin

lemma state_docE:
  assumes "state_doc_ok d"
  obtains kvs ovs where "d = JObject kvs" and "map_of kvs ''Overrides'' = Some (JObject ovs)"
    and "\<forall>l e. map_of ovs l = Some e \<longrightarrow> entry_ok e"
  using assms unfolding state_doc_ok_def by (auto simp: ran_def)

lemma override_enabled_eq:
  assumes "d = JObject kvs" and "map_of kvs ''Overrides'' = Some (JObject ovs)"
  shows "override_enabled J d l =
    (case map_of ovs l of None \<Rightarrow> Inr None
     | Some e \<Rightarrow> bindX (j_at J e ''Enabled'') (\<lambda>v. bindX (j_get_bool J v) (\<lambda>b. Inr (Some b))))"
  using assms documented
  by (simp add: override_enabled_def documented_rules split: option.split)

lemma entry_enabled:
  "entry_ok e \<Longrightarrow> \<exists>b. bindX (j_at J e ''Enabled'') (\<lambda>v. bindX (j_get_bool J v) (\<lambda>b. Inr (Some b))) =
     Inr (Some b)"
  using documented by (auto simp: entry_ok_def documented_rules)

lemma override_doc_eq:
  assumes d: "d = JObject kvs" "map_of kvs ''Overrides'' = Some (JObject ovs)"
    and ok: "\<And>e. map_of ovs l = Some e \<Longrightarrow> entry_ok e"
  obtains e kvs' ovs' where "override_doc J d l b = Inr (JObject kvs')"
    and "map_of kvs' = (map_of kvs)(''Overrides'' \<mapsto> JObject ovs')"
    and "map_of ovs' = (map_of ovs)(l \<mapsto> e)" and "entry_ok e"
    and "j_at J e ''Enabled'' = Inr (JBool b)"
proof (cases "map_of ovs l")
  case None
  let ?e = "JObject [(''Enabled'', JBool b)]"
  obtain ovs' where o: "j_emplace J (JObject ovs) l ?e = Inr (JObject ovs')"
    "map_of ovs' = map_insert (map_of ovs) l ?e"
    using documented_emplace [OF documented] by blast
  obtain kvs' where k: "j_put J (JObject kvs) ''Overrides'' (JObject ovs') = Inr (JObject kvs')"
    "map_of kvs' = (map_of kvs)(''Overrides'' \<mapsto> JObject ovs')"
    using documented_put [OF documented] by blast
  show thesis
    by (rule that [of kvs' ovs' ?e])
      (use None d o k documented in
        \<open>simp_all add: override_doc_def documented_rules map_insert_def entry_ok_def\<close>)
next
  case (Some e0)
  then obtain ekvs where e0: "e0 = JObject ekvs" using ok by (auto simp: entry_ok_def)
  obtain ekvs' where e: "j_put J e0 ''Enabled'' (JBool b) = Inr (JObject ekvs')"
    "map_of ekvs' = (map_of ekvs)(''Enabled'' \<mapsto> JBool b)"
    using documented_put [OF documented] e0 by blast
  obtain ovs' where o: "j_put J (JObject ovs) l (JObject ekvs') = Inr (JObject ovs')"
    "map_of ovs' = (map_of ovs)(l \<mapsto> JObject ekvs')"
    using documented_put [OF documented] by blast
  obtain kvs' where k: "j_put J (JObject kvs) ''Overrides'' (JObject ovs') = Inr (JObject kvs')"
    "map_of kvs' = (map_of kvs)(''Overrides'' \<mapsto> JObject ovs')"
    using documented_put [OF documented] by blast
  show thesis
    by (rule that [of kvs' ovs' "JObject ekvs'"])
      (use Some d e o k documented in
        \<open>simp_all add: override_doc_def documented_rules entry_ok_def\<close>)
qed

end

sublocale documented_json \<subseteq> switch_store "override_enabled J" "override_doc J" state_doc_ok
proof
  fix d :: json and l :: string and b :: bool
  assume "state_doc_ok d"
  then obtain kvs ovs where d: "d = JObject kvs" "map_of kvs ''Overrides'' = Some (JObject ovs)"
    and ok: "\<forall>l e. map_of ovs l = Some e \<longrightarrow> entry_ok e" by (rule state_docE)
  obtain e kvs' ovs' where u: "override_doc J d l b = Inr (JObject kvs')"
    and k: "map_of kvs' = (map_of kvs)(''Overrides'' \<mapsto> JObject ovs')"
    and o: "map_of ovs' = (map_of ovs)(l \<mapsto> e)" and e: "entry_ok e"
    and at: "j_at J e ''Enabled'' = Inr (JBool b)"
    by (rule override_doc_eq [OF d, of l b]) (use ok in blast)
  have "\<forall>e \<in> ran (map_of ovs'). entry_ok e"
    using e ok by (auto simp: o ran_def)
  then show "\<exists>d'. override_doc J d l b = Inr d' \<and> state_doc_ok d'"
    using u k by (auto simp: state_doc_ok_def)
  fix d' :: json and k' :: string
  assume "override_doc J d l b = Inr d'"
  then show "override_enabled J d' k' =
      (if k' = l then Inr (Some b) else override_enabled J d k')"
    using u k o at documented override_enabled_eq [OF d, of k']
      override_enabled_eq [of d' kvs' ovs' k']
    by (simp add: documented_rules)
next
  fix d :: json and k :: string
  assume "state_doc_ok d"
  then obtain kvs ovs where d: "d = JObject kvs" "map_of kvs ''Overrides'' = Some (JObject ovs)"
    and ok: "\<forall>l e. map_of ovs l = Some e \<longrightarrow> entry_ok e" by (rule state_docE)
  show "\<exists>r. override_enabled J d k = Inr r"
  proof (cases "map_of ovs k")
    case (Some e)
    then have "entry_ok e" using ok by blast
    then show ?thesis using override_enabled_eq [OF d, of k] entry_enabled [of e] Some by auto
  qed (simp add: override_enabled_eq [OF d])
qed

context documented_json
begin

lemma last_wins:
  assumes "state_doc_ok doc"
  shows "\<exists>doc'. upds (override_doc J) doc xs = Inr doc' \<and> state_doc_ok doc' \<and>
    (\<forall>l. override_enabled J doc' l =
       (case map_of (rev xs) l of Some b \<Rightarrow> Inr (Some b) | None \<Rightarrow> override_enabled J doc l))"
  using upds_ok [OF assms, of xs] look_upds [OF assms] by blast

end

interpretation nl: documented_json nl_json
  by unfold_locales (rule nl_json_documented)

section \<open>Properties\<close>

lemma tmp_path_neq [simp]: "tmp_path path pid \<noteq> path" "path \<noteq> tmp_path path pid"
  by (simp_all add: tmp_path_def)

text \<open>What \<open>setValue\<close> leaves at the temporary path, and how its two halves end.\<close>

definition written :: "platform \<Rightarrow> syscall list \<Rightarrow> string \<Rightarrow> json \<Rightarrow> string option \<Rightarrow> string option" where
  "written pf h path j old =
     (let text = fst (j_print (jlib pf) j); create = File (SysCreate path) in
      if fst (sys_int pf h create) < 0 then old
      else Some (take (nat (fst (sys_int pf (create # h) (File (SysWriteFile path text))))) text))"

lemma write_file_eq:
  "write_file pf path j s =
     (let text = fst (j_print (jlib pf) j); create = File (SysCreate path) in
      (case snd (j_print (jlib pf) j) of None \<Rightarrow> Inr () | Some e \<Rightarrow> Inl (Throw e),
       s\<lparr>trace := (if fst (sys_int pf (trace s) create) < 0 then create # trace s
                  else File (SysWriteFile path text) # create # trace s),
         disk := (disk s)(path := written pf (trace s) path j (disk s path))\<rparr>))"
  by (cases "fst (sys_int pf (trace s) (File (SysCreate path))) < 0")
    (simp_all add: write_file_def written_def monad_simps Let_def split_beta split: option.split)

lemma sf_write_tmp_eq:
  "sf_write_tmp pf j s =
     (let tmp = tmp_path (sf_path s) (fst (sys_int pf (trace s) (Acct SysGetpid)));
          text = fst (j_print (jlib pf) j); create = File (SysCreate tmp);
          h = Acct SysGetpid # trace s in
      (case snd (j_print (jlib pf) j) of None \<Rightarrow> Inr tmp | Some e \<Rightarrow> Inl (Throw e),
       s\<lparr>trace := (if fst (sys_int pf h create) < 0 then create # h
                  else File (SysWriteFile tmp text) # create # h),
         disk := (disk s)(tmp := written pf h tmp j (disk s tmp))\<rparr>))"
  by (simp add: sf_write_tmp_def write_file_eq monad_simps Let_def split_beta split: option.split)

lemma sf_commit_eq:
  "sf_commit pf tmp s =
     (let r = sys_int pf (trace s) (File (SysRename tmp (sf_path s)));
          h = File (SysRename tmp (sf_path s)) # trace s;
          q = sys_int pf h (File (SysRemove tmp)) in
      if fst r = 0 \<and> disk s tmp \<noteq> None then
        (Inr (), s\<lparr>trace := h, disk := (disk s)(sf_path s := disk s tmp, tmp := None)\<rparr>)
      else if fst q = 0 \<and> disk s tmp \<noteq> None then
        (Inl (Throw (SystemError (snd r) ''rename()'')),
         s\<lparr>trace := File (SysRemove tmp) # h, disk := (disk s)(tmp := None)\<rparr>)
      else if fst q = 0 \<or> snd q = ENOENT then
        (Inl (Throw (SystemError ENOENT ''rename()'')),
         s\<lparr>trace := File (SysRemove tmp) # h, disk := (disk s)(tmp := None)\<rparr>)
      else (Inl (Throw (SystemError (snd q) ''filesystem error'')),
            s\<lparr>trace := File (SysRemove tmp) # h\<rparr>))"
  by (auto simp: sf_commit_def on_file_def fs_remove_def monad_simps Let_def split_beta)

lemma sf_setValue_current: "sf_setValue pf j s = (Inr (), s') \<Longrightarrow> sf_current s' = j"
  by (auto simp: sf_setValue_def monad_simps split: prod.splits sum.splits)

text \<open>Operations that only make calls and write files.\<close>

lemma preserves_write_file:
  assumes "\<And>s tr d. I s \<Longrightarrow> I (s\<lparr>trace := tr, disk := d\<rparr>)"
  shows "preserves I (write_file pf path j)"
  using assms by (simp add: preserves_def write_file_eq Let_def)

lemma preserves_sf_setValue [preserves_rules]:
  assumes "\<And>s tr d. I s \<Longrightarrow> I (s\<lparr>trace := tr, disk := d\<rparr>)" and "\<And>s. I s \<Longrightarrow> I (s\<lparr>sf_current := j\<rparr>)"
  shows "preserves I (sf_setValue pf j)"
proof -
  have t: "I (s\<lparr>trace := tr\<rparr>)" if "I s" for s tr
    using assms(1) [OF that, where tr = tr and d = "disk s"] by simp
  have d: "I (s\<lparr>disk := d\<rparr>)" if "I s" for s d
    using assms(1) [OF that, where tr = "trace s" and d = d] by simp
  show ?thesis
    unfolding sf_setValue_def sf_write_tmp_def sf_commit_def on_file_def fs_remove_def
    by (auto intro!: preserves_rules preserves_write_file assms t d)
qed

text \<open>
  C17: replacing the state file. Whatever the system answers, the document at the path of the
  state file is untouched until the rename, and no other file than it and the temporary one is
  touched at all. When \<open>setValue\<close> returns, the printing succeeded, the state file holds exactly
  what the temporary file held, the temporary file is gone and the new value is the current one.
  When it throws, the state file and the current value are as before; it throws either what the
  printing threw, and the temporary file stays; or the failed rename, and the temporary file is
  removed; or the failed removal, and the temporary file stays. What the temporary file held is
  \<open>written\<close>: the bytes that reached it, or the old file when it could not be created. A write
  that was cut short is not noticed: the truncated text replaces the good document.
\<close>

theorem sf_setValue_replaces:
  "let (r1, s1) = sf_write_tmp pf j s; (r2, s2) = sf_setValue pf j s;
       tmp = tmp_path (sf_path s) (fst (sys_int pf (trace s) (Acct SysGetpid))) in
     disk s1 = (disk s)(tmp := written pf (Acct SysGetpid # trace s) tmp j (disk s tmp)) \<and>
     disk s1 (sf_path s) = disk s (sf_path s) \<and>
     disk s2 = (disk s)(sf_path s := disk s2 (sf_path s), tmp := disk s2 tmp) \<and>
     (case r2 of
        Inr _ \<Rightarrow> snd (j_print (jlib pf) j) = None \<and> disk s1 tmp \<noteq> None \<and>
          disk s2 (sf_path s) = disk s1 tmp \<and> disk s2 tmp = None \<and> sf_current s2 = j
      | Inl e \<Rightarrow> disk s2 (sf_path s) = disk s (sf_path s) \<and> sf_current s2 = sf_current s \<and>
          ((\<exists>x. snd (j_print (jlib pf) j) = Some x \<and> e = Throw x \<and> disk s2 tmp = disk s1 tmp) \<or>
           (\<exists>err. e = Throw (SystemError err ''rename()'') \<and> disk s2 tmp = None) \<or>
           (\<exists>err. err \<noteq> ENOENT \<and> e = Throw (SystemError err ''filesystem error'') \<and>
              disk s2 tmp = disk s1 tmp)))"
  by (cases "snd (j_print (jlib pf) j)")
    (auto simp: sf_setValue_def sf_write_tmp_eq sf_commit_eq monad_simps Let_def)

text \<open>Creating, writing, testing and reading files of the text \<open>t\<close> succeed.\<close>

definition files_work :: "platform \<Rightarrow> string \<Rightarrow> bool" where
  "files_work pf t \<longleftrightarrow> (\<forall>h p.
     0 \<le> fst (sys_int pf h (File (SysCreate p))) \<and>
     int (length t) \<le> fst (sys_int pf h (File (SysWriteFile p t))) \<and>
     0 \<le> fst (sys_int pf h (File (SysExists p))) \<and>
     int (length t) \<le> fst (sys_int pf h (File (SysReadFile p))))"

text \<open>A document that was stored and read back has the same switches.\<close>

lemma stored_as_bool: "stored_as (JBool b) j \<Longrightarrow> j = JBool b"
  by (erule stored_as_boolE) simp

lemma stored_entry:
  assumes "stored_as e e'" and "entry_ok e" and "json_documented J"
  shows "entry_ok e'" and "bindX (j_at J e' ''Enabled'') (j_get_bool J) = bindX (j_at J e ''Enabled'') (j_get_bool J)"
proof -
  obtain kvs b where e: "e = JObject kvs" "map_of kvs ''Enabled'' = Some (JBool b)"
    using assms(2) by (auto simp: entry_ok_def)
  obtain kvs' where e': "e' = JObject kvs'"
    and vals: "\<And>k v. map_of kvs k = Some v \<Longrightarrow> \<exists>v'. map_of kvs' k = Some v' \<and> stored_as v v'"
    using assms(1) unfolding e(1) by (rule stored_as_lookup) blast
  then have m: "map_of kvs' ''Enabled'' = Some (JBool b)"
    using vals [OF e(2)] stored_as_bool by blast
  show "entry_ok e'" using m by (simp add: entry_ok_def e')
  show "bindX (j_at J e' ''Enabled'') (j_get_bool J) = bindX (j_at J e ''Enabled'') (j_get_bool J)"
    using m e assms(3) by (simp add: e' documented_rules)
qed


lemma stored_state_doc:
  assumes "stored_as doc doc'" and "state_doc_ok doc" and "json_documented J"
  shows "state_doc_ok doc'" and "override_enabled J doc' l = override_enabled J doc l"
proof -
  obtain kvs ovs where d: "doc = JObject kvs" "map_of kvs ''Overrides'' = Some (JObject ovs)"
    and ok: "\<And>e. e \<in> ran (map_of ovs) \<Longrightarrow> entry_ok e"
    using assms(2) by (auto simp: state_doc_ok_def)
  obtain kvs' where d': "doc' = JObject kvs'"
    and vals: "\<And>k v. map_of kvs k = Some v \<Longrightarrow> \<exists>v'. map_of kvs' k = Some v' \<and> stored_as v v'"
    using assms(1) unfolding d(1) by (rule stored_as_lookup) blast
  obtain ovs' where o': "map_of kvs' ''Overrides'' = Some (JObject ovs')"
    and none: "\<And>k. map_of ovs k = None \<Longrightarrow> map_of ovs' k = None"
    and some: "\<And>k v. map_of ovs k = Some v \<Longrightarrow> \<exists>v'. map_of ovs' k = Some v' \<and> stored_as v v'"
    using vals [OF d(2)] by (auto elim: stored_as_lookup)
  have "entry_ok e'" if e': "map_of ovs' k = Some e'" for k e'
  proof -
    obtain e where e: "map_of ovs k = Some e" using none [of k] e' by (cases "map_of ovs k") auto
    then have "stored_as e e'" using some [OF e] e' by auto
    then show ?thesis using stored_entry(1) [OF _ _ assms(3)] ok e by (blast intro: ranI)
  qed
  then show "state_doc_ok doc'"
    using o' by (auto simp: state_doc_ok_def d' ran_def)
  show "override_enabled J doc' l = override_enabled J doc l"
  proof (cases "map_of ovs l")
    case None
    then show ?thesis
      using none [OF None] d(2) o' assms(3)
      by (simp add: override_enabled_def d(1) d' documented_rules)
  next
    case (Some e)
    obtain e' where e': "map_of ovs' l = Some e'" "stored_as e e'" using some [OF Some] by blast
    have "bindX (j_at J e' ''Enabled'') (j_get_bool J) = bindX (j_at J e ''Enabled'') (j_get_bool J)"
      by (rule stored_entry(2) [OF e'(2) _ assms(3)]) (use ok Some in \<open>blast intro: ranI\<close>)
    then have "bindX (j_at J e' ''Enabled'') (\<lambda>v. bindX (j_get_bool J v) (\<lambda>b. Inr (Some b))) =
        bindX (j_at J e ''Enabled'') (\<lambda>v. bindX (j_get_bool J v) (\<lambda>b. Inr (Some b)))"
      by (auto simp: bindX_def split: sum.splits)
    then show ?thesis
      using Some e'(1) d(2) o' assms(3)
      by (simp add: override_enabled_def d(1) d' documented_rules)
  qed
qed

text \<open>
  C18: what was stored is what a restarted daemon finds. After a \<open>setValue\<close> of a well-formed
  state document that returned, on a system where files can be created, written and read, the
  constructor of a new \<open>StateFile\<close> on the same path reads the text back through the parser: the
  current value it gets is the stored document up to the order of the keys and the type of
  non-negative numbers, is well-formed again, and has the same switch for every label. The
  document has a text that reads back: ASCII strings, 64-bit integers, no floating point.
\<close>

theorem sf_setValue_reopen:
  assumes "json_documented (jlib pf)" and "json_text_documented (jlib pf)"
    and "storable j" and "state_doc_ok j"
    and "files_work pf (fst (j_print (jlib pf) j))"
    and "sf_setValue pf j s = (Inr (), s')"
  shows "\<exists>j'. sf_open pf (sf_path s) d s' =
      (Inr (), s'\<lparr>trace := File (SysReadFile (sf_path s)) # File (SysExists (sf_path s)) # trace s',
                 sf_path := sf_path s, sf_default := d, sf_current := j'\<rparr>) \<and>
    stored_as j j' \<and> state_doc_ok j' \<and>
    (\<forall>l. override_enabled (jlib pf) j' l = override_enabled (jlib pf) j l)"
proof -
  obtain t j' where p: "j_print (jlib pf) j = (t, None)" "j_parse (jlib pf) t = Inr j'" "stored_as j j'"
    using assms(2,3) unfolding json_text_documented_def by blast
  have w: "\<And>h q. \<not> fst (sys_int pf h (File (SysCreate q))) < 0"
    "\<And>h q. length t \<le> nat (fst (sys_int pf h (File (SysWriteFile q t))))"
    "\<And>h q. \<not> fst (sys_int pf h (File (SysExists q))) < 0"
    "\<And>h q. length t \<le> nat (fst (sys_int pf h (File (SysReadFile q))))"
    using assms(5) by (auto simp: files_work_def p not_less intro: nat_mono [of "int (length t)", simplified])
  have "disk s' (sf_path s) = Some t"
    using assms(6)
    by (auto simp: sf_setValue_def sf_write_tmp_eq sf_commit_eq monad_simps Let_def p(1)
        written_def w split: if_splits)
  then have "sf_open pf (sf_path s) d s' =
      (Inr (), s'\<lparr>trace := File (SysReadFile (sf_path s)) # File (SysExists (sf_path s)) # trace s',
                 sf_path := sf_path s, sf_default := d, sf_current := j'\<rparr>)"
    by (cases "sys_int pf (trace s') (File (SysExists (sf_path s)))")
      (use w(3) [of "trace s'" "sf_path s"] in \<open>simp add: sf_open_def monad_simps p(2) w split_beta\<close>)
  then show ?thesis
    using p(3) stored_state_doc [OF p(3) assms(4,1)] by blast
qed

text \<open>A system on which files work, and a document with one switch.\<close>

definition store_platform :: platform where
  "store_platform = null_platform\<lparr>jlib := text_json, sys_int := \<lambda>_ c. case c of
     File (SysWriteFile p t) \<Rightarrow> (int (length t), 0) | File (SysReadFile p) \<Rightarrow> (1000, 0) | _ \<Rightarrow> (0, 0)\<rparr>"

definition sample_state_doc :: json where
  "sample_state_doc = JObject [(''SchemaVersion'', JInteger 1),
     (''Overrides'', JObject [(''a'', JObject [(''Enabled'', JBool False)])])]"

definition init_sf :: sf_state where
  "init_sf = \<lparr>trace = [], disk = Map.empty, sf_path = ''/s/state.json'',
     sf_default = default_state_doc, sf_current = default_state_doc\<rparr>"

theorem sf_setValue_reopen_witness:
  "\<exists>s' j'. sf_setValue store_platform sample_state_doc init_sf = (Inr (), s') \<and>
     sf_current (snd (sf_open store_platform ''/s/state.json'' default_state_doc s')) = j' \<and>
     stored_as sample_state_doc j' \<and> override_enabled text_json j' ''a'' = Inr (Some False)"
proof -
  let ?pf = store_platform and ?j = sample_state_doc
  have lib: "jlib ?pf = text_json" by (simp add: store_platform_def)
  have "length (print_json ?j) \<le> 1000" by code_simp
  then have w: "files_work ?pf (fst (j_print (jlib ?pf) ?j))"
    by (simp add: files_work_def store_platform_def text_json_def)
  have st: "storable ?j"
    by (simp add: sample_state_doc_def ascii_def char_code_def)
  have ok: "state_doc_ok ?j"
    by (auto simp: sample_state_doc_def state_doc_ok_def entry_ok_def ran_def)
  obtain s' where s': "sf_setValue ?pf ?j init_sf = (Inr (), s')"
    by (simp add: sf_setValue_def sf_write_tmp_eq sf_commit_eq monad_simps Let_def store_platform_def
        written_def text_json_def)
  have "override_enabled text_json ?j ''a'' = Inr (Some False)"
    by (simp add: override_enabled_def sample_state_doc_def text_json_def nl_json_simps)
  then show ?thesis
    using sf_setValue_reopen [where pf = ?pf and j = ?j and s = init_sf and s' = s' and d = default_state_doc]
      text_json_documented text_json_text_documented st ok w s'
    by (force simp: lib init_sf_def)
qed

text \<open>
  C16: after any sequence of \<open>enable\<close> and \<open>disable\<close> updates of a well-formed state document
  every update has succeeded, a label's switch is the last one set, and a label that was not
  touched keeps what it had.
\<close>

theorem override_last_wins:
  assumes "json_documented J" and "state_doc_ok doc"
  shows "\<exists>doc'. upds (override_doc J) doc xs = Inr doc' \<and> state_doc_ok doc' \<and>
    (\<forall>l. override_enabled J doc' l =
       (case map_of (rev xs) l of Some b \<Rightarrow> Inr (Some b) | None \<Rightarrow> override_enabled J doc l))"
  by (rule documented_json.last_wins [OF documented_json.intro [OF assms(1)] assms(2)])

theorem override_last_wins_witness:
  "\<exists>doc'. upds (override_doc nl_json) default_state_doc [(''a'', False), (''b'', True), (''a'', True)] =
     Inr doc' \<and> override_enabled nl_json doc' ''a'' = Inr (Some True)"
  using override_last_wins [OF nl_json_documented default_state_doc_ok,
      of "[(''a'', False), (''b'', True), (''a'', True)]"] by auto

end
