(* ===== verification/Events.thy ===== *)
theory Events
  imports StateFile
begin

text \<open>
  The event layer, \<open>src/event.h\<close>: \<open>KernelEventInterface\<close>, its epoll implementation and
  \<open>kq::EventManager\<close>.

  A \<open>std::function\<close> stored by the event manager is one of the lambdas of the program with the
  values it captures: the datatype \<open>closure\<close>. A captured job is the identity of the \<open>Job\<close>
  object, not its label. What a closure does is an argument of \<open>em_waitForEvent\<close>, supplied by
  the manager, which owns them all.

  The fields of the two implementations stand side by side: \<open>kqfd\<close> belongs to the kqueue
  implementation, which the theory Kqueue holds, and those from \<open>epfd\<close> to \<open>cleanup_fds\<close> to epoll.
\<close>

section \<open>Events and state\<close>

datatype event =
    ProcEvent int int
  | SignalEvent int
  | SocketEvent int
  | TimerEvent int
  | IpcEvent string string

definition EVTYPE_SIGNAL :: int where "EVTYPE_SIGNAL = 1"
definition EVTYPE_SOCKET_READ :: int where "EVTYPE_SOCKET_READ = 2"
definition EVTYPE_TIMER :: int where "EVTYPE_TIMER = 3"
definition EVTYPE_NONE :: int where "EVTYPE_NONE = 32"

lemmas evtype_defs =
  EVTYPE_SIGNAL_def EVTYPE_SOCKET_READ_def EVTYPE_TIMER_def EVTYPE_NONE_def

datatype closure =
    OnSigpipe | OnSigint | OnSigusr1 | OnSigusr2 | OnSigterm
  | OnRpcReadable
  | OnDeleteJob
  | OnProcessExit nat
  | OnThrottleTimer nat
  | OnPeriodicTimer nat

record em_state = sf_state +
  child_status :: "(int \<times> int) list"
  blocked_signals :: "int set"
  pending_events :: "event list"
  kqfd :: int
  epfd :: int
  sigfd :: int
  socket_read_fd :: int
  timer_epfd :: int
  sigmask :: "int set"
  watch_pids :: "int set"
  timerfd_map :: "(int \<times> int) list"
  cleanup_fds :: "int set"
  signal_callbacks :: "int \<rightharpoonup> closure"
  process_callbacks :: "int \<rightharpoonup> closure"
  socket_read_callbacks :: "int \<rightharpoonup> closure"
  timer_callbacks :: "(int \<times> closure) list"
  ipc_callbacks :: "string \<rightharpoonup> closure"
  timer_id_max :: int

section \<open>KernelEventInterface\<close>

definition addPendingEvent :: "event \<Rightarrow> ('a em_state_scheme, unit) M" where
  "addPendingEvent evt = modifyM (\<lambda>s. s\<lparr>pending_events := pending_events s @ [evt]\<rparr>)"

definition getPendingEvent :: "('a em_state_scheme, event option) M" where
  "getPendingEvent =
     bindM (getsM child_status) (\<lambda>cs.
     bindM (getsM pending_events) (\<lambda>q.
     case cs of
       (pid, status) # rest \<Rightarrow>
         thenM (modifyM (\<lambda>s. s\<lparr>child_status := rest\<rparr>)) (returnM (Some (ProcEvent pid status)))
     | [] \<Rightarrow>
         (case q of
            evt # rest \<Rightarrow>
              thenM (modifyM (\<lambda>s. s\<lparr>pending_events := rest\<rparr>)) (returnM (Some evt))
          | [] \<Rightarrow> returnM None)))"

section \<open>The epoll implementation\<close>

definition sys_error :: "int \<Rightarrow> string \<Rightarrow> ('s, 'a) M" where
  "sys_error err what = throwM (SystemError err what)"

definition epollCreate :: "platform \<Rightarrow> ('a em_state_scheme, int) M" where
  "epollCreate pf =
     bindM (callM pf (Evt SysEpollCreate)) (\<lambda>(fd, err).
     if fd < 0 then sys_error err ''epoll_create()''
     else
       bindM (callM pf (Proc (SysFcntlCloexec fd))) (\<lambda>(rv, err).
       if rv < 0 then thenM (callM pf (Proc (SysClose fd))) (sys_error err ''fcntl()'')
       else returnM fd))"

definition epollAdd :: "platform \<Rightarrow> int \<Rightarrow> int \<Rightarrow> ('a em_state_scheme, unit) M" where
  "epollAdd pf child_fd evtype =
     bindM (getsM epfd) (\<lambda>ep.
     bindM (callM pf (Evt (SysEpollAdd ep child_fd (PayU32 evtype)))) (\<lambda>(rv, err).
     if rv < 0 then sys_error err ''epoll_ctl()'' else returnM ()))"

text \<open>\<open>changeSignalMask\<close> makes one call, on a set of one signal; the result is not looked at.\<close>

datatype mask_how = SIG_BLOCK | SIG_UNBLOCK

fun mask_call :: "mask_how \<Rightarrow> int \<Rightarrow> event_call" where
  "mask_call SIG_BLOCK signum = SysBlock signum"
| "mask_call SIG_UNBLOCK signum = SysUnblock {signum}"

definition monitorSignal :: "platform \<Rightarrow> int \<Rightarrow> ('a em_state_scheme, unit) M" where
  "monitorSignal pf signum =
     thenM (modifyM (\<lambda>s. s\<lparr>sigmask := insert signum (sigmask s)\<rparr>))
    (bindM (getsM (\<lambda>s. (sigfd s, sigmask s))) (\<lambda>(fd, mask).
     bindM (callM pf (Evt (SysSignalfd fd mask))) (\<lambda>(rv, err).
     if rv < 0 then sys_error err ''signalfd()''
     else
       thenM (callM pf (Evt (mask_call SIG_BLOCK signum)))
             (modifyM (\<lambda>s. s\<lparr>blocked_signals := insert signum (blocked_signals s)\<rparr>)))))"

definition unblockSignal :: "platform \<Rightarrow> int \<Rightarrow> ('a em_state_scheme, unit) M" where
  "unblockSignal pf signum =
     thenM (callM pf (Evt (mask_call SIG_UNBLOCK signum)))
           (modifyM (\<lambda>s. s\<lparr>blocked_signals := blocked_signals s - {signum}\<rparr>))"

definition unblockAllSignals :: "platform \<Rightarrow> ('a em_state_scheme, unit) M" where
  "unblockAllSignals pf =
     bindM (getsM blocked_signals) (\<lambda>mask.
     thenM (callM pf (Evt (SysUnblock mask)))
           (modifyM (\<lambda>s. s\<lparr>blocked_signals := {}\<rparr>)))"

definition ignoreSignal :: "platform \<Rightarrow> int \<Rightarrow> ('a em_state_scheme, unit) M" where
  "ignoreSignal pf signum =
     thenM (modifyM (\<lambda>s. s\<lparr>sigmask := sigmask s - {signum}\<rparr>))
    (bindM (getsM (\<lambda>s. (sigfd s, sigmask s))) (\<lambda>(fd, mask).
     bindM (callM pf (Evt (SysSignalfd fd mask))) (\<lambda>(rv, err).
     if rv < 0 then sys_error err ''signalfd()'' else unblockSignal pf signum)))"

definition add_cleanup :: "int \<Rightarrow> ('a em_state_scheme, unit) M" where
  "add_cleanup fd = modifyM (\<lambda>s. s\<lparr>cleanup_fds := insert fd (cleanup_fds s)\<rparr>)"

text \<open>The members of \<open>KernelEventInterface\<close> and \<open>EpollImplementation\<close> as they are declared.\<close>

definition init_epoll :: "('a em_state_scheme, unit) M" where
  "init_epoll = modifyM (\<lambda>s. s\<lparr>child_status := [], blocked_signals := {}, pending_events := [],
     watch_pids := {}, timerfd_map := [], cleanup_fds := {}\<rparr>)"

definition mk_epoll :: "platform \<Rightarrow> ('a em_state_scheme, unit) M" where
  "mk_epoll pf =
     thenM init_epoll
    (bindM (epollCreate pf) (\<lambda>ep.
     thenM (modifyM (\<lambda>s. s\<lparr>epfd := ep, sigmask := {}\<rparr>))
    (thenM (add_cleanup ep)
    (bindM (callM pf (Evt (SysSignalfd (- 1) {}))) (\<lambda>(sfd, err).
     if sfd < 0 then sys_error err ''signalfd()''
     else
       thenM (modifyM (\<lambda>s. s\<lparr>sigfd := sfd\<rparr>))
      (thenM (add_cleanup sfd)
      (thenM (epollAdd pf sfd EVTYPE_SIGNAL)
      (thenM (monitorSignal pf SIGCHLD)
      (bindM (epollCreate pf) (\<lambda>srfd.
       thenM (modifyM (\<lambda>s. s\<lparr>socket_read_fd := srfd\<rparr>))
      (thenM (add_cleanup srfd)
      (thenM (epollAdd pf srfd EVTYPE_SOCKET_READ)
      (bindM (epollCreate pf) (\<lambda>tep.
       thenM (modifyM (\<lambda>s. s\<lparr>timer_epfd := tep\<rparr>))
      (thenM (add_cleanup tep)
             (epollAdd pf tep EVTYPE_TIMER))))))))))))))))"

text \<open>The order of an \<open>unordered_set\<close> is not specified; the descriptors are taken in ascending order.\<close>

definition destroy_epoll :: "platform \<Rightarrow> ('a em_state_scheme, unit) M" where
  "destroy_epoll pf =
     bindM (getsM cleanup_fds) (\<lambda>fds.
     thenM (forM (sorted_list_of_set fds) (\<lambda>fd.
              thenM (callM pf (Proc (SysClose fd))) (returnM ())))
           (unblockAllSignals pf))"

definition waitForProcess :: "platform \<Rightarrow> int \<Rightarrow> ('a em_state_scheme, int) M" where
  "waitForProcess pf pid =
     bindM (sysM (Proc (SysWaitpidNohang pid))
       (\<lambda>h. (fst (sys_int pf h (Proc (SysWaitpidNohang pid))), sys_wait_status pf h))) (\<lambda>(rv, wstatus).
     returnM (if rv = 0 \<or> rv = - 1 then - 1 else wstatus))"

definition handleFork :: "platform \<Rightarrow> ('a em_state_scheme, unit) M" where
  "handleFork pf = unblockAllSignals pf"

definition monitorChildProcess :: "platform \<Rightarrow> int \<Rightarrow> ('a em_state_scheme, unit) M" where
  "monitorChildProcess pf pid =
     bindM (callM pf (Proc (SysKill pid 0))) (\<lambda>(rv, err).
     if rv \<noteq> 0 then
       (if err = ESRCH then throwM ProcessNotFound else sys_error err ''kill()'')
     else modifyM (\<lambda>s. s\<lparr>watch_pids := insert pid (watch_pids s)\<rparr>))"

definition ignoreChildProcess :: "int \<Rightarrow> ('a em_state_scheme, unit) M" where
  "ignoreChildProcess pid = modifyM (\<lambda>s. s\<lparr>watch_pids := watch_pids s - {pid}\<rparr>)"

definition monitorSocketRead :: "platform \<Rightarrow> int \<Rightarrow> ('a em_state_scheme, unit) M" where
  "monitorSocketRead pf sockfd =
     bindM (getsM socket_read_fd) (\<lambda>ep.
     bindM (callM pf (Evt (SysEpollAdd ep sockfd (PayFd sockfd)))) (\<lambda>(rv, err).
     if rv < 0 then sys_error err ''epoll_ctl()'' else returnM ()))"

definition ignoreSocketRead :: "platform \<Rightarrow> int \<Rightarrow> ('a em_state_scheme, unit) M" where
  "ignoreSocketRead pf sockfd =
     bindM (getsM socket_read_fd) (\<lambda>ep.
     bindM (callM pf (Evt (SysEpollDel ep sockfd))) (\<lambda>(rv, err).
     if rv < 0 then sys_error err ''epoll_ctl()'' else returnM ()))"

text \<open>
  The argument is a \<open>uint64_t\<close>; the seconds and nanoseconds are stored in an \<open>int\<close>.
\<close>

definition timer_spec :: "64 word \<Rightarrow> int \<times> int" where
  "timer_spec milliseconds =
     (sint (ucast (milliseconds div 1000) :: 32 word),
      sint (ucast ((milliseconds mod 1000) * 1000000) :: 32 word))"

definition monitorTimer :: "platform \<Rightarrow> int \<Rightarrow> 64 word \<Rightarrow> ('a em_state_scheme, unit) M" where
  "monitorTimer pf timer_id milliseconds =
     bindM (callM pf (Evt SysTimerfdCreate)) (\<lambda>(tfd, err).
     if tfd < 0 then sys_error err ''signalfd()''
     else
       thenM (add_cleanup tfd)
      (bindM (callM pf (Evt (SysTimerfdSettime tfd (fst (timer_spec milliseconds))
         (snd (timer_spec milliseconds))))) (\<lambda>(rv, err).
       if rv < 0 then sys_error err ''timerfd_settime()''
       else
         bindM (getsM timer_epfd) (\<lambda>ep.
         bindM (callM pf (Evt (SysEpollAdd ep tfd (PayU32 tfd)))) (\<lambda>(rv, err).
         if rv < 0 then sys_error err ''timerfd_settime()''
         else modifyM (\<lambda>s. s\<lparr>timerfd_map := alist_insert timer_id tfd (timerfd_map s)\<rparr>))))))"

text \<open>The timer's descriptor is looked for in \<open>epfd\<close>, although \<open>monitorTimer\<close> added it to
  \<open>timer_epfd\<close>.\<close>

definition ignoreTimer :: "platform \<Rightarrow> int \<Rightarrow> ('a em_state_scheme, unit) M" where
  "ignoreTimer pf timer_id =
     bindM (getsM timerfd_map) (\<lambda>m.
     case map_of m timer_id of
       None \<Rightarrow> throwM (OutOfRange ''timerfd_map'')
     | Some tfd \<Rightarrow>
         bindM (getsM epfd) (\<lambda>ep.
         bindM (callM pf (Evt (SysEpollDel ep tfd))) (\<lambda>(rv, saved_errno).
         thenM (callM pf (Proc (SysClose tfd)))
        (thenM (modifyM (\<lambda>s. s\<lparr>timerfd_map := AList.delete timer_id (timerfd_map s),
                 cleanup_fds := cleanup_fds s - {tfd}\<rparr>))
               (if rv < 0 then sys_error saved_errno ''epoll_ctl()'' else returnM ())))))"

section \<open>Waiting for an event\<close>

definition epollGetOne :: "platform \<Rightarrow> int \<Rightarrow> int option \<Rightarrow> ('a em_state_scheme, epoll_payload option) M" where
  "epollGetOne pf fd timeout =
     (let c = Evt (SysEpollWait fd (case timeout of Some t \<Rightarrow> t | None \<Rightarrow> - 1)) in
      bindM (sysM c (\<lambda>h. (sys_int pf h c, sys_epoll_event pf h fd))) (\<lambda>((rv, err), ev).
      if rv > 0 then returnM (Some ev)
      else if rv = 0 then returnM None
      else sys_error err ''epoll_wait()''))"

fun payload_int :: "epoll_payload \<Rightarrow> int" where
  "payload_int (PayU32 n) = n"
| "payload_int (PayFd n) = n"

definition sizeof_siginfo :: int where "sizeof_siginfo = 128"

text \<open>
  The two loops of \<open>getSignalEvents\<close>: read the queued signals, then reap every zombie. The
  fuel is \<open>loop_bound\<close>; a loop that has not ended by then is \<open>Hang\<close>.
\<close>

primrec read_signals :: "nat \<Rightarrow> platform \<Rightarrow> bool \<Rightarrow> ('a em_state_scheme, bool) M" where
  "read_signals 0 pf sigchild_seen = failM Hang"
| "read_signals (Suc n) pf sigchild_seen =
     bindM (getsM sigfd) (\<lambda>fd.
     bindM (sysM (Evt (SysReadSiginfo fd))
       (\<lambda>h. (sys_int pf h (Evt (SysReadSiginfo fd)), sys_siginfo pf h fd))) (\<lambda>((rv, err), signo).
     if rv \<noteq> sizeof_siginfo then
       (if err = EAGAIN then returnM sigchild_seen else sys_error err ''read()'')
     else if signo = SIGCHLD then read_signals n pf True
     else thenM (addPendingEvent (SignalEvent signo)) (read_signals n pf sigchild_seen)))"

primrec reap_children :: "nat \<Rightarrow> platform \<Rightarrow> ('a em_state_scheme, unit) M" where
  "reap_children 0 pf = failM Hang"
| "reap_children (Suc n) pf =
     bindM (sysM (Proc (SysWaitpidNohang (- 1)))
       (\<lambda>h. (sys_int pf h (Proc (SysWaitpidNohang (- 1))), sys_wait_status pf h)))
       (\<lambda>((pid, err), status).
     if pid = 0 then returnM ()
     else if pid < 0 then
       (if err = ECHILD then returnM () else sys_error err ''waitpid()'')
     else
       bindM (getsM watch_pids) (\<lambda>w.
       thenM (whenM (pid \<in> w)
               (thenM (addPendingEvent (ProcEvent pid status))
                      (modifyM (\<lambda>s. s\<lparr>watch_pids := watch_pids s - {pid}\<rparr>))))
             (reap_children n pf)))"

definition getSignalEvents :: "platform \<Rightarrow> ('a em_state_scheme, unit) M" where
  "getSignalEvents pf =
     bindM (read_signals (loop_bound pf) pf False) (\<lambda>sigchild_seen.
     whenM sigchild_seen (reap_children (loop_bound pf) pf))"

definition sizeof_expired :: int where "sizeof_expired = 8"

text \<open>The body of the switch: \<open>Some e\<close> when the function returns, \<open>None\<close> on \<open>break\<close>.\<close>

definition wait_timer :: "platform \<Rightarrow> int option \<Rightarrow> ('a em_state_scheme, event option) M" where
  "wait_timer pf timeout =
     bindM (getsM timer_epfd) (\<lambda>ep.
     bindM (epollGetOne pf ep timeout) (\<lambda>ev.
     case ev of
       None \<Rightarrow> returnM None
     | Some e \<Rightarrow>
         (let fd = payload_int e in
          bindM (callM pf (Evt (SysReadTimer fd))) (\<lambda>(n, err).
          if n \<noteq> sizeof_expired then
            (if err = EAGAIN then returnM None else sys_error err ''read()'')
          else
            bindM (getsM timerfd_map) (\<lambda>m.
            case filter (\<lambda>p. snd p = fd) m of
              (timer_id, _) # _ \<Rightarrow> returnM (Some (TimerEvent timer_id))
            | [] \<Rightarrow> throwM (RangeError ''timer FD does not match any known timer IDs''))))))"

definition wait_switch :: "platform \<Rightarrow> int option \<Rightarrow> int \<Rightarrow> ('a em_state_scheme, event option) M" where
  "wait_switch pf timeout evtype =
     (if evtype = EVTYPE_NONE then returnM None
      else if evtype = EVTYPE_SIGNAL then
        thenM (getSignalEvents pf)
       (bindM (getsM pending_events) (\<lambda>q.
        case q of
          evt # rest \<Rightarrow> thenM (modifyM (\<lambda>s. s\<lparr>pending_events := rest\<rparr>)) (returnM (Some evt))
        | [] \<Rightarrow> returnM None))
      else if evtype = EVTYPE_SOCKET_READ then
        bindM (getsM socket_read_fd) (\<lambda>ep.
        bindM (epollGetOne pf ep timeout) (\<lambda>ev.
        returnM (map_option (\<lambda>e. SocketEvent (payload_int e)) ev)))
      else if evtype = EVTYPE_TIMER then wait_timer pf timeout
      else throwM (RangeError ''invalid filter''))"

primrec wait_loop :: "nat \<Rightarrow> platform \<Rightarrow> int option \<Rightarrow> ('a em_state_scheme, event option) M" where
  "wait_loop 0 pf timeout = failM Hang"
| "wait_loop (Suc n) pf timeout =
     bindM (getsM epfd) (\<lambda>ep.
     bindM (epollGetOne pf ep timeout) (\<lambda>maybe_event.
     bindM (wait_switch pf timeout
              (case maybe_event of Some e \<Rightarrow> payload_int e | None \<Rightarrow> EVTYPE_NONE)) (\<lambda>r.
     case r of
       Some e \<Rightarrow> returnM (Some e)
     | None \<Rightarrow> if timeout \<noteq> None then returnM None else wait_loop n pf timeout)))"

definition epoll_waitForEvent :: "platform \<Rightarrow> int option \<Rightarrow> ('a em_state_scheme, event option) M" where
  "epoll_waitForEvent pf timeout =
     bindM getPendingEvent (\<lambda>result.
     case result of
       Some e \<Rightarrow> returnM (Some e)
     | None \<Rightarrow> wait_loop (loop_bound pf) pf timeout)"

section \<open>EventManager\<close>

definition mk_event_manager :: "platform \<Rightarrow> ('a em_state_scheme, unit) M" where
  "mk_event_manager pf =
     thenM (modifyM (\<lambda>s. s\<lparr>signal_callbacks := Map.empty, process_callbacks := Map.empty,
              socket_read_callbacks := Map.empty, timer_callbacks := [], ipc_callbacks := Map.empty,
              timer_id_max := 0\<rparr>))
           (mk_epoll pf)"

definition addSignal :: "platform \<Rightarrow> int \<Rightarrow> closure \<Rightarrow> ('a em_state_scheme, unit) M" where
  "addSignal pf signum callback =
     thenM (monitorSignal pf signum)
           (modifyM (\<lambda>s. s\<lparr>signal_callbacks := map_insert (signal_callbacks s) signum callback\<rparr>))"

definition addProcess :: "platform \<Rightarrow> int \<Rightarrow> closure \<Rightarrow> ('a em_state_scheme, unit) M" where
  "addProcess pf pid callback =
     thenM (monitorChildProcess pf pid)
           (modifyM (\<lambda>s. s\<lparr>process_callbacks := map_insert (process_callbacks s) pid callback\<rparr>))"

definition deleteProcess :: "int \<Rightarrow> ('a em_state_scheme, unit) M" where
  "deleteProcess pid =
     thenM (ignoreChildProcess pid)
           (modifyM (\<lambda>s. s\<lparr>process_callbacks := (process_callbacks s)(pid := None)\<rparr>))"

definition deleteTimer :: "platform \<Rightarrow> int \<Rightarrow> ('a em_state_scheme, unit) M" where
  "deleteTimer pf timer_id =
     thenM (ignoreTimer pf timer_id)
           (modifyM (\<lambda>s. s\<lparr>timer_callbacks := AList.delete timer_id (timer_callbacks s)\<rparr>))"

definition addSocketRead :: "platform \<Rightarrow> int \<Rightarrow> closure \<Rightarrow> ('a em_state_scheme, unit) M" where
  "addSocketRead pf sd callback =
     thenM (monitorSocketRead pf sd)
           (modifyM (\<lambda>s. s\<lparr>socket_read_callbacks := map_insert (socket_read_callbacks s) sd callback\<rparr>))"

definition deleteSocketRead :: "platform \<Rightarrow> int \<Rightarrow> ('a em_state_scheme, unit) M" where
  "deleteSocketRead pf sd =
     thenM (ignoreSocketRead pf sd)
           (modifyM (\<lambda>s. s\<lparr>socket_read_callbacks := (socket_read_callbacks s)(sd := None)\<rparr>))"

text \<open>
  \<open>while (timer_callbacks.count(++timer_id_max)) timer_id_max++;\<close> ends because the table is
  finite: the number of keys above the counter shrinks.
\<close>

function next_timer_id :: "(int \<times> closure) list \<Rightarrow> int \<Rightarrow> int" where
  "next_timer_id m id_max =
     (if id_max + 1 \<in> fst ` set m then next_timer_id m (id_max + 2) else id_max + 1)"
  by pat_completeness auto
termination
proof (relation "measure (\<lambda>(m, i). card {k \<in> fst ` set m. i < k})")
  fix m :: "(int \<times> closure) list" and i :: int
  assume "i + 1 \<in> fst ` set m"
  then have "i + 1 \<in> {k \<in> fst ` set m. i < k} - {k \<in> fst ` set m. i + 2 < k}" by simp
  moreover have "{k \<in> fst ` set m. i + 2 < k} \<subseteq> {k \<in> fst ` set m. i < k}" by auto
  ultimately have "{k \<in> fst ` set m. i + 2 < k} \<subset> {k \<in> fst ` set m. i < k}" by blast
  then show "((m, i + 2), (m, i)) \<in> measure (\<lambda>(m, i). card {k \<in> fst ` set m. i < k})"
    by (simp add: psubset_card_mono)
qed simp

declare next_timer_id.simps [simp del]

definition INT_MAX :: int where "INT_MAX = 2 ^ 31 - 1"

definition getNextTimerId :: "('a em_state_scheme, int) M" where
  "getNextTimerId =
     bindM (getsM (\<lambda>s. next_timer_id (timer_callbacks s) (timer_id_max s))) (\<lambda>i.
     if i > INT_MAX then failM (Undefined ''signed overflow of timer_id_max'')
     else thenM (modifyM (\<lambda>s. s\<lparr>timer_id_max := i\<rparr>)) (returnM i))"

text \<open>\<open>milliseconds.count()\<close> is a signed 64-bit number, passed where a \<open>uint64_t\<close> is expected.\<close>

definition addTimer :: "platform \<Rightarrow> int \<Rightarrow> closure \<Rightarrow> ('a em_state_scheme, int) M" where
  "addTimer pf milliseconds callback =
     bindM getNextTimerId (\<lambda>timer_id.
     thenM (monitorTimer pf timer_id (word_of_int milliseconds))
    (thenM (modifyM (\<lambda>s. s\<lparr>timer_callbacks := alist_insert timer_id callback (timer_callbacks s)\<rparr>))
           (returnM timer_id)))"

definition addIpcMethod :: "string \<Rightarrow> closure \<Rightarrow> ('a em_state_scheme, unit) M" where
  "addIpcMethod name callback =
     modifyM (\<lambda>s. s\<lparr>ipc_callbacks := map_insert (ipc_callbacks s) name callback\<rparr>)"

definition submitIpcCallback :: "string \<Rightarrow> string \<Rightarrow> ('a em_state_scheme, unit) M" where
  "submitIpcCallback method arg = addPendingEvent (IpcEvent method arg)"

definition callback_of :: "('k \<rightharpoonup> closure) \<Rightarrow> 'k \<Rightarrow> ('s, closure) M" where
  "callback_of m k = (case m k of None \<Rightarrow> throwM (OutOfRange ''callbacks'') | Some c \<Rightarrow> returnM c)"

text \<open>
  The dispatch of one event. \<open>run c e\<close> calls the closure \<open>c\<close> with the data of \<open>e\<close>.
\<close>

fun dispatch_event :: "(closure \<Rightarrow> event \<Rightarrow> ('a em_state_scheme, unit) M) \<Rightarrow> event \<Rightarrow>
    ('a em_state_scheme, unit) M" where
  "dispatch_event run (IpcEvent method arg) =
     bindM (getsM ipc_callbacks) (\<lambda>m.
     bindM (callback_of m method) (\<lambda>callback. run callback (IpcEvent method arg)))"
| "dispatch_event run (SignalEvent signum) =
     bindM (getsM signal_callbacks) (\<lambda>m.
     bindM (callback_of m signum) (\<lambda>callback. run callback (SignalEvent signum)))"
| "dispatch_event run (ProcEvent pid status) =
     bindM (getsM process_callbacks) (\<lambda>m.
     bindM (callback_of m pid) (\<lambda>callback.
     thenM (run callback (ProcEvent pid status)) (deleteProcess pid)))"
| "dispatch_event run (SocketEvent sockfd) =
     bindM (getsM socket_read_callbacks) (\<lambda>m.
     bindM (callback_of m sockfd) (\<lambda>callback. run callback (SocketEvent sockfd)))"
| "dispatch_event run (TimerEvent timer_id) =
     bindM (getsM timer_callbacks) (\<lambda>m.
     bindM (callback_of (map_of m) timer_id) (\<lambda>callback. run callback (TimerEvent timer_id)))"

definition em_waitForEvent :: "platform \<Rightarrow> (closure \<Rightarrow> event \<Rightarrow> ('a em_state_scheme, unit) M) \<Rightarrow>
    int option \<Rightarrow> ('a em_state_scheme, unit) M" where
  "em_waitForEvent pf run timeout =
     bindM (epoll_waitForEvent pf timeout) (\<lambda>maybe_event.
     case maybe_event of None \<Rightarrow> returnM () | Some e \<Rightarrow> dispatch_event run e)"

section \<open>What the event layer leaves alone\<close>

text \<open>
  \<open>em_indep I\<close>: the predicate \<open>I\<close> looks only at the part of the state that extends the event
  manager's. Every operation of the event layer keeps such a predicate.
\<close>

definition em_indep :: "('a em_state_scheme \<Rightarrow> bool) \<Rightarrow> bool" where
  "em_indep I \<longleftrightarrow> (\<forall>s t. em_state.more s = em_state.more t \<longrightarrow> I s \<longrightarrow> I t)"

lemma em_indepD: "em_indep I \<Longrightarrow> I s \<Longrightarrow> em_state.more s = em_state.more t \<Longrightarrow> I t"
  unfolding em_indep_def by blast

lemma preserves_em_modify:
  "em_indep I \<Longrightarrow> (\<And>s. em_state.more (f s) = em_state.more s) \<Longrightarrow> preserves I (modifyM f)"
  by (rule preserves_modifyM) (rule em_indepD, auto)

text \<open>
  \<open>sys_indep I\<close>: the predicate \<open>I\<close> looks at most at the tables of callbacks, the queued calls of
  methods and the part that extends the event manager's. A system call keeps such a predicate.
\<close>

fun is_ipc :: "event \<Rightarrow> bool" where
  "is_ipc (IpcEvent method arg) = True"
| "is_ipc _ = False"

definition em_tables :: "'a em_state_scheme \<Rightarrow> (int \<rightharpoonup> closure) \<times> (int \<rightharpoonup> closure) \<times> (int \<rightharpoonup> closure) \<times>
    (int \<times> closure) list \<times> (string \<rightharpoonup> closure) \<times> int \<times> 'a" where
  "em_tables s = (signal_callbacks s, process_callbacks s, socket_read_callbacks s, timer_callbacks s,
     ipc_callbacks s, timer_id_max s, em_state.more s)"

definition queued_calls :: "'a em_state_scheme \<Rightarrow> event list" where
  "queued_calls s = filter is_ipc (pending_events s)"

definition sys_indep :: "('a em_state_scheme \<Rightarrow> bool) \<Rightarrow> bool" where
  "sys_indep I \<longleftrightarrow> (\<forall>s t. em_tables s = em_tables t \<longrightarrow> queued_calls s = queued_calls t \<longrightarrow> I s \<longrightarrow> I t)"

lemma em_more_tables: "em_tables s = em_tables t \<Longrightarrow> em_state.more s = em_state.more t"
  by (simp add: em_tables_def)

lemma sys_indep_em: "em_indep I \<Longrightarrow> sys_indep I"
  unfolding sys_indep_def em_indep_def by (blast intro: em_more_tables)

lemma sys_indepD: "sys_indep I \<Longrightarrow> I s \<Longrightarrow> em_tables s = em_tables t \<Longrightarrow> queued_calls s = queued_calls t \<Longrightarrow> I t"
  unfolding sys_indep_def by blast

lemma preserves_sys_modify:
  "sys_indep I \<Longrightarrow> (\<And>s. em_tables (f s) = em_tables s) \<Longrightarrow> (\<And>s. queued_calls (f s) = queued_calls s) \<Longrightarrow>
   preserves I (modifyM f)"
  by (rule preserves_modifyM) (erule (1) sys_indepD; simp)

lemma preserves_sys_sysM: "sys_indep I \<Longrightarrow> preserves I (sysM c f)"
  by (rule preserves_sysM) (erule (1) sys_indepD; simp add: em_tables_def queued_calls_def)

lemma preserves_sys_callM: "sys_indep I \<Longrightarrow> preserves I (callM pf c)"
  by (simp add: callM_def preserves_sys_sysM)

lemma preserves_sys_time: "sys_indep I \<Longrightarrow> preserves I (current_time pf)"
  by (rule preserves_current_time) (erule (1) sys_indepD; simp add: em_tables_def queued_calls_def)

lemma preserves_sys_error: "preserves I (sys_error e w)"
  by (simp add: sys_error_def preserves_throwM)

lemma preserves_callback_of: "preserves I (callback_of m k)"
  by (simp add: callback_of_def preserves_throwM preserves_returnM split: option.split)

lemmas preserves_em_basic =
  preserves_em_modify preserves_sys_sysM preserves_sys_callM preserves_sys_time preserves_sys_error
  sys_indep_em
  preserves_callback_of
  preserves_returnM preserves_failM preserves_throwM preserves_getsM preserves_liftE
  preserves_assertM preserves_c_assert preserves_bindM preserves_thenM preserves_whenM
  preserves_if preserves_option preserves_prod preserves_sum preserves_catchM
  preserves_noexceptM preserves_forM preserves_foldM

lemmas em_timer_defs =
  addTimer_def deleteTimer_def getNextTimerId_def monitorTimer_def ignoreTimer_def add_cleanup_def

lemma preserves_addTimer: "em_indep I \<Longrightarrow> preserves I (addTimer pf ms c)"
  unfolding em_timer_defs by (assumption | rule preserves_em_basic | simp)+

lemma preserves_deleteTimer: "em_indep I \<Longrightarrow> preserves I (deleteTimer pf t)"
  unfolding em_timer_defs by (assumption | rule preserves_em_basic | simp)+

lemma preserves_addProcess: "em_indep I \<Longrightarrow> preserves I (addProcess pf p c)"
  unfolding addProcess_def monitorChildProcess_def
  by (assumption | rule preserves_em_basic | simp)+

lemma preserves_deleteProcess: "em_indep I \<Longrightarrow> preserves I (deleteProcess p)"
  unfolding deleteProcess_def ignoreChildProcess_def
  by (assumption | rule preserves_em_basic | simp)+

lemma preserves_submitIpcCallback: "em_indep I \<Longrightarrow> preserves I (submitIpcCallback m a)"
  unfolding submitIpcCallback_def addPendingEvent_def
  by (assumption | rule preserves_em_basic | simp)+

lemma preserves_handleFork: "sys_indep I \<Longrightarrow> preserves I (handleFork pf)"
  unfolding handleFork_def unblockAllSignals_def
  by (assumption | rule preserves_sys_modify preserves_sys_sysM preserves_sys_callM preserves_bindM preserves_thenM preserves_getsM | simp add: em_tables_def queued_calls_def)+

lemmas preserves_em_ops =
  preserves_addTimer preserves_deleteTimer preserves_addProcess preserves_deleteProcess
  preserves_submitIpcCallback preserves_handleFork

section \<open>Timers\<close>

text \<open>The search for an identifier ends above the counter, outside the table.\<close>

lemma next_timer_id_bounds:
  "next_timer_id m i \<notin> fst ` set m \<and> i < next_timer_id m i \<and>
   next_timer_id m i \<le> i + 1 + 2 * int (card {k \<in> fst ` set m. i < k})"
proof (induction m i rule: next_timer_id.induct)
  case (1 m i)
  show ?case
  proof (cases "i + 1 \<in> fst ` set m")
    case True
    let ?A = "\<lambda>i. {k \<in> fst ` set m. i < k}"
    have "i + 1 \<in> ?A i - ?A (i + 2)" using True by simp
    moreover have "?A (i + 2) \<subseteq> ?A i" by auto
    ultimately have "?A (i + 2) \<subset> ?A i" by blast
    then have "card (?A (i + 2)) < card (?A i)" by (intro psubset_card_mono) auto
    then show ?thesis
      using 1 True by (simp add: next_timer_id.simps [of m i])
  next
    case False
    then show ?thesis by (simp add: next_timer_id.simps [of m i])
  qed
qed

definition init_em :: em_state where
  "init_em = \<lparr>trace = [], disk = Map.empty, sf_path = ''/s/state.json'',
     sf_default = default_state_doc, sf_current = default_state_doc,
     child_status = [], blocked_signals = {}, pending_events = [], kqfd = - 1, epfd = 20, sigfd = 21,
     socket_read_fd = 22, timer_epfd = 23, sigmask = {}, watch_pids = {}, timerfd_map = [],
     cleanup_fds = {}, signal_callbacks = Map.empty, process_callbacks = Map.empty,
     socket_read_callbacks = Map.empty, timer_callbacks = [], ipc_callbacks = Map.empty,
     timer_id_max = 0\<rparr>"

text \<open>
  A new timer gets an identifier that no registered timer has, above every identifier handed
  out before, and the table then maps it to its callback and is otherwise unchanged.
\<close>

theorem addTimer_fresh:
  assumes "addTimer pf ms c s = (Inr t, s')"
  shows "map_of (timer_callbacks s) t = None \<and> timer_id_max s < t \<and> t \<le> INT_MAX \<and>
    timer_id_max s' = t \<and> map_of (timer_callbacks s') = (map_of (timer_callbacks s))(t \<mapsto> c)"
proof -
  let ?t = "next_timer_id (timer_callbacks s) (timer_id_max s)"
  have "map_of (timer_callbacks s) ?t = None" and "timer_id_max s < ?t"
    using next_timer_id_bounds [of "timer_callbacks s" "timer_id_max s"]
    by (auto simp: map_of_eq_None_iff)
  then show ?thesis
    using assms
    by (auto simp: em_timer_defs monad_simps sys_error_def map_of_alist_insert map_insert_fresh
        split: if_splits prod.splits)
qed

theorem addTimer_fresh_witness:
  "\<exists>s'. addTimer null_platform 1500 OnSigint init_em = (Inr 1, s') \<and> timer_id_max s' = 1"
proof -
  have n: "next_timer_id [] 0 = 1" by (simp add: next_timer_id.simps)
  obtain s' where s': "addTimer null_platform 1500 OnSigint init_em = (Inr 1, s')"
    by (simp add: em_timer_defs monad_simps null_platform_def init_em_def n INT_MAX_def)
  show ?thesis using addTimer_fresh [OF s'] s' by blast
qed

text \<open>
  Within 2^31 seconds the timer descriptor is armed for exactly the time asked for, split into
  seconds and nanoseconds; a longer delay does not fit the \<open>int\<close> fields.
\<close>

theorem timer_spec_exact:
  assumes "0 \<le> ms" and "ms < 2 ^ 31 * 1000"
  shows "timer_spec (word_of_int ms) = (ms div 1000, (ms mod 1000) * 1000000)"
proof -
  let ?w = "word_of_int ms :: 64 word"
  have w: "uint ?w = ms" using assms by (simp add: uint_word_of_int take_bit_int_eq_self)
  have d: "uint (?w div 1000) = ms div 1000"
    by (simp add: uint_div w)
  have m: "uint (?w mod 1000) = ms mod 1000"
    by (simp add: uint_mod w)
  have p: "uint ((?w mod 1000) * 1000000) = (ms mod 1000) * 1000000"
  proof -
    have b: "0 \<le> ms mod 1000" "ms mod 1000 < 1000" by simp_all
    have "uint ((?w mod 1000) * 1000000) = (uint (?w mod 1000) * uint (1000000 :: 64 word)) mod 2 ^ 64"
      by (simp add: uint_word_ariths)
    then show ?thesis using b by (simp add: m)
  qed
  have "ms div 1000 < 2 ^ 31" using assms by simp
  moreover have "(ms mod 1000) * 1000000 < 2 ^ 31"
  proof -
    have "ms mod 1000 < 1000" by simp
    then show ?thesis by simp
  qed
  ultimately show ?thesis
    by (simp add: timer_spec_def sint_ucast_small d p)
qed

theorem timer_spec_exact_witness:
  "timer_spec (word_of_int 10500) = (10, 500000000) \<and> timer_spec (word_of_int 0) = (0, 0)"
  using timer_spec_exact [of 10500] timer_spec_exact [of 0] by simp

text \<open>
  The documented answer of \<open>epoll_ctl(EPOLL_CTL_DEL)\<close> for a descriptor that was never added to
  the epoll instance.
\<close>

definition epoll_del_documented :: "platform \<Rightarrow> bool" where
  "epoll_del_documented pf \<longleftrightarrow>
     (\<forall>h ep fd. (\<forall>p. Evt (SysEpollAdd ep fd p) \<notin> set h) \<longrightarrow>
        sys_int pf h (Evt (SysEpollDel ep fd)) = (- 1, ENOENT))"

text \<open>
  Deleting a timer always fails on Linux: the descriptor is removed from an epoll instance it
  was never added to, so \<open>ENOENT\<close> is thrown, after the descriptor is closed and forgotten, and the
  callback stays in the table.
\<close>

theorem deleteTimer_fails:
  assumes "epoll_del_documented pf" and "map_of (timerfd_map s) t = Some tfd"
    and "\<forall>p. Evt (SysEpollAdd (epfd s) tfd p) \<notin> set (trace s)"
  shows "fst (deleteTimer pf t s) = Inl (Throw (SystemError ENOENT ''epoll_ctl()'')) \<and>
    timer_callbacks (snd (deleteTimer pf t s)) = timer_callbacks s \<and>
    map_of (timerfd_map (snd (deleteTimer pf t s))) t = None"
  using assms by (simp add: deleteTimer_def ignoreTimer_def monad_simps epoll_del_documented_def
      sys_error_def split_beta AList.delete_conv)

definition linux_platform :: platform where
  "linux_platform = null_platform\<lparr>sys_int := (\<lambda>h c.
     case c of
       Evt (SysEpollDel ep fd) \<Rightarrow>
         if \<exists>e \<in> set h. case e of Evt (SysEpollAdd ep' fd' _) \<Rightarrow> ep' = ep \<and> fd' = fd | _ \<Rightarrow> False
         then (0, 0) else (- 1, ENOENT)
     | Evt SysTimerfdCreate \<Rightarrow> (40, 0)
     | Proc SysFork \<Rightarrow> (77, 0)
     | _ \<Rightarrow> (0, 0))\<rparr>"

lemma linux_platform_documented: "epoll_del_documented linux_platform"
  unfolding epoll_del_documented_def linux_platform_def
  by (auto split: syscall.splits event_call.splits)

theorem deleteTimer_fails_witness:
  "\<exists>s. addTimer linux_platform 500 OnSigint init_em = (Inr 1, s) \<and>
     fst (deleteTimer linux_platform 1 s) = Inl (Throw (SystemError ENOENT ''epoll_ctl()''))"
proof -
  have n: "next_timer_id [] 0 = 1" by (simp add: next_timer_id.simps)
  let ?s = "snd (addTimer linux_platform 500 OnSigint init_em)"
  have "addTimer linux_platform 500 OnSigint init_em = (Inr 1, ?s)"
    and "map_of (timerfd_map ?s) 1 = Some 40"
    and "\<forall>p. Evt (SysEpollAdd (epfd ?s) 40 p) \<notin> set (trace ?s)"
    by (simp_all add: em_timer_defs monad_simps linux_platform_def null_platform_def init_em_def n
        INT_MAX_def alist_insert_def)
  then show ?thesis using deleteTimer_fails [OF linux_platform_documented, of ?s 1 40] by blast
qed

section \<open>Child processes\<close>

text \<open>
  The answers of a kernel to the calls of the reaping loop, by the number of calls before: the pid
  with the error number, and the status of the process that ended.
\<close>

abbreviation wait_any :: syscall where
  "wait_any \<equiv> Proc (SysWaitpidNohang (- 1))"

definition nth_wait :: "platform \<Rightarrow> syscall list \<Rightarrow> nat \<Rightarrow> int \<times> int" where
  "nth_wait pf h m = sys_int pf (replicate m wait_any @ h) wait_any"

definition nth_status :: "platform \<Rightarrow> syscall list \<Rightarrow> nat \<Rightarrow> int" where
  "nth_status pf h m = sys_wait_status pf (replicate m wait_any @ h)"

text \<open>Among the first \<open>k\<close> answers, those that name a watched process for the first time.\<close>

definition first_exits :: "(nat \<Rightarrow> int) \<Rightarrow> int set \<Rightarrow> nat \<Rightarrow> nat list" where
  "first_exits pid watched k = filter (\<lambda>m. pid m \<in> watched \<and> pid m \<notin> pid ` {..<m}) [0..<k]"

lemma first_exits_Suc:
  "first_exits pid watched (Suc k) =
     (if pid 0 \<in> watched then [0] else []) @ map Suc (first_exits (pid \<circ> Suc) (watched - {pid 0}) k)"
proof -
  have "pid ` {..<Suc m} = insert (pid 0) ((pid \<circ> Suc) ` {..<m})" for m
    by (auto simp: lessThan_Suc_eq_insert_0 image_image)
  then show ?thesis
    unfolding first_exits_def upt_conv_Cons [OF zero_less_Suc] map_Suc_upt [symmetric]
    by (simp add: filter_map comp_def)
qed

lemma nth_wait_Cons:
  "nth_wait pf (wait_any # h) m = nth_wait pf h (Suc m)"
  "nth_status pf (wait_any # h) m = nth_status pf h (Suc m)"
  by (simp_all add: nth_wait_def nth_status_def replicate_app_Cons_same)

text \<open>
  C29: one round of reaping, exactly. When the kernel reports \<open>k\<close> ended processes before it has no
  more, or fails, and \<open>k\<close> is below the bound, the loop makes \<open>k + 1\<close> calls and queues, in order
  and with its own status, one event for each watched process among them, the first time it is
  reported; these processes are no longer watched, the others still are; the exit of a process
  that is not watched queues nothing. The loop returns when no process is left (0, or
  \<open>ECHILD\<close>) and throws any other error, with the events queued so far. Nothing else changes.
\<close>

theorem reap_children_once:
  assumes "\<forall>m < k. 0 < fst (nth_wait pf (trace s) m)" and "fst (nth_wait pf (trace s) k) \<le> 0"
    and "k < n"
  shows "reap_children n pf s =
    (if fst (nth_wait pf (trace s) k) = 0 \<or> snd (nth_wait pf (trace s) k) = ECHILD then Inr ()
     else Inl (Throw (SystemError (snd (nth_wait pf (trace s) k)) ''waitpid()'')),
     s\<lparr>trace := replicate (Suc k) wait_any @ trace s,
       pending_events := pending_events s @
         map (\<lambda>m. ProcEvent (fst (nth_wait pf (trace s) m)) (nth_status pf (trace s) m))
           (first_exits (\<lambda>m. fst (nth_wait pf (trace s) m)) (watch_pids s) k),
       watch_pids := watch_pids s - (\<lambda>m. fst (nth_wait pf (trace s) m)) ` {..<k}\<rparr>)"
  using assms
proof (induction k arbitrary: n s)
  case 0
  then obtain l where "n = Suc l" by (cases n) simp_all
  then show ?case
    using 0 by (cases s) (simp add: nth_wait_def monad_simps sys_error_def first_exits_def split_beta)
next
  case (Suc k)
  then obtain l where n: "n = Suc l" "k < l" by (cases n) simp_all
  let ?h = "trace s" and ?p = "fst (nth_wait pf (trace s) 0)"
  let ?s1 = "s\<lparr>trace := wait_any # ?h, watch_pids := watch_pids s - {?p},
    pending_events := pending_events s @
      (if ?p \<in> watch_pids s then [ProcEvent ?p (nth_status pf ?h 0)] else [])\<rparr>"
  have "0 < ?p" using Suc.prems(1) by simp
  then have step: "reap_children n pf s = reap_children l pf ?s1"
    by (cases s) (auto simp: n(1) nth_wait_def nth_status_def monad_simps addPendingEvent_def split_beta)
  have img: "watch_pids s - (\<lambda>m. fst (nth_wait pf ?h m)) ` {..<Suc k} =
      watch_pids s - {?p} - (\<lambda>m. fst (nth_wait pf ?h (Suc m))) ` {..<k}"
    by (auto simp: lessThan_Suc_eq_insert_0 image_image)
  have "reap_children l pf ?s1 =
    (if fst (nth_wait pf (trace ?s1) k) = 0 \<or> snd (nth_wait pf (trace ?s1) k) = ECHILD then Inr ()
     else Inl (Throw (SystemError (snd (nth_wait pf (trace ?s1) k)) ''waitpid()'')),
     ?s1\<lparr>trace := replicate (Suc k) wait_any @ trace ?s1,
       pending_events := pending_events ?s1 @
         map (\<lambda>m. ProcEvent (fst (nth_wait pf (trace ?s1) m)) (nth_status pf (trace ?s1) m))
           (first_exits (\<lambda>m. fst (nth_wait pf (trace ?s1) m)) (watch_pids ?s1) k),
       watch_pids := watch_pids ?s1 - (\<lambda>m. fst (nth_wait pf (trace ?s1) m)) ` {..<k}\<rparr>)"
    by (rule Suc.IH) (use Suc.prems n in \<open>auto simp: nth_wait_Cons\<close>)
  then show ?case
    unfolding step by (simp add: nth_wait_Cons first_exits_Suc img comp_def replicate_app_Cons_same)
qed

text \<open>Two processes end, 5 and 6, and only 5 is watched.\<close>

definition reap_platform :: platform where
  "reap_platform = null_platform\<lparr>sys_int := (\<lambda>h c. (if h = [] then 5 else if length h = 1 then 6 else 0, 0)),
     sys_wait_status := (\<lambda>_. 256)\<rparr>"

theorem reap_children_once_witness:
  "reap_children 3 reap_platform (init_em\<lparr>watch_pids := {5, 9}\<rparr>) =
     (Inr (), init_em\<lparr>trace := [wait_any, wait_any, wait_any], pending_events := [ProcEvent 5 256],
                    watch_pids := {9}\<rparr>)"
proof -
  let ?s = "init_em\<lparr>watch_pids := {5, 9}\<rparr>"
  have a: "fst (nth_wait reap_platform (trace init_em) m) = (if m = 0 then 5 else if m = 1 then 6 else 0)" for m
    by (simp add: nth_wait_def reap_platform_def init_em_def)
  have st: "nth_status reap_platform (trace init_em) m = 256" for m
    by (simp add: nth_status_def reap_platform_def)
  have u: "[0..<2] = [0, 1 :: nat]" "{..<2} = {0, 1 :: nat}" by (auto simp: upt_conv_Cons)
  have f: "first_exits (\<lambda>m. if m = 0 then 5 else if m = 1 then 6 else 0) {5, 9} 2 = [0]"
    by (simp add: first_exits_def u(1))
  have "reap_children 3 reap_platform ?s =
    (Inr (), ?s\<lparr>trace := replicate (Suc 2) wait_any @ trace ?s,
       pending_events := pending_events ?s @ [ProcEvent 5 256], watch_pids := {5, 9} - {5, 6}\<rparr>)"
    using reap_children_once [of 2 reap_platform ?s 3] by (simp add: a st f u(2))
  then show ?thesis by (simp add: init_em_def numeral_2_eq_2)
qed

end
