(* ===== verification/Plist.thy ===== *)
theory Plist
  imports Platform Text
begin

text \<open>
  Property lists as manifests, \<open>parse_xml\<close> of \<open>src/manifest.cc\<close>, in a build with
  \<open>XML_MANIFEST_SUPPORT\<close>. The XML library gives the tree of nodes; what the code calls on it is
  written out. What is printed is left out.
\<close>

section \<open>The calls on the tree\<close>

text \<open>The child elements, with \<open>Name()\<close> and their own children.\<close>

fun elements :: "xml_node list \<Rightarrow> (string \<times> xml_node list) list" where
  "elements [] = []"
| "elements (XmlElement n cs # ns) = (n, cs) # elements ns"
| "elements (_ # ns) = elements ns"

definition first_child_element :: "string \<Rightarrow> xml_node list \<Rightarrow> xml_node list option" where
  "first_child_element name ns = map_of (elements ns) name"

text \<open>\<open>GetText()\<close>: the text that comes first, after comments.\<close>

fun get_text :: "xml_node list \<Rightarrow> string option" where
  "get_text (XmlComment # ns) = get_text ns"
| "get_text (XmlText t # ns) = Some t"
| "get_text _ = None"

text \<open>\<open>strcasecmp(a, b) == 0\<close>\<close>

definition same_letters :: "string \<Rightarrow> string \<Rightarrow> bool" where
  "same_letters a b \<longleftrightarrow> map toupper a = map toupper b"

section \<open>The parser\<close>

text \<open>The value of a key: \<open>None\<close> where the function gives up.\<close>

definition plist_value :: "string \<times> xml_node list \<Rightarrow> json option" where
  "plist_value = (\<lambda>(valtype, children).
     if same_letters valtype ''string'' then map_option JString (get_text children)
     else if same_letters valtype ''true'' then Some (JBool True)
     else if same_letters valtype ''false'' then Some (JBool False)
     else None)"

text \<open>The loop over the elements of the dictionary, two at a time.\<close>

fun plist_entries :: "json_lib \<Rightarrow> json \<Rightarrow> (string \<times> xml_node list) list \<Rightarrow> exn + json option" where
  "plist_entries J result [] = Inr (Some result)"
| "plist_entries J result (elem # rest) =
     (if \<not> same_letters (fst elem) ''key'' then Inr None
      else
        case get_text (snd elem) of
          None \<Rightarrow> Inr None
        | Some key \<Rightarrow>
            (case rest of
               [] \<Rightarrow> Inr None
             | v # rest' \<Rightarrow>
                 (case plist_value v of
                    None \<Rightarrow> Inr None
                  | Some val \<Rightarrow>
                      (case j_put J result key val of
                         Inl e \<Rightarrow> Inl e
                       | Inr result' \<Rightarrow> plist_entries J result' rest'))))"

text \<open>A document without the two outer elements is not tested for: a null pointer is used.\<close>

definition parse_xml :: "platform \<Rightarrow> string \<Rightarrow> ('a os_state_scheme, json option) M" where
  "parse_xml pf path =
     bindM (sysM (File (SysReadFile path)) (\<lambda>h. sys_file_xml pf h path)) (\<lambda>doc.
     case doc of
       None \<Rightarrow> returnM None
     | Some nodes \<Rightarrow>
         (case first_child_element ''plist'' nodes of
            None \<Rightarrow> failM (Undefined ''doc.FirstChildElement on a null pointer'')
          | Some plist \<Rightarrow>
              (case first_child_element ''dict'' plist of
                 None \<Rightarrow> failM (Undefined ''topElement->NoChildren on a null pointer'')
               | Some dict \<Rightarrow>
                   if dict = [] then returnM None
                   else liftE (plist_entries (jlib pf) JNull (elements dict)))))"

section \<open>What a property list means\<close>

text \<open>The element of a value, and the document of a list of entries.\<close>

datatype plist_scalar = PlistString string | PlistBool bool

fun scalar_json :: "plist_scalar \<Rightarrow> json" where
  "scalar_json (PlistString t) = JString t"
| "scalar_json (PlistBool b) = JBool b"

fun scalar_xml :: "plist_scalar \<Rightarrow> xml_node" where
  "scalar_xml (PlistString t) = XmlElement ''string'' [XmlText t]"
| "scalar_xml (PlistBool b) = XmlElement (if b then ''true'' else ''false'') []"

definition plist_nodes :: "(string \<times> plist_scalar) list \<Rightarrow> xml_node list" where
  "plist_nodes kvs = concat (map (\<lambda>(k, v). [XmlElement ''key'' [XmlText k], scalar_xml v]) kvs)"

definition plist_document :: "(string \<times> plist_scalar) list \<Rightarrow> xml_node list" where
  "plist_document kvs = [XmlOther, XmlElement ''plist'' [XmlElement ''dict'' (plist_nodes kvs)]]"

lemma elements_entry:
  "elements (plist_nodes ((k, v) # kvs)) =
     (''key'', [XmlText k]) # hd (elements [scalar_xml v]) # elements (plist_nodes kvs)"
  by (cases v) (simp_all add: plist_nodes_def)

lemma scalar_value: "plist_value (hd (elements [scalar_xml v])) = Some (scalar_json v)"
  by (cases v) (simp_all add: plist_value_def same_letters_def toupper_def)

lemma entries_object:
  assumes "json_documented J"
  shows "\<exists>m. plist_entries J (JObject m0) (elements (plist_nodes kvs)) = Inr (Some (JObject m)) \<and>
    map_of m = map_of m0 ++ map_of (rev (map (\<lambda>(k, v). (k, scalar_json v)) kvs))"
proof (induction kvs arbitrary: m0)
  case Nil
  then show ?case by (simp add: plist_nodes_def)
next
  case (Cons p kvs)
  obtain k v where p: "p = (k, v)" by fastforce
  obtain m1 where m1: "j_put J (JObject m0) k (scalar_json v) = Inr (JObject m1)"
    "map_of m1 = (map_of m0)(k \<mapsto> scalar_json v)"
    using documented_put [OF assms] by blast
  obtain m where m: "plist_entries J (JObject m1) (elements (plist_nodes kvs)) = Inr (Some (JObject m))"
    "map_of m = map_of m1 ++ map_of (rev (map (\<lambda>(k, v). (k, scalar_json v)) kvs))"
    using Cons.IH by blast
  have "map_of m = map_of m0 ++ map_of (rev (map (\<lambda>(k, v). (k, scalar_json v)) (p # kvs)))"
    by (simp add: m(2) m1(2) p map_of_append map_add_def fun_eq_iff split: option.split)
  moreover have "plist_entries J (JObject m0) (elements (plist_nodes (p # kvs))) = Inr (Some (JObject m))"
    using m1(1) m(1) by (simp add: p elements_entry scalar_value same_letters_def)
  ultimately show ?case by blast
qed

text \<open>
  A property list of strings and switches is read as the object with these entries; of entries with
  the same key the last one counts.
\<close>

lemma parse_xml_document:
  assumes "json_documented (jlib pf)" and "kvs \<noteq> []"
    and "sys_file_xml pf (trace s) path = Some (plist_document kvs)"
  shows "\<exists>m. parse_xml pf path s = (Inr (Some (JObject m)), s\<lparr>trace := File (SysReadFile path) # trace s\<rparr>) \<and>
    map_of m = map_of (rev (map (\<lambda>(k, v). (k, scalar_json v)) kvs))"
proof -
  obtain k v rest where kvs: "kvs = (k, v) # rest" using assms(2) by (cases kvs) auto
  have n: "plist_nodes kvs \<noteq> []" by (simp add: kvs plist_nodes_def)
  obtain m where m: "plist_entries (jlib pf) (JObject [(k, scalar_json v)]) (elements (plist_nodes rest)) =
      Inr (Some (JObject m))" "map_of m = map_of [(k, scalar_json v)] ++ map_of (rev (map (\<lambda>(k, v). (k, scalar_json v)) rest))"
    using entries_object [OF assms(1)] by blast
  then have "plist_entries (jlib pf) JNull (elements (plist_nodes kvs)) = Inr (Some (JObject m))"
    by (simp add: kvs elements_entry scalar_value same_letters_def documented_null [OF assms(1)])
  moreover have "map_of m = map_of (rev (map (\<lambda>(k, v). (k, scalar_json v)) kvs))"
    using m(2) by (simp add: kvs map_of_append)
  ultimately show ?thesis
    using assms(3) n by (simp add: parse_xml_def monad_simps first_child_element_def plist_document_def)
qed

end
