(* ===== verification/Manifest.thy ===== *)
theory Manifest
  imports Plist
begin

text \<open>
  The job manifest, \<open>src/manifest.h\<close> and \<open>src/manifest.cc\<close>: the class \<open>Label\<close>, the struct
  \<open>Manifest\<close>, \<open>from_json\<close> with \<open>rectify\<close> and \<open>validate\<close>, and \<open>parse\<close>.
\<close>

section \<open>Labels\<close>

text \<open>The constructor \<open>Label(std::string)\<close>; a default label is the empty string.\<close>

definition mk_label :: "string \<Rightarrow> exn + string" where
  "mk_label s =
     (if s = [] then Inl (RuntimeError ''Label cannot be an empty string'')
      else if CHR ''/'' \<in> set s then Inl (RuntimeError ''Labels may not include the '/' character'')
      else Inr s)"

text \<open>The conversions to \<open>std::string\<close> and \<open>c_str()\<close> assert that the label is not empty.\<close>

definition label_string :: "platform \<Rightarrow> string \<Rightarrow> abrupt + string" where
  "label_string pf l = (if l = [] \<and> \<not> ndebug pf then Inl (Abort ''!value.empty()'') else Inr l)"

definition label_ok :: "string \<Rightarrow> bool" where
  "label_ok l \<longleftrightarrow> l \<noteq> [] \<and> CHR ''/'' \<notin> set l"

lemma mk_label_iff: "mk_label s = Inr l \<longleftrightarrow> l = s \<and> label_ok s"
  by (auto simp: mk_label_def label_ok_def)

section \<open>The manifest\<close>

definition DEFAULT_EXIT_TIMEOUT :: "32 word" where
  "DEFAULT_EXIT_TIMEOUT = 20"

record manifest =
  label :: string
  user_name :: "string option"
  group_name :: "string option"
  program :: "string option"
  program_arguments :: "string list"
  disabled :: bool
  run_at_load :: bool
  working_directory :: "string option"
  root_directory :: "string option"
  environment_variables :: "(string \<times> string) list"
  umask :: "32 word option"
  exit_timeout :: "32 word"
  start_interval :: "32 word option"
  throttle_interval :: "32 word"
  nice :: "32 word option"
  init_groups :: bool
  stdin_path :: string
  stdout_path :: string
  stderr_path :: string
  abandon_process_group :: bool
  keep_alive_always :: bool

definition default_manifest :: manifest where
  "default_manifest = \<lparr>
     label = [], user_name = None, group_name = None, program = None, program_arguments = [],
     disabled = False, run_at_load = False, working_directory = None, root_directory = None,
     environment_variables = [], umask = None, exit_timeout = DEFAULT_EXIT_TIMEOUT,
     start_interval = None, throttle_interval = 10, nice = None, init_groups = True,
     stdin_path = ''/dev/null'', stdout_path = ''/dev/null'', stderr_path = ''/dev/null'',
     abandon_process_group = False, keep_alive_always = False \<rparr>"

section \<open>Reading a manifest from a JSON object\<close>

text \<open>
  Errors of the parse are values: \<open>bindS\<close> sequences two steps. An exception from the library
  is lifted with \<open>liftX\<close>.
\<close>

definition bindS :: "abrupt + 'a \<Rightarrow> ('a \<Rightarrow> abrupt + 'b) \<Rightarrow> abrupt + 'b" where
  "bindS r f = (case r of Inl e \<Rightarrow> Inl e | Inr x \<Rightarrow> f x)"

definition liftX :: "exn + 'a \<Rightarrow> abrupt + 'a" where
  "liftX r = (case r of Inl e \<Rightarrow> Inl (Throw e) | Inr x \<Rightarrow> Inr x)"

lemma bindS_simps [simp]: "bindS (Inl e) f = Inl e" "bindS (Inr x) f = f x"
  by (simp_all add: bindS_def)

lemma liftX_simps [simp]: "liftX (Inl e) = Inl (Throw e)" "liftX (Inr x) = Inr x"
  by (simp_all add: liftX_def)

lemma bindS_Inr: "bindS r f = Inr y \<longleftrightarrow> (\<exists>x. r = Inr x \<and> f x = Inr y)"
  by (cases r) auto

lemma liftX_Inr: "liftX r = Inr y \<longleftrightarrow> r = Inr y"
  by (cases r) auto

text \<open>\<open>if (j.contains(key)) { ... j.at(key) ... }\<close>, where the body reads the element.\<close>

definition on_key :: "json_lib \<Rightarrow> json \<Rightarrow> string \<Rightarrow> (json \<Rightarrow> manifest \<Rightarrow> abrupt + manifest) \<Rightarrow>
    manifest \<Rightarrow> abrupt + manifest" where
  "on_key J j k body m =
     (if j_contains J j k then bindS (liftX (j_at J j k)) (\<lambda>v. body v m) else Inr m)"

text \<open>\<open>throw NotSupportedError()\<close> where the key is present.\<close>

definition unsupported_key :: "json_lib \<Rightarrow> json \<Rightarrow> string \<Rightarrow> manifest \<Rightarrow> abrupt + manifest" where
  "unsupported_key J j k m = (if j_contains J j k then Inl (Throw NotSupportedError) else Inr m)"

definition set_string :: "json_lib \<Rightarrow> (string \<Rightarrow> manifest \<Rightarrow> manifest) \<Rightarrow> json \<Rightarrow> manifest \<Rightarrow>
    abrupt + manifest" where
  "set_string J upd v m = bindS (liftX (j_get_string J v)) (\<lambda>s. Inr (upd s m))"

definition set_bool :: "json_lib \<Rightarrow> (bool \<Rightarrow> manifest \<Rightarrow> manifest) \<Rightarrow> json \<Rightarrow> manifest \<Rightarrow>
    abrupt + manifest" where
  "set_bool J upd v m = bindS (liftX (j_get_bool J v)) (\<lambda>b. Inr (upd b m))"

definition set_u32 :: "json_lib \<Rightarrow> (32 word \<Rightarrow> manifest \<Rightarrow> manifest) \<Rightarrow> json \<Rightarrow> manifest \<Rightarrow>
    abrupt + manifest" where
  "set_u32 J upd v m = bindS (liftX (j_get_u32 J v)) (\<lambda>n. Inr (upd n m))"

definition set_label :: "json_lib \<Rightarrow> json \<Rightarrow> manifest \<Rightarrow> abrupt + manifest" where
  "set_label J v m =
     bindS (liftX (j_get_string J v)) (\<lambda>tmp.
     bindS (liftX (mk_label tmp)) (\<lambda>l. Inr (m\<lparr>label := l\<rparr>)))"

text \<open>The \<open>Umask\<close> key: a signed integer, or an octal string; anything else is an error.\<close>

definition set_umask :: "json_lib \<Rightarrow> json \<Rightarrow> manifest \<Rightarrow> abrupt + manifest" where
  "set_umask J elem m =
     bindS
       (if j_type J elem = VNumberInteger then liftX (j_get_u32 J elem)
        else if j_type J elem = VString then
          bindS (liftX (j_get_string J elem)) (\<lambda>buf.
          bindS (liftX (stoul 8 buf)) (\<lambda>v. Inr (ucast v)))
        else Inl (Throw (RuntimeError ''unsupported Umask type'')))
       (\<lambda>value. Inr (m\<lparr>umask := Some value\<rparr>))"

definition set_keep_alive :: "json_lib \<Rightarrow> json \<Rightarrow> manifest \<Rightarrow> abrupt + manifest" where
  "set_keep_alive J keepalive m =
     (if j_type J keepalive = VBoolean then
        set_bool J (\<lambda>b m. m\<lparr>keep_alive_always := b\<rparr>) keepalive m
      else if j_type J keepalive = VObject then
        on_key J keepalive ''Always'' (set_bool J (\<lambda>b m. m\<lparr>keep_alive_always := b\<rparr>)) m
      else Inr m)"

text \<open>The statements of \<open>from_json\<close> up to \<open>rectify\<close>, in the order of the source.\<close>

definition from_json_steps :: "json_lib \<Rightarrow> json \<Rightarrow> (manifest \<Rightarrow> abrupt + manifest) list" where
  "from_json_steps J j = [
     on_key J j ''Label'' (set_label J),
     on_key J j ''UserName'' (set_string J (\<lambda>s m. m\<lparr>user_name := Some s\<rparr>)),
     on_key J j ''GroupName'' (set_string J (\<lambda>s m. m\<lparr>group_name := Some s\<rparr>)),
     on_key J j ''Program'' (set_string J (\<lambda>s m. m\<lparr>program := Some s\<rparr>)),
     on_key J j ''ProgramArguments'' (\<lambda>v m.
       bindS (liftX (j_get_strings J v)) (\<lambda>args. Inr (m\<lparr>program_arguments := args\<rparr>))),
     unsupported_key J j ''EnableGlobbing'',
     on_key J j ''RunAtLoad'' (set_bool J (\<lambda>b m. m\<lparr>run_at_load := b\<rparr>)),
     on_key J j ''WorkingDirectory'' (set_string J (\<lambda>s m. m\<lparr>working_directory := Some s\<rparr>)),
     on_key J j ''RootDirectory'' (set_string J (\<lambda>s m. m\<lparr>root_directory := Some s\<rparr>)),
     on_key J j ''EnvironmentVariables'' (\<lambda>v m.
       bindS (liftX (j_get_strmap J v)) (\<lambda>kvs. Inr (m\<lparr>environment_variables := kvs\<rparr>))),
     on_key J j ''Umask'' (set_umask J),
     on_key J j ''Disabled'' (set_bool J (\<lambda>b m. m\<lparr>disabled := b\<rparr>)),
     on_key J j ''ExitTimeout'' (set_u32 J (\<lambda>n m. m\<lparr>exit_timeout := n\<rparr>)),
     on_key J j ''StartInterval'' (set_u32 J (\<lambda>n m. m\<lparr>start_interval := Some n\<rparr>)),
     on_key J j ''ThrottleInterval'' (set_u32 J (\<lambda>n m. m\<lparr>throttle_interval := n\<rparr>)),
     on_key J j ''Nice'' (set_u32 J (\<lambda>n m. m\<lparr>nice := Some n\<rparr>)),
     on_key J j ''InitGroups'' (set_bool J (\<lambda>b m. m\<lparr>init_groups := b\<rparr>)),
     unsupported_key J j ''WatchPaths'',
     unsupported_key J j ''QueueDirectories'',
     unsupported_key J j ''StartOnMount'',
     on_key J j ''StandardInPath'' (set_string J (\<lambda>s m. m\<lparr>stdin_path := s\<rparr>)),
     on_key J j ''StandardOutPath'' (set_string J (\<lambda>s m. m\<lparr>stdout_path := s\<rparr>)),
     on_key J j ''StandardErrorPath'' (set_string J (\<lambda>s m. m\<lparr>stderr_path := s\<rparr>)),
     on_key J j ''AbandonProcessGroup'' (set_bool J (\<lambda>b m. m\<lparr>abandon_process_group := b\<rparr>)),
     unsupported_key J j ''StartCalendarInterval'',
     on_key J j ''KeepAlive'' (set_keep_alive J),
     unsupported_key J j ''Sockets'']"

primrec run_steps :: "(manifest \<Rightarrow> abrupt + manifest) list \<Rightarrow> manifest \<Rightarrow> abrupt + manifest" where
  "run_steps [] m = Inr m"
| "run_steps (f # fs) m = bindS (f m) (run_steps fs)"

definition rectify :: "manifest \<Rightarrow> abrupt + manifest" where
  "rectify m =
     (if program m = None \<and> program_arguments m = [] then
        Inl (Throw (LogicError ''one of these must be set: Program and/or ProgramArguments''))
      else (case program m of
          None \<Rightarrow> Inr (m\<lparr>program := Some (hd (program_arguments m))\<rparr>)
        | Some p \<Rightarrow>
            if program_arguments m = [] then Inr (m\<lparr>program_arguments := [p]\<rparr>) else Inr m))"

text \<open>
  \<open>validate\<close> first converts the label to a string, which asserts that it is not empty.
\<close>

definition validate :: "platform \<Rightarrow> manifest \<Rightarrow> abrupt + bool" where
  "validate pf m =
     bindS (label_string pf (label m)) (\<lambda>l.
     Inr (if length l = 0 then False
          else if program m = None \<and> program_arguments m \<noteq> [] then False
          else if group_name m \<noteq> None \<and> user_name m = None then False
          else True))"

definition from_json :: "platform \<Rightarrow> json \<Rightarrow> manifest \<Rightarrow> abrupt + manifest" where
  "from_json pf j m =
     bindS (run_steps (from_json_steps (jlib pf) j) m) (\<lambda>m.
     bindS (rectify m) (\<lambda>m.
     bindS (validate pf m) (\<lambda>ok.
     if \<not> ok then Inl (Throw InvalidManifestError) else Inr m)))"

text \<open>\<open>jsondata.get<Manifest>()\<close> starts from a default manifest.\<close>

definition get_manifest :: "platform \<Rightarrow> json \<Rightarrow> abrupt + manifest" where
  "get_manifest pf j = from_json pf j default_manifest"

text \<open>
  \<open>manifest::parse\<close> in the default build, where \<open>XML_MANIFEST_SUPPORT\<close> is 0.
\<close>

definition parse_path :: "platform \<Rightarrow> string \<Rightarrow> ('a os_state_scheme, json) M" where
  "parse_path pf path =
     (if xml_support pf \<and> path_extension path = ''.plist'' then
        bindM (parse_xml pf path) (\<lambda>maybe_obj.
        case maybe_obj of Some obj \<Rightarrow> returnM obj | None \<Rightarrow> returnM (JInteger (- 1)))
      else if path_extension path = ''.json'' then
        bindM (sysM (File (SysReadFile path)) (\<lambda>h. sys_file_json pf h path)) liftE
      else throwM (RuntimeError ''parse failed''))"

section \<open>What a successful parse guarantees\<close>

text \<open>
  \<open>keeps P f\<close>: a step that succeeds keeps \<open>P\<close>. The rules decompose a step into the
  accessors above.
\<close>

definition keeps :: "(manifest \<Rightarrow> bool) \<Rightarrow> (manifest \<Rightarrow> abrupt + manifest) \<Rightarrow> bool" where
  "keeps P f \<longleftrightarrow> (\<forall>m m'. P m \<longrightarrow> f m = Inr m' \<longrightarrow> P m')"

named_theorems keeps_rules \<open>rules that decompose keeps goals\<close>

lemma keeps_run_steps:
  "list_all (keeps P) fs \<Longrightarrow> P m \<Longrightarrow> run_steps fs m = Inr m' \<Longrightarrow> P m'"
  by (induction fs arbitrary: m) (auto simp: keeps_def bindS_Inr)

lemma keeps_on_key [keeps_rules]:
  "(\<And>v. j_contains J j k \<Longrightarrow> j_at J j k = Inr v \<Longrightarrow> keeps P (body v)) \<Longrightarrow>
   keeps P (on_key J j k body)"
  by (auto simp: keeps_def on_key_def bindS_Inr liftX_Inr split: if_splits)

lemma keeps_unsupported [keeps_rules]: "keeps P (unsupported_key J j k)"
  by (auto simp: keeps_def unsupported_key_def split: if_splits)

lemma keeps_set_string [keeps_rules]:
  "(\<And>s m. P m \<Longrightarrow> P (upd s m)) \<Longrightarrow> keeps P (set_string J upd v)"
  by (auto simp: keeps_def set_string_def bindS_Inr)

lemma keeps_set_bool [keeps_rules]:
  "(\<And>b m. P m \<Longrightarrow> P (upd b m)) \<Longrightarrow> keeps P (set_bool J upd v)"
  by (auto simp: keeps_def set_bool_def bindS_Inr)

lemma keeps_set_u32 [keeps_rules]:
  "(\<And>n m. P m \<Longrightarrow> P (upd n m)) \<Longrightarrow> keeps P (set_u32 J upd v)"
  by (auto simp: keeps_def set_u32_def bindS_Inr)

lemma keeps_set_label [keeps_rules]:
  "(\<And>l m. label_ok l \<Longrightarrow> P m \<Longrightarrow> P (m\<lparr>label := l\<rparr>)) \<Longrightarrow> keeps P (set_label J v)"
  by (auto simp: keeps_def set_label_def bindS_Inr liftX_Inr mk_label_iff)

lemma keeps_set_umask [keeps_rules]:
  "(\<And>u m. P m \<Longrightarrow> P (m\<lparr>umask := Some u\<rparr>)) \<Longrightarrow> keeps P (set_umask J v)"
  by (auto simp: keeps_def set_umask_def bindS_Inr)

lemma keeps_set_keep_alive [keeps_rules]:
  "(\<And>b m. P m \<Longrightarrow> P (m\<lparr>keep_alive_always := b\<rparr>)) \<Longrightarrow> keeps P (set_keep_alive J v)"
  by (auto simp: keeps_def set_keep_alive_def set_bool_def on_key_def bindS_Inr liftX_Inr
      split: if_splits)

lemma keeps_lists [keeps_rules]:
  "(\<And>xs m. P m \<Longrightarrow> P (upd xs m)) \<Longrightarrow> keeps P (\<lambda>m. bindS (liftX r) (\<lambda>xs. Inr (upd xs m)))"
  by (auto simp: keeps_def bindS_Inr)

text \<open>A step that sees an unsupported key cannot succeed, whatever comes before it.\<close>

lemma run_steps_stuck:
  "f \<in> set fs \<Longrightarrow> (\<And>m m'. f m \<noteq> Inr m') \<Longrightarrow> run_steps fs m \<noteq> Inr m'"
  by (induction fs arbitrary: m) (auto simp: bindS_Inr)

lemma from_json_Inr:
  "from_json pf j m0 = Inr m \<longleftrightarrow>
   (\<exists>m1. run_steps (from_json_steps (jlib pf) j) m0 = Inr m1 \<and> rectify m1 = Inr m \<and>
     validate pf m = Inr True)"
  by (auto simp: from_json_def bindS_Inr split: if_splits)

lemma rectify_eq:
  assumes "rectify m = Inr m'"
  shows "m' = m\<lparr>
      program := Some (case program m of Some p \<Rightarrow> p | None \<Rightarrow> hd (program_arguments m)),
      program_arguments :=
        (if program_arguments m = [] then [the (program m)] else program_arguments m)\<rparr>"
  using assms by (cases m) (auto simp: rectify_def split: if_splits option.splits)

text \<open>What the rest of the program relies on in a loaded manifest.\<close>

definition manifest_ok :: "manifest \<Rightarrow> bool" where
  "manifest_ok m \<longleftrightarrow> label_ok (label m) \<and> program m \<noteq> None \<and> program_arguments m \<noteq> [] \<and>
     (group_name m \<noteq> None \<longrightarrow> user_name m \<noteq> None)"

lemma validate_True:
  "validate pf m = Inr True \<Longrightarrow>
   label m \<noteq> [] \<and> (group_name m \<noteq> None \<longrightarrow> user_name m \<noteq> None)"
  by (auto simp: validate_def label_string_def split: if_splits)

lemma steps_label:
  assumes "run_steps (from_json_steps J j) m = Inr m'" "label m = [] \<or> label_ok (label m)"
  shows "label m' = [] \<or> label_ok (label m')"
  using assms(1)
  by (rule keeps_run_steps [where P = "\<lambda>m. label m = [] \<or> label_ok (label m)", rotated 2])
    (auto simp: from_json_steps_def assms(2) intro!: keeps_rules)

lemma parsed_manifest_ok:
  assumes "get_manifest pf j = Inr m"
  shows "manifest_ok m"
proof -
  from assms obtain m1 where m1: "run_steps (from_json_steps (jlib pf) j) default_manifest = Inr m1"
    and r: "rectify m1 = Inr m" and v: "validate pf m = Inr True"
    by (auto simp: get_manifest_def from_json_Inr)
  have "label m1 = [] \<or> label_ok (label m1)"
    using steps_label [OF m1] by (simp add: default_manifest_def)
  then show ?thesis
    using rectify_eq [OF r] validate_True [OF v] by (auto simp: manifest_ok_def)
qed

text \<open>
  C30: a manifest that parses names a job that can be started: its label is a non-empty string
  without a slash, it has a program and an argument vector, and it names a user when it names
  a group.
\<close>

theorem get_manifest_ok:
  assumes "get_manifest pf j = Inr m"
  shows "manifest_ok m"
  by (rule parsed_manifest_ok [OF assms])

definition sample_manifest :: json where
  "sample_manifest = JObject [(''Label'', JString ''a''), (''Program'', JString ''/p''),
     (''KeepAlive'', JBool True), (''ThrottleInterval'', JUnsigned 30)]"

lemma get_sample_manifest:
  "get_manifest null_platform sample_manifest = Inr (default_manifest\<lparr>
     label := ''a'', program := Some ''/p'', program_arguments := [''/p''],
     keep_alive_always := True, throttle_interval := 30\<rparr>)"
  by (simp add: get_manifest_def from_json_def from_json_steps_def sample_manifest_def
      default_manifest_def null_platform_def nl_json_def on_key_def unsupported_key_def
      set_label_def mk_label_def set_string_def set_keep_alive_def set_bool_def set_u32_def
      rectify_def validate_def label_string_def)

theorem get_manifest_ok_witness:
  "\<exists>m. get_manifest null_platform sample_manifest = Inr m \<and> manifest_ok m"
  using get_sample_manifest get_manifest_ok [OF get_sample_manifest] by blast

text \<open>
  A manifest that uses a key the program does not implement is rejected, whatever else it
  says.
\<close>

theorem unsupported_key_rejected:
  assumes "k \<in> {''EnableGlobbing'', ''WatchPaths'', ''QueueDirectories'', ''StartOnMount'',
    ''StartCalendarInterval'', ''Sockets''}"
    and "j_contains (jlib pf) j k"
  shows "\<exists>e. get_manifest pf j = Inl e"
proof -
  have "unsupported_key (jlib pf) j k \<in> set (from_json_steps (jlib pf) j)"
    using assms(1) by (auto simp: from_json_steps_def)
  moreover have "unsupported_key (jlib pf) j k m \<noteq> Inr m'" for m m'
    using assms(2) by (simp add: unsupported_key_def)
  ultimately have "run_steps (from_json_steps (jlib pf) j) m \<noteq> Inr m'" for m m'
    by (rule run_steps_stuck)
  then have "get_manifest pf j \<noteq> Inr m" for m
    by (auto simp: get_manifest_def from_json_Inr)
  then show ?thesis by (cases "get_manifest pf j") auto
qed

theorem unsupported_key_rejected_witness:
  "\<exists>e. get_manifest null_platform (JObject [(''Label'', JString ''a''), (''Sockets'', JNull)]) = Inl e"
  by (rule unsupported_key_rejected [where k = "''Sockets''"]) (simp_all add: nl_json_def)

section \<open>The scheduling keys\<close>

text \<open>
  The four keys that drive the scheduler, read independently of the parser: the value at the
  key, or the documented default.
\<close>

definition key_bool :: "json_lib \<Rightarrow> json \<Rightarrow> string \<Rightarrow> bool \<Rightarrow> bool" where
  "key_bool J j k d =
     (if j_contains J j k then
        (case j_at J j k of Inl _ \<Rightarrow> d | Inr v \<Rightarrow> (case j_get_bool J v of Inl _ \<Rightarrow> d | Inr b \<Rightarrow> b))
      else d)"

definition key_u32 :: "json_lib \<Rightarrow> json \<Rightarrow> string \<Rightarrow> 32 word option" where
  "key_u32 J j k =
     (if j_contains J j k then
        (case j_at J j k of Inl _ \<Rightarrow> None
         | Inr v \<Rightarrow> (case j_get_u32 J v of Inl _ \<Rightarrow> None | Inr n \<Rightarrow> Some n))
      else None)"

lemma run_steps_append:
  "run_steps (fs @ gs) m = bindS (run_steps fs m) (run_steps gs)"
  by (induction fs arbitrary: m) (auto simp: bindS_def split: sum.splits)

text \<open>
  The value a field has at the end of the parse: what the one step that writes it wrote, since
  every later step keeps it.
\<close>

lemma field_of_step:
  assumes "run_steps (fs @ f # gs) m = Inr m'"
    and "\<And>m1 m2. P m1 \<Longrightarrow> f m1 = Inr m2 \<Longrightarrow> Q m2"
    and "list_all (keeps P) fs" and "list_all (keeps Q) gs" and "P m"
  shows "Q m'"
proof -
  from assms(1) obtain m1 m2 where 1: "run_steps fs m = Inr m1" "f m1 = Inr m2"
    and 2: "run_steps gs m2 = Inr m'"
    by (auto simp: run_steps_append bindS_Inr)
  have "P m1" using assms(3,5) 1(1) by (rule keeps_run_steps)
  then have "Q m2" using 1(2) by (rule assms(2))
  then show ?thesis using keeps_run_steps [OF assms(4) _ 2] by simp
qed

text \<open>\<open>KeepAlive\<close> is a boolean, or an object with a boolean \<open>Always\<close>; other types are ignored.\<close>

definition key_keep_alive :: "json_lib \<Rightarrow> json \<Rightarrow> bool" where
  "key_keep_alive J j =
     (if j_contains J j ''KeepAlive'' then
        (case j_at J j ''KeepAlive'' of
           Inl _ \<Rightarrow> False
         | Inr v \<Rightarrow>
             if j_type J v = VBoolean then (case j_get_bool J v of Inl _ \<Rightarrow> False | Inr b \<Rightarrow> b)
             else if j_type J v = VObject then key_bool J v ''Always'' False
             else False)
      else False)"

lemma step_bool:
  assumes "on_key J j k (set_bool J upd) m = Inr m'" and "\<And>b. fld (upd b m) = b"
  shows "fld m' = key_bool J j k (fld m)"
  using assms(1)
  by (cases "j_at J j k"; cases "j_get_bool J (projr (j_at J j k))")
    (auto simp: on_key_def set_bool_def key_bool_def assms(2) split: if_splits)

lemma step_u32:
  assumes "on_key J j k (set_u32 J upd) m = Inr m'" and "\<And>n. fld (upd n m) = wrap n"
  shows "fld m' = (case key_u32 J j k of None \<Rightarrow> fld m | Some n \<Rightarrow> wrap n)"
  using assms(1)
  by (cases "j_at J j k"; cases "j_get_u32 J (projr (j_at J j k))")
    (auto simp: on_key_def set_u32_def key_u32_def assms(2) split: if_splits)

lemma step_keep_alive:
  assumes "on_key J j ''KeepAlive'' (set_keep_alive J) m = Inr m'" and "\<not> keep_alive_always m"
  shows "keep_alive_always m' = key_keep_alive J j"
proof (cases "j_contains J j ''KeepAlive''")
  case True
  with assms(1) obtain v where v: "j_at J j ''KeepAlive'' = Inr v"
    and s: "set_keep_alive J v m = Inr m'"
    by (cases "j_at J j ''KeepAlive''") (auto simp: on_key_def)
  show ?thesis
  proof (cases "j_type J v = VBoolean")
    case True
    with s v assms show ?thesis
      by (cases "j_get_bool J v")
        (auto simp: set_keep_alive_def set_bool_def key_keep_alive_def on_key_def split: if_splits)
  next
    case False
    with s v assms True show ?thesis
      using step_bool [of J v "''Always''" "\<lambda>b m. m\<lparr>keep_alive_always := b\<rparr>" m m' keep_alive_always]
      by (auto simp: set_keep_alive_def key_keep_alive_def split: if_splits)
  qed
qed (use assms in \<open>auto simp: on_key_def key_keep_alive_def\<close>)

lemma steps_schedule:
  assumes "run_steps (from_json_steps J j) default_manifest = Inr m"
  shows "run_at_load m = key_bool J j ''RunAtLoad'' False"
    and "disabled m = key_bool J j ''Disabled'' False"
    and "start_interval m = key_u32 J j ''StartInterval''"
    and "throttle_interval m = (case key_u32 J j ''ThrottleInterval'' of None \<Rightarrow> 10 | Some n \<Rightarrow> n)"
    and "keep_alive_always m = key_keep_alive J j"
proof -
  note run = assms [unfolded from_json_steps_def]
  show "run_at_load m = key_bool J j ''RunAtLoad'' False"
    by (rule field_of_step [where fs = "take 6 (from_json_steps J j)" and P = "\<lambda>m. \<not> run_at_load m"
          and f = "on_key J j ''RunAtLoad'' (set_bool J (\<lambda>b m. m\<lparr>run_at_load := b\<rparr>))"
          and gs = "drop 7 (from_json_steps J j)" and m = default_manifest])
      (use run in \<open>auto simp: from_json_steps_def default_manifest_def
        intro!: keeps_rules dest!: step_bool [where fld = run_at_load]\<close>)
  show "disabled m = key_bool J j ''Disabled'' False"
    by (rule field_of_step [where fs = "take 11 (from_json_steps J j)" and P = "\<lambda>m. \<not> disabled m"
          and f = "on_key J j ''Disabled'' (set_bool J (\<lambda>b m. m\<lparr>disabled := b\<rparr>))"
          and gs = "drop 12 (from_json_steps J j)" and m = default_manifest])
      (use run in \<open>auto simp: from_json_steps_def default_manifest_def
        intro!: keeps_rules dest!: step_bool [where fld = disabled]\<close>)
  show "start_interval m = key_u32 J j ''StartInterval''"
    by (rule field_of_step [where fs = "take 13 (from_json_steps J j)"
          and P = "\<lambda>m. start_interval m = None"
          and f = "on_key J j ''StartInterval'' (set_u32 J (\<lambda>n m. m\<lparr>start_interval := Some n\<rparr>))"
          and gs = "drop 14 (from_json_steps J j)" and m = default_manifest])
      (use run in \<open>auto simp: from_json_steps_def default_manifest_def split: option.splits
        intro!: keeps_rules dest!: step_u32 [where fld = start_interval and wrap = Some]\<close>)
  show "throttle_interval m = (case key_u32 J j ''ThrottleInterval'' of None \<Rightarrow> 10 | Some n \<Rightarrow> n)"
    by (rule field_of_step [where fs = "take 14 (from_json_steps J j)"
          and P = "\<lambda>m. throttle_interval m = 10"
          and f = "on_key J j ''ThrottleInterval'' (set_u32 J (\<lambda>n m. m\<lparr>throttle_interval := n\<rparr>))"
          and gs = "drop 15 (from_json_steps J j)" and m = default_manifest])
      (use run in \<open>auto simp: from_json_steps_def default_manifest_def split: option.splits
        intro!: keeps_rules dest!: step_u32 [where fld = throttle_interval and wrap = "\<lambda>n. n"]\<close>)
  show "keep_alive_always m = key_keep_alive J j"
    by (rule field_of_step [where fs = "take 25 (from_json_steps J j)"
          and P = "\<lambda>m. \<not> keep_alive_always m"
          and f = "on_key J j ''KeepAlive'' (set_keep_alive J)"
          and gs = "drop 26 (from_json_steps J j)" and m = default_manifest])
      (use run in \<open>auto simp: from_json_steps_def default_manifest_def
        intro!: keeps_rules dest!: step_keep_alive\<close>)
qed

text \<open>
  The keys that drive the scheduler are read as the manual documents them: each field of the
  parsed manifest is the value at its key, or the default when the key is absent.
\<close>

theorem get_manifest_schedule:
  assumes "get_manifest pf j = Inr m"
  shows "run_at_load m = key_bool (jlib pf) j ''RunAtLoad'' False \<and>
    disabled m = key_bool (jlib pf) j ''Disabled'' False \<and>
    start_interval m = key_u32 (jlib pf) j ''StartInterval'' \<and>
    throttle_interval m =
      (case key_u32 (jlib pf) j ''ThrottleInterval'' of None \<Rightarrow> 10 | Some n \<Rightarrow> n) \<and>
    keep_alive_always m = key_keep_alive (jlib pf) j"
proof -
  from assms obtain m1 where m1: "run_steps (from_json_steps (jlib pf) j) default_manifest = Inr m1"
    and r: "rectify m1 = Inr m"
    by (auto simp: get_manifest_def from_json_Inr)
  show ?thesis
    unfolding rectify_eq [OF r] using steps_schedule [OF m1] by simp
qed

theorem get_manifest_schedule_witness:
  "throttle_interval (projr (get_manifest null_platform sample_manifest)) = 30 \<and>
   keep_alive_always (projr (get_manifest null_platform sample_manifest))"
  using get_manifest_schedule [OF get_sample_manifest]
  by (simp add: get_sample_manifest)

section \<open>Umask\<close>

text \<open>
  An octal \<open>Umask\<close> string is read back as the number it prints, for every mode below
  \<open>2 ^ 32\<close>, with or without the leading zero that shell users write.
\<close>

theorem umask_octal_roundtrip:
  assumes "json_documented J" and "n < 2 ^ 32" and "pre \<in> {[], ''0''}"
  shows "set_umask J (JString (pre @ show_base 8 n)) m = Inr (m\<lparr>umask := Some (word_of_nat n)\<rparr>)"
proof -
  have zero: "scan_int 8 (CHR ''0'' # show_base 8 n) = Some (False, n)"
  proof -
    have d: "digit_value 8 (CHR ''0'') = Some 0"
      by (simp add: digit_value_def char_code_def)
    have "scan_nat 8 (CHR ''0'' # show_base 8 n) = Some n"
      by (simp add: scan_nat_def d scan_digits_show_base)
    then show ?thesis
      by (simp add: scan_int_def is_space_def char_code_def)
  qed
  have "scan_int 8 (pre @ show_base 8 n) = Some (False, n)"
    using assms(3) scan_int_show_base [of 8 n] zero by auto
  moreover have "n < 2 ^ 64" using assms(2) by simp
  moreover have "(ucast (word_of_nat n :: 64 word) :: 32 word) = word_of_nat n"
    using \<open>n < 2 ^ 64\<close> by (subst of_nat_unat [symmetric]) (simp add: unat_of_nat)
  ultimately show ?thesis
    using assms(1) by (simp add: set_umask_def documented_rules stoul_def)
qed

theorem umask_octal_roundtrip_witness:
  "set_umask nl_json (JString (''0'' @ show_base 8 493)) default_manifest =
     Inr (default_manifest\<lparr>umask := Some 493\<rparr>)"
  using umask_octal_roundtrip [OF nl_json_documented, of 493 "''0''" default_manifest] by simp

text \<open>
  A numeric \<open>Umask\<close> is accepted only where the JSON library types it as a signed integer.
  The library types the non-negative numbers of a parsed document as unsigned, so a manifest
  file with \<open>"Umask": 18\<close> never loads.
\<close>

theorem numeric_umask_rejected:
  assumes "json_documented (jlib pf)" and "j = JObject kvs"
    and "map_of kvs ''Umask'' = Some (JUnsigned n)"
  shows "\<exists>e. get_manifest pf j = Inl e"
proof -
  have "on_key (jlib pf) j ''Umask'' (set_umask (jlib pf)) \<in> set (from_json_steps (jlib pf) j)"
    by (simp add: from_json_steps_def)
  moreover have "on_key (jlib pf) j ''Umask'' (set_umask (jlib pf)) m \<noteq> Inr m'" for m m'
    using assms by (simp add: on_key_def set_umask_def documented_rules)
  ultimately have "run_steps (from_json_steps (jlib pf) j) m \<noteq> Inr m'" for m m'
    by (rule run_steps_stuck)
  then have "get_manifest pf j \<noteq> Inr m" for m
    by (auto simp: get_manifest_def from_json_Inr)
  then show ?thesis by (cases "get_manifest pf j") auto
qed

theorem numeric_umask_rejected_witness:
  "\<exists>e. get_manifest null_platform
     (JObject [(''Label'', JString ''a''), (''Program'', JString ''/p''), (''Umask'', JUnsigned 18)]) = Inl e"
  by (rule numeric_umask_rejected [OF _ refl, where n = 18]) (simp_all add: nl_json_documented)

section \<open>rectify and validate\<close>

text \<open>
  \<open>rectify\<close> fills in whichever of \<open>Program\<close> and \<open>ProgramArguments\<close> is missing, is
  idempotent, changes no other field, and fails exactly when both are missing.
\<close>

theorem rectify_spec:
  "(case rectify m of
      Inl e \<Rightarrow> program m = None \<and> program_arguments m = [] \<and> (\<exists>msg. e = Throw (LogicError msg))
    | Inr m' \<Rightarrow> rectify m' = Inr m' \<and> program m' \<noteq> None \<and> program_arguments m' \<noteq> [] \<and>
        (program m = None \<or> program m' = program m) \<and>
        (program_arguments m = [] \<or> program_arguments m' = program_arguments m) \<and>
        m'\<lparr>program := program m, program_arguments := program_arguments m\<rparr> = m)"
  by (cases m) (auto simp: rectify_def split: option.split)

text \<open>
  A manifest without a label is rejected by the release build; the debug build aborts the
  daemon instead, because \<open>validate\<close> converts the empty label to a string before it reports
  the error.
\<close>

theorem missing_label:
  assumes "run_steps (from_json_steps (jlib pf) j) default_manifest = Inr m1"
    and "\<not> j_contains (jlib pf) j ''Label''" and "rectify m1 = Inr m2"
  shows "get_manifest pf j =
    Inl (if ndebug pf then Throw InvalidManifestError else Abort ''!value.empty()'')"
proof -
  have "keeps (\<lambda>m. label m = []) (on_key (jlib pf) j ''Label'' (set_label (jlib pf)))"
    by (simp add: keeps_def on_key_def assms(2))
  then have "list_all (keeps (\<lambda>m. label m = [])) (from_json_steps (jlib pf) j)"
    by (auto simp: from_json_steps_def intro!: keeps_rules)
  then have "label m1 = []"
    using keeps_run_steps [where P = "\<lambda>m. label m = []", OF _ _ assms(1)]
    by (simp add: default_manifest_def)
  then have "label m2 = []" using rectify_eq [OF assms(3)] by simp
  then show ?thesis
    using assms by (simp add: get_manifest_def from_json_def validate_def label_string_def)
qed

theorem missing_label_witness:
  "get_manifest null_platform (JObject [(''Program'', JString ''/p'')]) = Inl (Abort ''!value.empty()'')"
proof -
  let ?j = "JObject [(''Program'', JString ''/p'')]"
  let ?m = "default_manifest\<lparr>program := Some ''/p''\<rparr>"
  have "run_steps (from_json_steps (jlib null_platform) ?j) default_manifest = Inr ?m"
    by (simp add: from_json_steps_def nl_json_def on_key_def unsupported_key_def set_string_def)
  moreover have "rectify ?m = Inr (?m\<lparr>program_arguments := [''/p'']\<rparr>)"
    by (simp add: rectify_def default_manifest_def)
  ultimately show ?thesis
    using missing_label [of null_platform ?j] by (simp add: null_platform_def nl_json_def)
qed

end
