(* ===== verification/Domain.thy ===== *)
theory Domain
  imports Platform Text
begin

text \<open>
  The domain the daemon runs in, \<open>src/domain.cc\<close>, and the configuration directory,
  \<open>src/options.cc\<close>. The paths of \<open>config.h\<close> are chosen when the program is configured, so
  they are the fields of \<open>build_config\<close>.
\<close>

record build_config =
  PKGSTATEDIR :: string
  SYSTEM_DAEMON_LOAD_PATH :: string
  VENDOR_DAEMON_LOAD_PATH :: string
  SYSTEM_AGENT_LOAD_PATH :: string
  VENDOR_AGENT_LOAD_PATH :: string
  USER_AGENT_LOAD_PATH :: string
  VERSION :: string

datatype domain_type = System | User | GUI

record domain =
  dtype :: domain_type
  statedir :: string

fun domain_to_string :: "domain \<Rightarrow> string" where
  "domain_to_string d =
     (case dtype d of System \<Rightarrow> ''system'' | User \<Rightarrow> ''user'' | GUI \<Rightarrow> ''gui'')"

definition getLoadPaths :: "build_config \<Rightarrow> domain \<Rightarrow> string list" where
  "getLoadPaths c d =
     (case dtype d of
        System \<Rightarrow> [SYSTEM_DAEMON_LOAD_PATH c, VENDOR_DAEMON_LOAD_PATH c]
      | User \<Rightarrow> [SYSTEM_AGENT_LOAD_PATH c, VENDOR_AGENT_LOAD_PATH c]
      | GUI \<Rightarrow> [USER_AGENT_LOAD_PATH c])"

definition getuid :: "platform \<Rightarrow> ('a os_state_scheme, int) M" where
  "getuid pf = bindM (callM pf (Acct SysGetuid)) (\<lambda>(uid, _). returnM uid)"

definition getenv :: "platform \<Rightarrow> string \<Rightarrow> ('a os_state_scheme, string option) M" where
  "getenv pf name = sysM (Acct (SysGetenv name)) (\<lambda>h. sys_getenv pf h name)"

definition detectDomainType :: "platform \<Rightarrow> ('a os_state_scheme, domain_type) M" where
  "detectDomainType pf =
     bindM (getuid pf) (\<lambda>uid.
     if uid = 0 then returnM System
     else
       bindM (getenv pf ''DISPLAY'') (\<lambda>display.
       returnM (if display \<noteq> None then GUI else User)))"

definition detectStateDir :: "build_config \<Rightarrow> platform \<Rightarrow> domain_type \<Rightarrow>
    ('a os_state_scheme, string) M" where
  "detectStateDir c pf dt =
     (if dt = System then returnM (PKGSTATEDIR c)
      else
        bindM (getenv pf ''XDG_STATE_HOME'') (\<lambda>xdg_state_home.
        bindM
          (case xdg_state_home of
             Some x \<Rightarrow> returnM x
           | None \<Rightarrow>
               bindM (getenv pf ''HOME'') (\<lambda>home_p.
               case home_p of
                 Some h \<Rightarrow> returnM (path_append (path_append h ''.local'') ''state'')
               | None \<Rightarrow> returnM []))
          (\<lambda>state_home.
           if state_home = [] then
             throwM (RuntimeError ''unable to determine the state directory'')
           else returnM (path_append state_home ''relaunchd''))))"

text \<open>The members are initialised in the order of their declaration: \<open>dtype\<close>, then \<open>statedir\<close>.\<close>

definition mk_domain :: "build_config \<Rightarrow> platform \<Rightarrow> domain_type option \<Rightarrow> string option \<Rightarrow>
    ('a os_state_scheme, domain) M" where
  "mk_domain c pf t sd =
     bindM (case t of Some dt \<Rightarrow> returnM dt | None \<Rightarrow> detectDomainType pf) (\<lambda>dt.
     bindM (case sd of Some d \<Rightarrow> returnM d | None \<Rightarrow> detectStateDir c pf dt) (\<lambda>d.
     returnM \<lparr>dtype = dt, statedir = d\<rparr>))"

definition getConfigDir :: "platform \<Rightarrow> ('a os_state_scheme, string) M" where
  "getConfigDir pf =
     bindM (getuid pf) (\<lambda>uid.
     if uid = 0 then returnM ''/etc/relaunchd''
     else
       bindM (getenv pf ''XDG_CONFIG_HOME'') (\<lambda>xdg_config_home.
       bindM
         (case xdg_config_home of
            Some x \<Rightarrow> returnM x
          | None \<Rightarrow>
              bindM (getenv pf ''HOME'') (\<lambda>home.
              case home of
                Some h \<Rightarrow> returnM (h @ ''/.local/config'')
              | None \<Rightarrow> throwM (RuntimeError ''No HOME environment variable is set'')))
         (\<lambda>configdir. returnM (configdir @ ''/relaunchd''))))"

section \<open>Properties\<close>

text \<open>
  An environment whose answers do not depend on when they are asked, with the user id and the
  variables given: what a process sees of its own credentials and environment.
\<close>

definition stable_env :: "platform \<Rightarrow> int \<Rightarrow> (string \<Rightarrow> string option) \<Rightarrow> bool" where
  "stable_env pf uid vars \<longleftrightarrow>
     (\<forall>h. fst (sys_int pf h (Acct SysGetuid)) = uid) \<and> (\<forall>h n. sys_getenv pf h n = vars n)"

text \<open>The domain and the state directory, as a table over the user id and the variables.\<close>

definition domain_spec :: "build_config \<Rightarrow> int \<Rightarrow> (string \<Rightarrow> string option) \<Rightarrow> exn + domain" where
  "domain_spec c uid vars =
     (if uid = 0 then Inr \<lparr>dtype = System, statedir = PKGSTATEDIR c\<rparr>
      else
        let dt = (if vars ''DISPLAY'' = None then User else GUI);
            base = (case (vars ''XDG_STATE_HOME'', vars ''HOME'') of
                (Some x, _) \<Rightarrow> x
              | (None, Some h) \<Rightarrow> path_append (path_append h ''.local'') ''state''
              | (None, None) \<Rightarrow> []) in
        if base = [] then Inl (RuntimeError ''unable to determine the state directory'')
        else Inr \<lparr>dtype = dt, statedir = path_append base ''relaunchd''\<rparr>)"

text \<open>
  C32: the domain a process gets is a function of its user id and of \<open>DISPLAY\<close>,
  \<open>XDG_STATE_HOME\<close> and \<open>HOME\<close>: root is the system domain, everybody else shares one state
  directory whichever of the two user domains is detected, and construction fails exactly when
  neither variable names a directory.
\<close>

theorem mk_domain_spec:
  assumes "stable_env pf uid vars"
  shows "fst (mk_domain c pf None None s) =
    (case domain_spec c uid vars of Inl e \<Rightarrow> Inl (Throw e) | Inr d \<Rightarrow> Inr d)"
  using assms
  by (auto simp: mk_domain_def detectDomainType_def detectStateDir_def getuid_def getenv_def
      stable_env_def domain_spec_def monad_simps Let_def split_beta split: option.split)

definition env_platform :: "int \<Rightarrow> (string \<Rightarrow> string option) \<Rightarrow> platform \<Rightarrow> platform" where
  "env_platform uid vars pf =
     pf\<lparr>sys_int := (\<lambda>_ _. (uid, 0)), sys_getenv := (\<lambda>_ n. vars n)\<rparr>"

lemma stable_env_platform: "stable_env (env_platform uid vars pf) uid vars"
  by (simp add: stable_env_def env_platform_def)

definition sample_config :: build_config where
  "sample_config = \<lparr> PKGSTATEDIR = ''/var/db/relaunchd'',
     SYSTEM_DAEMON_LOAD_PATH = ''/etc/relaunchd/LaunchDaemons'',
     VENDOR_DAEMON_LOAD_PATH = ''/lib/relaunchd/LaunchDaemons'',
     SYSTEM_AGENT_LOAD_PATH = ''/etc/relaunchd/LaunchAgents'',
     VENDOR_AGENT_LOAD_PATH = ''/lib/relaunchd/LaunchAgents'',
     USER_AGENT_LOAD_PATH = ''~/.config/relaunchd/LaunchAgents'', VERSION = ''0.7.0'' \<rparr>"

theorem mk_domain_spec_witness:
  "fst (mk_domain sample_config (env_platform 1000 [''HOME'' \<mapsto> ''/home/u''] null_platform)
       None None init_os) =
     Inr \<lparr>dtype = User, statedir = ''/home/u/.local/state/relaunchd''\<rparr>"
  using mk_domain_spec [OF stable_env_platform, of sample_config 1000 "[''HOME'' \<mapsto> ''/home/u'']"
      null_platform init_os]
  by (simp add: domain_spec_def path_append_def has_prefix_def)

end
