(* ===== verification/Job.thy ===== *)
theory Job
  imports Fsm Events Manifest Domain
begin

text \<open>
  One job: \<open>src/exec_monitor.h\<close>, \<open>src/job.h\<close> and \<open>src/job.cc\<close>.

  The operations of \<open>Job\<close> run on the state \<open>job_ctx\<close>: what the job shares with the manager
  (the event manager, the state file, the system) and the object itself, \<open>this\<close>, with its
  identity \<open>this_id\<close> for the closures that capture it. Logging is left out.
\<close>

section \<open>ExecMonitor\<close>

text \<open>The pair \<open>pfd\<close> is a local object of \<open>run\<close>, so it is passed as a value.\<close>

definition createPipe :: "platform \<Rightarrow> int \<times> int \<Rightarrow> ('a os_state_scheme, int \<times> int) M" where
  "createPipe pf pfd =
     (if 0 \<le> fst pfd \<or> 0 \<le> snd pfd then throwM (LogicError ''pipe is already created'')
      else
        bindM (sysM (Proc SysPipe) (\<lambda>h. (sys_int pf h (Proc SysPipe), sys_pipe_fds pf h)))
          (\<lambda>((rv, err), fds).
        if rv \<noteq> 0 then throwM (SystemError err ''fork(2)'')
        else
          thenM (forM [fst fds, snd fds] (\<lambda>fd.
            bindM (callM pf (Proc (SysFcntlCloexec fd))) (\<lambda>(rv, saved_errno).
            if rv \<noteq> 0 then
              thenM (callM pf (Proc (SysClose (fst fds))))
             (thenM (callM pf (Proc (SysClose (snd fds))))
                    (throwM (SystemError saved_errno ''fcntl(2)'')))
            else returnM ())))
          (returnM fds)))"

definition close_end :: "platform \<Rightarrow> int \<Rightarrow> ('a os_state_scheme, unit) M" where
  "close_end pf fd = thenM (callM pf (Proc (SysClose fd))) (returnM ())"

definition becomeChild :: "platform \<Rightarrow> int \<times> int \<Rightarrow> ('a os_state_scheme, int \<times> int) M" where
  "becomeChild pf pfd =
     thenM (c_assert pf (0 \<le> fst pfd) ''pfd[0] >= 0'')
    (thenM (close_end pf (fst pfd)) (returnM (- 1, snd pfd)))"

definition becomeParent :: "platform \<Rightarrow> int \<times> int \<Rightarrow> ('a os_state_scheme, int \<times> int) M" where
  "becomeParent pf pfd =
     thenM (c_assert pf (0 \<le> snd pfd) ''pfd[1] >= 0'')
    (thenM (close_end pf (snd pfd)) (returnM (fst pfd, - 1)))"

definition destroy_monitor :: "platform \<Rightarrow> int \<times> int \<Rightarrow> ('a os_state_scheme, unit) M" where
  "destroy_monitor pf pfd =
     thenM (whenM (0 < fst pfd) (close_end pf (fst pfd)))
           (whenM (0 < snd pfd) (close_end pf (snd pfd)))"

definition closePipe :: "platform \<Rightarrow> int \<times> int \<Rightarrow> ('a os_state_scheme, int \<times> int) M" where
  "closePipe pf pfd =
     thenM (whenM (0 \<le> fst pfd) (close_end pf (fst pfd)))
    (thenM (whenM (0 \<le> snd pfd) (close_end pf (snd pfd)))
           (returnM (if 0 \<le> fst pfd then - 1 else fst pfd, if 0 \<le> snd pfd then - 1 else snd pfd)))"

definition getReaderFd :: "int \<times> int \<Rightarrow> ('s, int) M" where
  "getReaderFd pfd =
     (if fst pfd < 0 then throwM (LogicError ''missing descriptor'') else returnM (fst pfd))"

definition sizeof_ExecStatus :: int where "sizeof_ExecStatus = 12"

definition readStatus :: "platform \<Rightarrow> int \<times> int \<Rightarrow> ('a os_state_scheme, exec_status) M" where
  "readStatus pf pfd =
     (let c = Proc (SysReadStatus (fst pfd)) in
      bindM (sysM c (\<lambda>h. (sys_int pf h c, sys_status pf h (fst pfd)))) (\<lambda>((bytes, err), result).
      returnM
        (if bytes < 0 then
           \<lparr>errorCode = ReadFailed, savedErrno = err, errorContext = ParentProcess\<rparr>
         else if bytes = 0 then
           \<lparr>errorCode = ExecSuccess, savedErrno = 0, errorContext = ParentProcess\<rparr>
         else if bytes < sizeof_ExecStatus then
           \<lparr>errorCode = ReadFailed, savedErrno = 0, errorContext = ParentProcess\<rparr>
         else result)))"

definition writeStatus :: "platform \<Rightarrow> int \<times> int \<Rightarrow> exec_status \<Rightarrow> ('a os_state_scheme, unit) M" where
  "writeStatus pf pfd status =
     thenM (callM pf (Child (SysWriteStatus (snd pfd) status))) (returnM ())"

fun getErrorCode :: "exec_error_code \<Rightarrow> string" where
  "getErrorCode ExecSuccess = ''ExecSuccess''"
| "getErrorCode CreateSessionFailed = ''CreateSessionFailed''"
| "getErrorCode SetWorkingDirectoryFailed = ''SetWorkingDirectoryFailed''"
| "getErrorCode SetRootDirectoryFailed = ''SetRootDirectoryFailed''"
| "getErrorCode SetPriorityFailed = ''SetPriorityFailed''"
| "getErrorCode InitGroupsFailed = ''InitGroupsFailed''"
| "getErrorCode SetGroupIdFailed = ''SetGroupIdFailed''"
| "getErrorCode SetLoginFailed = ''SetLoginFailed''"
| "getErrorCode SetUserIdFailed = ''SetUserIdFailed''"
| "getErrorCode OpenFailed = ''OpenFailed''"
| "getErrorCode ReadFailed = ''ReadFailed''"
| "getErrorCode CloseFailed = ''CloseFailed''"
| "getErrorCode Dup2Failed = ''Dup2Failed''"
| "getErrorCode MemoryAllocationFailed = ''MemoryAllocationFailed''"
| "getErrorCode ExecFailed = ''ExecFailed''"
| "getErrorCode ForkHandlerFailed = ''ForkHandlerFailed''"

fun context_number :: "error_context \<Rightarrow> int" where
  "context_number ChildProcess = 0"
| "context_number RedirectStdin = 1"
| "context_number RedirectStdout = 2"
| "context_number RedirectStderr = 3"
| "context_number ParentProcess = 4"

definition exec_status_toString :: "platform \<Rightarrow> exec_status \<Rightarrow> string" where
  "exec_status_toString pf st =
     ''[ExecStatus: code='' @ getErrorCode (errorCode st) @
     '' context='' @ to_string (context_number (errorContext st)) @
     (if savedErrno st \<noteq> 0 then
        '' errno='' @ sys_strerror pf (savedErrno st) @ ''('' @ to_string (savedErrno st) @ '')''
      else []) @ '']''"

section \<open>The object\<close>

datatype job_schedule = JOB_SCHEDULE_NONE | JOB_SCHEDULE_PERIODIC | JOB_SCHEDULE_CALENDAR

datatype job_state = Loaded | Waiting | Running | Exited | Unloaded

datatype job_trigger = Bootstrap | StartRequested | StopRequested | ProcessExited | UnloadRequested

record job =
  jb_started_at :: "int option"
  jb_manifest_path :: "string option"
  jb_manifest :: manifest
  jb_pid :: int
  jb_pgid :: int
  jb_last_exit_status :: int
  jb_term_signal :: int
  jb_schedule :: job_schedule
  jb_state :: job_state
  jb_timer_id :: "int option"
  jb_unload_requested :: bool

record job_ctx = em_state +
  this :: job
  this_id :: nat

definition getJ :: "(job \<Rightarrow> 'b) \<Rightarrow> ('a job_ctx_scheme, 'b) M" where
  "getJ f = getsM (\<lambda>s. f (this s))"

definition updJ :: "(job \<Rightarrow> job) \<Rightarrow> ('a job_ctx_scheme, unit) M" where
  "updJ f = modifyM (\<lambda>s. s\<lparr>this := f (this s)\<rparr>)"

lemma getJ_apply [monad_simps]: "getJ f s = (Inr (f (this s)), s)"
  by (simp add: getJ_def getsM_def)

lemma updJ_apply [monad_simps]: "updJ f s = (Inr (), s\<lparr>this := f (this s)\<rparr>)"
  by (simp add: updJ_def modifyM_def)

lemma preserves_getJ [preserves_rules]: "preserves I (getJ f)"
  by (simp add: preserves_def getJ_apply)

lemma preserves_updJ [preserves_rules]:
  "(\<And>s. I s \<Longrightarrow> I (s\<lparr>this := f (this s)\<rparr>)) \<Longrightarrow> preserves I (updJ f)"
  by (simp add: preserves_def updJ_apply)

definition opt_value :: "'b option \<Rightarrow> ('s, 'b) M" where
  "opt_value x = (case x of None \<Rightarrow> throwM BadOptionalAccess | Some v \<Rightarrow> returnM v)"

definition set_schedule :: "manifest \<Rightarrow> job_schedule" where
  "set_schedule m =
     (case start_interval m of
        Some i \<Rightarrow> if 0 < i then JOB_SCHEDULE_PERIODIC else JOB_SCHEDULE_NONE
      | None \<Rightarrow> JOB_SCHEDULE_NONE)"

definition mk_job :: "string option \<Rightarrow> manifest \<Rightarrow> job" where
  "mk_job path m = \<lparr>
     jb_started_at = None, jb_manifest_path = path, jb_manifest = m,
     jb_pid = 0, jb_pgid = - 1, jb_last_exit_status = 0, jb_term_signal = 0,
     jb_schedule = set_schedule m, jb_state = Loaded, jb_timer_id = None,
     jb_unload_requested = False \<rparr>"

fun job_stateToString :: "job_state \<Rightarrow> string" where
  "job_stateToString Loaded = ''loaded''"
| "job_stateToString Waiting = ''waiting''"
| "job_stateToString Running = ''running''"
| "job_stateToString Exited = ''exited''"
| "job_stateToString Unloaded = ''unloaded''"

fun job_triggerToString :: "job_trigger \<Rightarrow> string" where
  "job_triggerToString Bootstrap = ''Bootstrap''"
| "job_triggerToString StartRequested = ''StartRequested''"
| "job_triggerToString StopRequested = ''StopRequested''"
| "job_triggerToString ProcessExited = ''ProcessExited''"
| "job_triggerToString UnloadRequested = ''UnloadRequested''"

section \<open>The child process\<close>

text \<open>Called with a copy of the vector, which it drops.\<close>

definition standard_keys :: "string list" where
  "standard_keys = [''DISPLAY'', ''LC_ALL'', ''LC_COLLATE'', ''LC_CTYPE'', ''LC_MESSAGES'',
     ''LC_MONETARY'', ''LC_NUMERIC'', ''LC_TIME'', ''NLSPATH'', ''LANG'', ''TZ'']"

definition add_standard_environment_variables :: "platform \<Rightarrow> string list \<Rightarrow>
    ('a os_state_scheme, unit) M" where
  "add_standard_environment_variables pf envvar =
     thenM (foldM (\<lambda>v key.
         bindM (getenv pf key) (\<lambda>envp.
         returnM (case envp of Some val \<Rightarrow> v @ [key @ ''='' @ val] | None \<Rightarrow> v)))
       envvar standard_keys)
     (returnM ())"

definition default_var :: "manifest \<Rightarrow> string \<Rightarrow> string \<Rightarrow> string list" where
  "default_var m key entry = (if map_of (environment_variables m) key = None then [entry] else [])"

definition setup_environment_variables :: "platform \<Rightarrow> passwd option \<Rightarrow>
    ('a job_ctx_scheme, string list) M" where
  "setup_environment_variables pf pwent =
     bindM (getJ jb_manifest) (\<lambda>m.
     bindM
       (if (case pwent of None \<Rightarrow> True | Some pw \<Rightarrow> 0 < pw_uid pw) then
          bindM (case pwent of
              Some pw \<Rightarrow> returnM (pw_name pw, pw_dir pw, pw_shell pw)
            | None \<Rightarrow> bindM (getuid pf) (\<lambda>uid. returnM (to_string uid, ''/'', ''/bin/sh'')))
            (\<lambda>(name, dir, shell).
          returnM
            (default_var m ''LOGNAME'' (''LOGNAME='' @ name) @
             default_var m ''USER'' (''USER='' @ name) @
             default_var m ''HOME'' (''HOME='' @ dir) @
             default_var m ''PATH'' ''PATH=/usr/bin:/bin:/usr/local/bin'' @
             default_var m ''SHELL'' (''HOME='' @ shell) @
             default_var m ''TMPDIR'' ''TMPDIR=/tmp'' @
             default_var m ''PWD'' ''PWD=/''))
        else returnM [])
       (\<lambda>session.
     let result = map (\<lambda>(key, val). key @ ''='' @ val) (environment_variables m) @ session in
     thenM (add_standard_environment_variables pf result) (returnM result)))"

text \<open>\<open>if (call < 0) return ExecStatus{code, errno};\<close> and on.\<close>

definition or_fail :: "platform \<Rightarrow> child_call \<Rightarrow> exec_error_code \<Rightarrow>
    ('a os_state_scheme, exec_status option) M \<Rightarrow> ('a os_state_scheme, exec_status option) M" where
  "or_fail pf c code rest =
     bindM (callM pf (Child c)) (\<lambda>(rv, err).
     if rv < 0 then
       returnM (Some \<lparr>errorCode = code, savedErrno = err, errorContext = ChildProcess\<rparr>)
     else rest)"

text \<open>\<open>if (option && call(option.value()) < 0) return ...\<close>\<close>

definition or_fail_opt :: "platform \<Rightarrow> child_call option \<Rightarrow> exec_error_code \<Rightarrow>
    ('a os_state_scheme, exec_status option) M \<Rightarrow> ('a os_state_scheme, exec_status option) M" where
  "or_fail_opt pf oc code rest = (case oc of None \<Rightarrow> rest | Some c \<Rightarrow> or_fail pf c code rest)"

definition replace_fd :: "platform \<Rightarrow> int \<Rightarrow> string \<Rightarrow> int \<Rightarrow> int \<Rightarrow>
    ('a os_state_scheme, exec_status option) M" where
  "replace_fd pf oldfd path flags mode =
     bindM (callM pf (Child (SysOpen path flags mode))) (\<lambda>(newfd, err).
     if newfd < 0 then
       returnM (Some \<lparr>errorCode = OpenFailed, savedErrno = err, errorContext = ChildProcess\<rparr>)
     else
       bindM (callM pf (Child (SysDup2 newfd oldfd))) (\<lambda>(rv, err).
       if rv < 0 then
         bindM (callM pf (Proc (SysClose newfd))) (\<lambda>(rv', err').
         returnM (Some \<lparr>errorCode = Dup2Failed, savedErrno = (if rv' < 0 then err' else err),
           errorContext = ChildProcess\<rparr>))
       else
         bindM (callM pf (Proc (SysClose newfd))) (\<lambda>(rv, err).
         if rv < 0 then
           returnM (Some \<lparr>errorCode = CloseFailed, savedErrno = err, errorContext = ChildProcess\<rparr>)
         else returnM None)))"

record execution_context =
  ctx_gid :: "int option"
  ctx_uid :: "int option"
  ctx_environ :: "string list"

definition O_RDONLY :: int where "O_RDONLY = 0"
definition O_CREAT_WRONLY :: int where "O_CREAT_WRONLY = 65"

text \<open>The redirections and the \<open>execve\<close>, after the credentials are set.\<close>

definition redirect :: "platform \<Rightarrow> int \<Rightarrow> string \<Rightarrow> int \<Rightarrow> int \<Rightarrow> error_context \<Rightarrow>
    ('a os_state_scheme, exec_status option) M \<Rightarrow> ('a os_state_scheme, exec_status option) M" where
  "redirect pf oldfd path flags mode ec rest =
     bindM (replace_fd pf oldfd path flags mode) (\<lambda>maybe_error.
     case maybe_error of
       Some st \<Rightarrow> returnM (Some (st\<lparr>errorContext := ec\<rparr>))
     | None \<Rightarrow> rest)"

definition exec_image :: "platform \<Rightarrow> manifest \<Rightarrow> string list \<Rightarrow>
    ('a os_state_scheme, exec_status option) M" where
  "exec_image pf m envp =
     or_fail pf (SysCalloc (length envp + 1)) MemoryAllocationFailed
    (or_fail pf (SysCalloc (length (program_arguments m) + 1)) MemoryAllocationFailed
    (case (case program m of Some p \<Rightarrow> Some p
           | None \<Rightarrow> (case program_arguments m of [] \<Rightarrow> None | a # _ \<Rightarrow> Some a)) of
       None \<Rightarrow> throwM (LogicError ''path cannot be empty'')
     | Some path \<Rightarrow>
         bindM (callM pf (Child (SysExecve path (program_arguments m) envp))) (\<lambda>(rv, err).
         if 0 \<le> rv then failM (Exec path (program_arguments m) envp)
         else returnM (Some \<lparr>errorCode = ExecFailed, savedErrno = err,
                errorContext = ChildProcess\<rparr>))))"

definition set_credentials :: "platform \<Rightarrow> manifest \<Rightarrow> execution_context \<Rightarrow>
    ('a os_state_scheme, exec_status option) M \<Rightarrow> ('a os_state_scheme, exec_status option) M" where
  "set_credentials pf m ctx rest =
     (case user_name m of
        None \<Rightarrow> rest
      | Some user \<Rightarrow>
          (let after_groups =
             bindM (opt_value (ctx_gid ctx)) (\<lambda>g.
             or_fail pf (SysSetgid g) SetGroupIdFailed
               (let uid_step =
                  bindM (opt_value (ctx_uid ctx)) (\<lambda>u.
                  or_fail pf (SysSetuid u) SetUserIdFailed rest) in
                if have_setlogin pf then or_fail pf (SysSetlogin user) SetLoginFailed uid_step
                else uid_step)) in
           if init_groups m then
             bindM (opt_value (ctx_gid ctx)) (\<lambda>g.
             or_fail pf (SysInitgroups user g) InitGroupsFailed after_groups)
           else after_groups))"

definition child_steps :: "platform \<Rightarrow> manifest \<Rightarrow> execution_context \<Rightarrow>
    ('a os_state_scheme, exec_status option) M" where
  "child_steps pf m ctx =
     thenM (callM pf (Child (SysUmask (case umask m of Some u \<Rightarrow> uint u | None \<Rightarrow> 18))))
    (or_fail pf SysSetsid CreateSessionFailed
    (or_fail_opt pf (map_option (\<lambda>n. SysSetpriority (sint n)) (nice m)) SetPriorityFailed
    (or_fail_opt pf (map_option SysChdir (working_directory m)) SetWorkingDirectoryFailed
    (or_fail_opt pf (map_option SysChroot (root_directory m)) SetRootDirectoryFailed
    (set_credentials pf m ctx
    (redirect pf 0 (stdin_path m) O_RDONLY 0 RedirectStdin
    (redirect pf 1 (stdout_path m) O_CREAT_WRONLY 384 RedirectStdout
    (redirect pf 2 (stderr_path m) O_CREAT_WRONLY 384 RedirectStderr
    (exec_image pf m (ctx_environ ctx))))))))))"

definition start_child_process :: "platform \<Rightarrow> execution_context \<Rightarrow>
    ('a job_ctx_scheme, exec_status option) M" where
  "start_child_process pf ctx = bindM (getJ jb_manifest) (\<lambda>m. child_steps pf m ctx)"

text \<open>The branch \<open>pid == 0\<close> of \<open>run\<close>.\<close>

definition run_child :: "platform \<Rightarrow> ('a job_ctx_scheme, unit) M \<Rightarrow> execution_context \<Rightarrow> int \<times> int \<Rightarrow>
    ('a job_ctx_scheme, bool) M" where
  "run_child pf post_fork_cleanup ctx pfd =
     bindM (becomeChild pf pfd) (\<lambda>pfd.
     thenM (catchM post_fork_cleanup (\<lambda>_. writeStatus pf pfd
       \<lparr>errorCode = ForkHandlerFailed, savedErrno = 0, errorContext = ChildProcess\<rparr>))
    (bindM (start_child_process pf ctx) (\<lambda>maybe_error.
     thenM (case maybe_error of Some st \<Rightarrow> writeStatus pf pfd st | None \<Rightarrow> returnM ())
           (failM (Exit 127)))))"

text \<open>The branch of the parent.\<close>

definition run_parent :: "platform \<Rightarrow> int \<times> int \<Rightarrow> int \<Rightarrow> ('a job_ctx_scheme, bool) M" where
  "run_parent pf pfd pid =
     bindM (current_time pf) (\<lambda>now.
     thenM (updJ (jb_started_at_update (\<lambda>_. Some now)))
    (bindM (becomeParent pf pfd) (\<lambda>pfd.
     bindM (readStatus pf pfd) (\<lambda>status.
     if errorCode status = ExecSuccess then
       bindM (callM pf (Proc (SysGetpgid pid))) (\<lambda>(pgid, _).
       thenM (updJ (jb_pgid_update (\<lambda>_. pgid)))
      (thenM (destroy_monitor pf pfd) (returnM True)))
     else
       thenM (callM pf (Proc (SysKill pid SIGKILL)))
      (thenM (callM pf (Proc (SysWaitpid pid)))
      (thenM (updJ (jb_pid_update (\<lambda>_. 0)))
      (thenM (destroy_monitor pf pfd) (returnM False))))))))"

text \<open>
  \<open>run\<close>. \<open>ExecutionContext ctx{uid, gid, ...}\<close> initialises the members in the order of their
  declaration, which is \<open>gid\<close>, \<open>uid\<close>, \<open>environ\<close>.
\<close>

definition run_ids :: "manifest \<Rightarrow> passwd option \<Rightarrow> int option \<Rightarrow>
    ('s, int option \<times> int option) M" where
  "run_ids m pwent grent =
     (if user_name m = None then returnM (None, None)
      else
        case pwent of
          None \<Rightarrow> failM (Undefined ''pwent->pw_uid'')
        | Some pw \<Rightarrow>
            if group_name m = None then returnM (Some (pw_uid pw), Some (pw_gid pw))
            else
              case grent of
                None \<Rightarrow> failM (Undefined ''grent->gr_gid'')
              | Some g \<Rightarrow> returnM (Some (pw_uid pw), Some g))"

definition look_up_accounts :: "platform \<Rightarrow> manifest \<Rightarrow>
    ('a os_state_scheme, int option \<times> passwd option) M" where
  "look_up_accounts pf m =
     bindM (case group_name m of
         Some g \<Rightarrow> sysM (Acct (SysGetgrnam g)) (\<lambda>h. sys_group pf h (Acct (SysGetgrnam g)))
       | None \<Rightarrow>
           bindM (callM pf (Acct SysGetgid)) (\<lambda>(gid, _).
           sysM (Acct (SysGetgrgid gid)) (\<lambda>h. sys_group pf h (Acct (SysGetgrgid gid)))))
       (\<lambda>grent.
     bindM (case user_name m of
         Some u \<Rightarrow> sysM (Acct (SysGetpwnam u)) (\<lambda>h. sys_passwd pf h (Acct (SysGetpwnam u)))
       | None \<Rightarrow>
           bindM (getuid pf) (\<lambda>uid.
           sysM (Acct (SysGetpwuid uid)) (\<lambda>h. sys_passwd pf h (Acct (SysGetpwuid uid)))))
       (\<lambda>pwent. returnM (grent, pwent)))"

definition run_fork :: "platform \<Rightarrow> ('a job_ctx_scheme, unit) M \<Rightarrow> execution_context \<Rightarrow>
    ('a job_ctx_scheme, bool) M" where
  "run_fork pf post_fork_cleanup ctx =
     bindM (createPipe pf (- 1, - 1)) (\<lambda>pfd.
     bindM (callM pf (Proc SysFork)) (\<lambda>(pid, _).
     thenM (updJ (jb_pid_update (\<lambda>_. pid)))
    (if pid < 0 then thenM (destroy_monitor pf pfd) (returnM False)
     else if pid = 0 then run_child pf post_fork_cleanup ctx pfd
     else run_parent pf pfd pid)))"

definition job_run :: "platform \<Rightarrow> ('a job_ctx_scheme, unit) M \<Rightarrow> ('a job_ctx_scheme, bool) M" where
  "job_run pf post_fork_cleanup =
     bindM (getJ jb_manifest) (\<lambda>m.
     bindM (look_up_accounts pf m) (\<lambda>(grent, pwent).
     bindM (run_ids m pwent grent) (\<lambda>(uid, gid).
     bindM (setup_environment_variables pf pwent) (\<lambda>env.
     run_fork pf post_fork_cleanup \<lparr>ctx_gid = uid, ctx_uid = gid, ctx_environ = env\<rparr>))))"

section \<open>Signals to the process\<close>

definition job_killJob :: "platform \<Rightarrow> int \<Rightarrow> ('a job_ctx_scheme, bool) M" where
  "job_killJob pf signum =
     bindM (getJ jb_pid) (\<lambda>pid.
     if pid = 0 then returnM True
     else
       bindM (callM pf (Proc (SysKill pid signum))) (\<lambda>(rv, _).
       returnM (0 \<le> rv)))"

primrec kill_group_loop :: "nat \<Rightarrow> platform \<Rightarrow> int \<Rightarrow> ('a os_state_scheme, bool) M" where
  "kill_group_loop 0 pf pgid = failM Hang"
| "kill_group_loop (Suc n) pf pgid =
     bindM (callM pf (Proc (SysKillpg pgid SIGKILL))) (\<lambda>(rv, err).
     if rv = - 1 \<and> err \<noteq> ESRCH \<and> err \<noteq> EPERM then returnM False
     else
       bindM (callM pf (Proc (SysWaitpid (- 1 * pgid)))) (\<lambda>(rv, err).
       if rv < 0 \<and> err \<noteq> ECHILD then returnM False
       else if rv \<le> 0 then returnM True
       else kill_group_loop n pf pgid))"

definition killProcessGroup :: "platform \<Rightarrow> ('a job_ctx_scheme, bool) M" where
  "killProcessGroup pf =
     bindM (getJ jb_pgid) (\<lambda>pgid.
     bindM (getJ jb_manifest) (\<lambda>m.
     if pgid < 0 then returnM False
     else if abandon_process_group m then returnM False
     else kill_group_loop (loop_bound pf) pf pgid))"

definition reapChildProcess :: "platform \<Rightarrow> int \<Rightarrow> ('a job_ctx_scheme, unit) M" where
  "reapChildProcess pf status =
     thenM
       (if WIFEXITED status then
          updJ (jb_last_exit_status_update (\<lambda>_. WEXITSTATUS status))
        else if WIFSIGNALED status then
          updJ (\<lambda>j. j\<lparr>jb_last_exit_status := - 1, jb_term_signal := WTERMSIG status\<rparr>)
        else if WIFSTOPPED status then
          throwM (LogicError ''This method should not be called when the process is stopped'')
        else throwM (RangeError ''invalid status''))
    (thenM (updJ (jb_pid_update (\<lambda>_. 0)))
    (thenM (killProcessGroup pf) (returnM ())))"

section \<open>Starting, timers\<close>

definition job_startJob :: "platform \<Rightarrow> (job_ctx, unit) M" where
  "job_startJob pf =
     bindM (current_time pf) (\<lambda>now.
     thenM (updJ (jb_started_at_update (\<lambda>_. Some now)))
    (bindM (job_run pf (handleFork pf)) (\<lambda>ok.
     if ok then
       bindM (getJ jb_pid) (\<lambda>pid.
       bindM (getsM this_id) (\<lambda>me. addProcess pf pid (OnProcessExit me)))
     else returnM ())))"

definition started_time :: "('a job_ctx_scheme, int) M" where
  "started_time =
     bindM (getJ jb_started_at) (\<lambda>t.
     case t of None \<Rightarrow> failM (Undefined ''*started_at'') | Some t \<Rightarrow> returnM t)"

definition startAfterThrottleInterval :: "platform \<Rightarrow> (job_ctx, unit) M" where
  "startAfterThrottleInterval pf =
     bindM (current_time pf) (\<lambda>now.
     bindM started_time (\<lambda>started.
     bindM (getJ jb_manifest) (\<lambda>m.
     bindM (getsM this_id) (\<lambda>me.
     let elapsed = now - started;
         seconds = uint (throttle_interval m) - elapsed in
     bindM (addTimer pf (seconds * 1000) (OnThrottleTimer me)) (\<lambda>timer_id.
     updJ (jb_timer_id_update (\<lambda>_. Some timer_id)))))))"

definition schedulePeriodicJob :: "platform \<Rightarrow> (job_ctx, unit) M" where
  "schedulePeriodicJob pf =
     bindM (getJ jb_timer_id) (\<lambda>t.
     thenM (c_assert pf (t = None) ''!timer_id'')
    (bindM (getJ jb_manifest) (\<lambda>m.
     bindM (opt_value (start_interval m)) (\<lambda>ms.
     bindM (getsM this_id) (\<lambda>me.
     bindM (addTimer pf (uint ms) (OnPeriodicTimer me)) (\<lambda>timer_id.
     updJ (jb_timer_id_update (\<lambda>_. Some timer_id))))))))"

definition cancelTimer :: "platform \<Rightarrow> (job_ctx, unit) M" where
  "cancelTimer pf =
     bindM (getJ jb_timer_id) (\<lambda>t.
     bindM (opt_value t) (\<lambda>timer_id.
     thenM (deleteTimer pf timer_id)
           (updJ (jb_timer_id_update (\<lambda>_. None)))))"

definition shouldThrottle :: "platform \<Rightarrow> (job_ctx, bool) M" where
  "shouldThrottle pf =
     bindM (current_time pf) (\<lambda>now.
     bindM started_time (\<lambda>started.
     bindM (getJ jb_manifest) (\<lambda>m.
     returnM (now - started < uint (throttle_interval m)))))"

definition isDisabled :: "platform \<Rightarrow> ('a job_ctx_scheme, bool) M" where
  "isDisabled pf =
     bindM (getJ jb_manifest) (\<lambda>m.
     bindM sf_getValue (\<lambda>state.
     bindM (liftE (override_enabled (jlib pf) state (label m))) (\<lambda>r.
     returnM (case r of Some enabled \<Rightarrow> \<not> enabled | None \<Rightarrow> disabled m))))"

section \<open>The state machine\<close>

definition submit_delete :: "(job_ctx, unit) M" where
  "submit_delete =
     bindM (getJ (\<lambda>j. label (jb_manifest j))) (\<lambda>l. submitIpcCallback ''delete_job'' l)"

definition cancel_if_set :: "platform \<Rightarrow> (job_ctx, unit) M" where
  "cancel_if_set pf = bindM (getJ jb_timer_id) (\<lambda>t. whenM (t \<noteq> None) (cancelTimer pf))"

abbreviation always_true :: "(job_ctx, bool) M option" where
  "always_true \<equiv> Some (returnM True)"

definition guard_bootstrap_run :: "platform \<Rightarrow> (job_ctx, bool) M" where
  "guard_bootstrap_run pf =
     bindM (isDisabled pf) (\<lambda>d.
     bindM (getJ jb_manifest) (\<lambda>m.
     returnM (\<not> d \<and> (run_at_load m \<or> keep_alive_always m))))"

definition guard_bootstrap_wait :: "platform \<Rightarrow> (job_ctx, bool) M" where
  "guard_bootstrap_wait pf =
     bindM (isDisabled pf) (\<lambda>d.
     bindM (getJ jb_manifest) (\<lambda>m.
     returnM (\<not> d \<and> start_interval m \<noteq> None \<and> \<not> run_at_load m)))"

definition guard_exited :: "(job_ctx, bool) M" where
  "guard_exited = getJ (\<lambda>j. \<not> keep_alive_always (jb_manifest j) \<and>
     start_interval (jb_manifest j) = None \<and> \<not> jb_unload_requested j)"

text \<open>\<open>&&\<close> does not read the clock when \<open>KeepAlive\<close> is off.\<close>

definition guard_keep_alive :: "platform \<Rightarrow> bool \<Rightarrow> (job_ctx, bool) M" where
  "guard_keep_alive pf throttled =
     bindM (getJ (\<lambda>j. keep_alive_always (jb_manifest j))) (\<lambda>always.
     if \<not> always then returnM False
     else
       bindM (shouldThrottle pf) (\<lambda>t.
       if t = throttled then getJ (\<lambda>j. \<not> jb_unload_requested j) else returnM False))"

definition job_table :: "platform \<Rightarrow> (job_trigger \<Rightarrow> (job_ctx, fsm_status) M) \<Rightarrow>
    (job_ctx, job_state, job_trigger) trans list" where
  "job_table pf exec = [
     \<lparr>from_state = Loaded, to_state = Running, trigger = Bootstrap,
      guard = Some (guard_bootstrap_run pf),
      action = Some (thenM (exec StartRequested) (returnM ()))\<rparr>,
     \<lparr>from_state = Loaded, to_state = Waiting, trigger = Bootstrap,
      guard = Some (guard_bootstrap_wait pf),
      action = Some (schedulePeriodicJob pf)\<rparr>,
     \<lparr>from_state = Loaded, to_state = Running, trigger = StartRequested,
      guard = always_true, action = Some (job_startJob pf)\<rparr>,
     \<lparr>from_state = Loaded, to_state = Unloaded, trigger = UnloadRequested,
      guard = always_true, action = Some submit_delete\<rparr>,
     \<lparr>from_state = Waiting, to_state = Running, trigger = StartRequested,
      guard = always_true, action = Some (thenM (cancel_if_set pf) (job_startJob pf))\<rparr>,
     \<lparr>from_state = Waiting, to_state = Unloaded, trigger = UnloadRequested,
      guard = always_true, action = Some (thenM (cancel_if_set pf) submit_delete)\<rparr>,
     \<lparr>from_state = Running, to_state = Exited, trigger = ProcessExited,
      guard = Some guard_exited, action = Some (returnM ())\<rparr>,
     \<lparr>from_state = Running, to_state = Running, trigger = ProcessExited,
      guard = Some (guard_keep_alive pf False), action = Some (job_startJob pf)\<rparr>,
     \<lparr>from_state = Running, to_state = Running, trigger = StopRequested,
      guard = always_true,
      action = Some (thenM (job_killJob pf SIGTERM) (returnM ()))\<rparr>,
     \<lparr>from_state = Running, to_state = Waiting, trigger = ProcessExited,
      guard = Some (guard_keep_alive pf True), action = Some (startAfterThrottleInterval pf)\<rparr>,
     \<lparr>from_state = Running, to_state = Unloaded, trigger = ProcessExited,
      guard = Some (getJ jb_unload_requested), action = Some submit_delete\<rparr>,
     \<lparr>from_state = Exited, to_state = Unloaded, trigger = UnloadRequested,
      guard = always_true, action = Some submit_delete\<rparr>]"

definition get_job_state :: "job_ctx \<Rightarrow> job_state" where
  "get_job_state s = jb_state (this s)"

definition put_job_state :: "job_state \<Rightarrow> job_ctx \<Rightarrow> job_ctx" where
  "put_job_state st s = s\<lparr>this := (this s)\<lparr>jb_state := st\<rparr>\<rparr>"

text \<open>
  The action of \<open>Bootstrap\<close> calls \<open>execute\<close> again; the first argument bounds the nesting.
\<close>

primrec job_execute_n :: "nat \<Rightarrow> platform \<Rightarrow> job_trigger \<Rightarrow> (job_ctx, fsm_status) M" where
  "job_execute_n 0 pf tr = failM Hang"
| "job_execute_n (Suc n) pf tr =
     execute get_job_state put_job_state (Some (\<lambda>_ _ _. returnM ()))
       (add_transitions Map.empty (job_table pf (job_execute_n n pf))) tr"

definition job_execute :: "platform \<Rightarrow> job_trigger \<Rightarrow> (job_ctx, fsm_status) M" where
  "job_execute pf tr = job_execute_n 2 pf tr"

section \<open>Unloading\<close>

definition forceUnloadJob :: "platform \<Rightarrow> (job_ctx, unit) M" where
  "forceUnloadJob pf =
     noexceptM
      (bindM (getJ jb_pid) (\<lambda>pid.
       thenM (whenM (pid \<noteq> 0)
          (thenM (callM pf (Proc (SysKill pid SIGKILL)))
          (thenM (callM pf (Proc (SysWaitpid pid)))
          (thenM (killProcessGroup pf)
          (thenM (deleteProcess pid)
                 (updJ (\<lambda>j. j\<lparr>jb_pid := 0, jb_pgid := - 1\<rparr>)))))))
      (thenM (cancel_if_set pf)
             (fsm_reset put_job_state Unloaded))))"

definition job_unloadJob :: "platform \<Rightarrow> bool \<Rightarrow> (job_ctx, bool) M" where
  "job_unloadJob pf forceUnload =
     bindM (getsM get_job_state) (\<lambda>st.
     if st = Unloaded then returnM False
     else
       bindM (getJ jb_unload_requested) (\<lambda>requested.
       if requested then returnM False
       else
         thenM (updJ (jb_unload_requested_update (\<lambda>_. True)))
        (bindM (isDisabled pf) (\<lambda>d.
         if d \<and> \<not> forceUnload then returnM False
         else
           thenM (job_execute pf StopRequested)
          (thenM (job_execute pf UnloadRequested) (returnM True))))))"

section \<open>The closures that capture the job\<close>

definition on_process_exit :: "platform \<Rightarrow> int \<Rightarrow> (job_ctx, unit) M" where
  "on_process_exit pf status =
     (if WIFSTOPPED status then returnM ()
      else
        thenM (reapChildProcess pf status)
       (thenM (job_execute pf ProcessExited) (returnM ())))"

definition on_throttle_timer :: "platform \<Rightarrow> (job_ctx, unit) M" where
  "on_throttle_timer pf =
     thenM (updJ (jb_timer_id_update (\<lambda>_. None)))
    (thenM (job_execute pf StartRequested) (returnM ()))"

definition on_periodic_timer :: "platform \<Rightarrow> (job_ctx, unit) M" where
  "on_periodic_timer pf =
     thenM (updJ (jb_timer_id_update (\<lambda>_. None))) (job_startJob pf)"

end
