(* ===== verification/Channel.thy ===== *)
theory Channel
  imports Platform
begin

text \<open>
  The socket between \<open>launchctl\<close> and \<open>launchd\<close>: \<open>src/channel.h\<close> and \<open>src/channel.cc\<close>. The
  object is a value that each operation takes and, when it changes it, returns. An operation that
  throws leaves it as it was: only the address could differ, and the next \<open>bind\<close> writes it anew.
\<close>

record channel =
  ch_path :: string
  ch_sockfd :: int
  ch_peerfd :: int

text \<open>\<open>sizeof(addr.sun_path) - 1\<close>, the bound of \<open>strncpy\<close>.\<close>

definition SUN_PATH_CHARS :: nat where "SUN_PATH_CHARS = 107"

definition mk_channel :: "platform \<Rightarrow> ('a os_state_scheme, channel) M" where
  "mk_channel pf =
     bindM (callM pf (Sock SysSocket)) (\<lambda>(sockfd, err).
     if sockfd < 0 then throwM (SystemError err ''socket(2) failed'')
     else
       bindM (callM pf (Proc (SysFcntlCloexec sockfd))) (\<lambda>(rv, err).
       if rv < 0 then throwM (SystemError err ''fcntl(2) failed'')
       else returnM \<lparr>ch_path = [], ch_sockfd = sockfd, ch_peerfd = - 1\<rparr>))"

definition ch_listen :: "platform \<Rightarrow> channel \<Rightarrow> int \<Rightarrow> ('a os_state_scheme, channel) M" where
  "ch_listen pf ch backlog =
     bindM (callM pf (Sock (SysListen (ch_sockfd ch) backlog))) (\<lambda>(rv, err).
     if rv \<noteq> 0 then throwM (SystemError err ''listen(2) failed'') else returnM ch)"

definition bindAndListen :: "platform \<Rightarrow> channel \<Rightarrow> string \<Rightarrow> int \<Rightarrow> ('a os_state_scheme, channel) M" where
  "bindAndListen pf ch path backlog =
     (let ch' = ch\<lparr>ch_path := take SUN_PATH_CHARS path\<rparr>;
          c = Sock (SysBind (ch_sockfd ch) (ch_path ch')) in
      bindM (callM pf c) (\<lambda>(rv, err).
      if rv < 0 then
        (if err = EADDRINUSE then
           thenM (callM pf (File (SysUnlink path)))
          (bindM (callM pf c) (\<lambda>(rv, err).
           if rv < 0 then throwM (SystemError err ''bind(2) failed'')
           else ch_listen pf ch' backlog))
         else throwM (SystemError err ''bind(2) failed''))
      else ch_listen pf ch' backlog))"

definition ch_accept :: "platform \<Rightarrow> channel \<Rightarrow> ('a os_state_scheme, channel) M" where
  "ch_accept pf ch =
     (if 0 \<le> ch_peerfd ch then throwM (LogicError ''already accepted a connection'')
      else
        bindM (callM pf (Sock (SysAccept (ch_sockfd ch)))) (\<lambda>(result, _).
        returnM (if result < 0 then ch else ch\<lparr>ch_peerfd := result\<rparr>)))"

definition ch_connect :: "platform \<Rightarrow> channel \<Rightarrow> string \<Rightarrow> ('a os_state_scheme, channel \<times> int) M" where
  "ch_connect pf ch path =
     (let ch' = ch\<lparr>ch_path := take SUN_PATH_CHARS path\<rparr> in
      bindM (callM pf (Sock (SysConnect (ch_sockfd ch) (ch_path ch')))) (\<lambda>(rv, _).
      returnM (ch', if rv \<noteq> 0 then - 1 else 0)))"

definition ch_sd :: "channel \<Rightarrow> ('s, int) M" where
  "ch_sd ch =
     (if ch_peerfd ch < 0 \<and> ch_sockfd ch < 0 then
        throwM (LogicError ''must call accept() or connect() first'')
      else returnM (if 0 \<le> ch_peerfd ch then ch_peerfd ch else ch_sockfd ch))"

text \<open>
  The parser reads the buffer up to the first NUL: \<open>sys_read_data\<close> is what it finds there.
\<close>

definition readMessage :: "platform \<Rightarrow> channel \<Rightarrow> ('a os_state_scheme, json) M" where
  "readMessage pf ch =
     bindM (ch_sd ch) (\<lambda>sd.
     let c = Sock (SysRead sd) in
     bindM (sysM c (\<lambda>h. (sys_int pf h c, sys_read_data pf h sd))) (\<lambda>((bytes, err), buf).
     if bytes < 0 then throwM (SystemError err ''read(2) failed'')
     else
       case j_parse (jlib pf) buf of
         Inl _ \<Rightarrow> throwM (RuntimeError ''JSON parse failed'')
       | Inr j \<Rightarrow> returnM j))"

text \<open>\<open>(size_t)bytes < bufsz\<close>: the result of \<open>write\<close> is compared as an unsigned number.\<close>

definition writeMessage :: "platform \<Rightarrow> channel \<Rightarrow> json \<Rightarrow> ('a os_state_scheme, unit) M" where
  "writeMessage pf ch j =
     bindM (ch_sd ch) (\<lambda>sd.
     bindM (liftE (j_dump (jlib pf) j)) (\<lambda>buf.
     let bufsz = length buf + 1 in
     bindM (callM pf (Sock (SysWrite sd buf))) (\<lambda>(bytes, err).
     if (word_of_int bytes :: 64 word) < word_of_nat bufsz then
       throwM (SystemError err ''write(2) failed'')
     else returnM ())))"

definition ch_destroy :: "platform \<Rightarrow> channel \<Rightarrow> ('a os_state_scheme, unit) M" where
  "ch_destroy pf ch =
     thenM (whenM (0 \<le> ch_sockfd ch) (thenM (callM pf (Proc (SysClose (ch_sockfd ch)))) (returnM ())))
           (whenM (0 \<le> ch_peerfd ch) (thenM (callM pf (Proc (SysClose (ch_peerfd ch)))) (returnM ())))"

definition ch_disconnect :: "platform \<Rightarrow> channel \<Rightarrow> ('a os_state_scheme, channel) M" where
  "ch_disconnect pf ch =
     (if 0 \<le> ch_peerfd ch then
        thenM (callM pf (Proc (SysClose (ch_peerfd ch)))) (returnM (ch\<lparr>ch_peerfd := - 1\<rparr>))
      else returnM ch)"

definition getSockFD :: "channel \<Rightarrow> ('s, int) M" where
  "getSockFD ch =
     (if ch_sockfd ch < 0 then throwM (RuntimeError ''socket does not exist yet'')
      else returnM (ch_sockfd ch))"

definition unbindAndStopListening :: "platform \<Rightarrow> channel \<Rightarrow> ('a os_state_scheme, channel) M" where
  "unbindAndStopListening pf ch =
     (if 0 \<le> ch_sockfd ch then
        thenM (callM pf (Proc (SysClose (ch_sockfd ch)))) (returnM (ch\<lparr>ch_sockfd := - 1\<rparr>))
      else returnM ch)"

section \<open>What a write reports\<close>

text \<open>\<open>write_result\<close>: what \<open>write\<close> returns for this text on this channel.\<close>

definition write_result :: "platform \<Rightarrow> channel \<Rightarrow> string \<Rightarrow> 'a os_state_scheme \<Rightarrow> int" where
  "write_result pf ch buf s =
     fst (sys_int pf (trace s)
       (Sock (SysWrite (if 0 \<le> ch_peerfd ch then ch_peerfd ch else ch_sockfd ch) buf)))"

text \<open>
  A message whose write fails is reported as sent: only a short write, of fewer bytes than the
  message and its terminator, raises an error.
\<close>

theorem writeMessage_reports:
  assumes "0 \<le> ch_peerfd ch \<or> 0 \<le> ch_sockfd ch"
    and "j_dump (jlib pf) j = Inr buf" and "length buf + 1 < 2 ^ 63"
    and "- 1 \<le> write_result pf ch buf s" and "write_result pf ch buf s < 2 ^ 63"
  shows "(\<exists>s'. writeMessage pf ch j s = (Inr (), s')) \<longleftrightarrow>
    write_result pf ch buf s = - 1 \<or> int (length buf) + 1 \<le> write_result pf ch buf s"
proof -
  define sd where "sd = (if 0 \<le> ch_peerfd ch then ch_peerfd ch else ch_sockfd ch)"
  define len where "len = length buf + 1"
  obtain n e where n: "sys_int pf (trace s) (Sock (SysWrite sd buf)) = (n, e)"
    by fastforce
  have w: "write_result pf ch buf s = n" by (simp add: write_result_def n sd_def [symmetric])
  have r: "- 1 \<le> n" "n < 2 ^ 63" using assms(4,5) w by simp_all
  have l: "uint (word_of_nat len :: 64 word) = int len"
    using assms(3) unfolding len_def [symmetric] by (simp add: unsigned_of_nat take_bit_nat_eq_self)
  have u: "uint (word_of_int n :: 64 word) = (if n = - 1 then 2 ^ 64 - 1 else n)"
    using r by (auto simp: uint_word_of_int)
  have "(word_of_int n :: 64 word) < word_of_nat len \<longleftrightarrow> n \<noteq> - 1 \<and> n < int len"
    using assms(3) unfolding len_def [symmetric] by (simp add: word_less_def l u)
  moreover have "ch_sd ch s = (Inr sd, s)"
    using assms(1) by (auto simp: ch_sd_def sd_def monad_simps)
  ultimately show ?thesis
    unfolding w using n assms(2)
    by (auto simp: writeMessage_def monad_simps Let_def len_def split: if_splits)
qed

theorem writeMessage_reports_witness:
  "\<exists>s'. writeMessage (null_platform\<lparr>sys_int := (\<lambda>_ _. (- 1, 32))\<rparr>) \<lparr>ch_path = [], ch_sockfd = 5, ch_peerfd = 6\<rparr>
     JNull init_os = (Inr (), s')"
  using writeMessage_reports [of "\<lparr>ch_path = [], ch_sockfd = 5, ch_peerfd = 6\<rparr>"
      "null_platform\<lparr>sys_int := (\<lambda>_ _. (- 1, 32))\<rparr>" JNull "[]" init_os]
  by (simp add: nl_json_def write_result_def)

end
