(* ===== verification/Signals.thy ===== *)
theory Signals
  imports Platform Text
begin

text \<open>
  Signal names, \<open>src/signal_names.h\<close>: the table \<open>signals_by_name\<close> as compiled on Linux and
  \<open>getSignalByName\<close>.
\<close>

text \<open>
  The names of the table without the prefix that the macro \<open>X\<close> adds, with the Linux numbers.
\<close>

definition signal_table :: "(string \<times> int) list" where
  "signal_table = [
     (''ABRT'', 6), (''ALRM'', 14), (''BUS'', 7), (''CHLD'', 17), (''CONT'', 18), (''FPE'', 8),
     (''HUP'', 1), (''ILL'', 4), (''INT'', 2), (''KILL'', 9), (''PIPE'', 13), (''PROF'', 27),
     (''QUIT'', 3), (''SEGV'', 11), (''STOP'', 19), (''TSTP'', 20), (''SYS'', 31), (''TERM'', 15),
     (''TRAP'', 5), (''TTIN'', 21), (''TTOU'', 22), (''URG'', 23), (''USR1'', 10), (''USR2'', 12),
     (''VTALRM'', 26), (''XCPU'', 24), (''XFSZ'', 25), (''POLL'', 29), (''IO'', 29), (''IOT'', 6),
     (''STKFLT'', 16), (''WINCH'', 28)]"

definition signals_by_name :: "(string \<times> int) list" where
  "signals_by_name = map (\<lambda>(x, n). (''SIG'' @ x, n)) signal_table"

definition getSignalByName :: "string \<Rightarrow> int option" where
  "getSignalByName signum_or_name =
     (let signum =
        (case stoi signum_or_name of
           Inr n \<Rightarrow> n
         | Inl _ \<Rightarrow>
             (let buf = map toupper signum_or_name;
                  buf = (if \<not> has_prefix ''SIG'' buf then ''SIG'' @ buf else buf) in
              (case map_of signals_by_name buf of Some n \<Rightarrow> n | None \<Rightarrow> - 1)))
      in if signum \<ge> 0 then Some signum else None)"

section \<open>Properties\<close>

lemma map_of_signals_by_name:
  "map_of signals_by_name (''SIG'' @ x) = map_of signal_table x"
proof -
  have "map_of (map (\<lambda>(x, n). (''SIG'' @ x, n)) xs) (''SIG'' @ x) = map_of xs x" for xs :: "(string \<times> int) list"
    by (induction xs) auto
  then show ?thesis by (simp add: signals_by_name_def)
qed

lemma stoi_letter:
  assumes "s = c # cs" and "65 \<le> char_code c"
  shows "stoi s = Inl (InvalidArgument ''stoi'')"
proof -
  have "\<not> is_space c" "c \<noteq> CHR ''-''" "c \<noteq> CHR ''+''" "digit_value 10 c = None"
    using assms(2) by (auto simp: is_space_def digit_value_def char_code_def)
  then show ?thesis
    by (simp add: stoi_def scan_int_def scan_nat_def assms(1))
qed

definition table_entry_ok :: "string \<times> int \<Rightarrow> bool" where
  "table_entry_ok e \<longleftrightarrow> 0 \<le> snd e \<and> map toupper (fst e) = fst e \<and> \<not> has_prefix ''SIG'' (fst e) \<and>
     fst e \<noteq> [] \<and> 65 \<le> char_code (hd (fst e))"

lemma signal_table_entries: "list_all table_entry_ok signal_table"
  by code_simp

lemma signal_table_letters:
  assumes "(x, n) \<in> set signal_table"
  shows "0 \<le> n" and "map toupper x = x" and "\<not> has_prefix ''SIG'' x"
    and "\<exists>c cs. x = c # cs \<and> 65 \<le> char_code c"
proof -
  have "table_entry_ok (x, n)"
    using signal_table_entries assms by (auto simp: list_all_iff)
  then show "0 \<le> n" and "map toupper x = x" and "\<not> has_prefix ''SIG'' x"
    and "\<exists>c cs. x = c # cs \<and> 65 \<le> char_code c"
    by (cases x; simp add: table_entry_ok_def)+
qed

lemma toupper_range: "65 \<le> char_code (toupper c) \<Longrightarrow> 65 \<le> char_code c"
  by (auto simp: toupper_def char_code_def split: if_splits)

lemma getSignalByName_letters:
  assumes "s = c # cs" and "65 \<le> char_code c"
  shows "getSignalByName s =
    (let buf = map toupper s;
         buf = (if has_prefix ''SIG'' buf then buf else ''SIG'' @ buf);
         n = (case map_of signals_by_name buf of Some n \<Rightarrow> n | None \<Rightarrow> - 1)
     in if 0 \<le> n then Some n else None)"
  by (simp add: getSignalByName_def stoi_letter [OF assms] Let_def)

lemma map_of_signal_table:
  "(x, n) \<in> set signal_table \<Longrightarrow> map_of signal_table x = Some n"
  by (rule map_of_is_SomeI) (simp_all add: signal_table_def)

text \<open>
  A signal is found under its name in any mixture of cases, with or without the prefix
  \<open>SIG\<close>.
\<close>

theorem getSignalByName_name:
  assumes "(x, n) \<in> set signal_table" and "map toupper s = x \<or> map toupper s = ''SIG'' @ x"
  shows "getSignalByName s = Some n"
proof -
  note x = signal_table_letters [OF assms(1)]
  obtain c cs where s: "s = c # cs" and c: "65 \<le> char_code (toupper c)"
  proof -
    from x assms(2) obtain d ds where "map toupper s = d # ds" "65 \<le> char_code d"
      by (auto simp: char_code_def)
    then show thesis using that by (cases s) auto
  qed
  have "getSignalByName s =
    (let buf = map toupper s;
         buf = (if has_prefix ''SIG'' buf then buf else ''SIG'' @ buf);
         n = (case map_of signals_by_name buf of Some n \<Rightarrow> n | None \<Rightarrow> - 1)
     in if 0 \<le> n then Some n else None)"
    by (rule getSignalByName_letters [OF s toupper_range [OF c]])
  moreover have "(if has_prefix ''SIG'' (map toupper s) then map toupper s
      else ''SIG'' @ map toupper s) = ''SIG'' @ x"
    using assms(2) x by (auto simp: has_prefix_def)
  ultimately show ?thesis
    using x map_of_signal_table [OF assms(1)] map_of_signals_by_name [of x] by (simp add: Let_def)
qed

theorem getSignalByName_name_witness:
  "getSignalByName ''sigTerm'' = Some 15 \<and> getSignalByName ''kill'' = Some 9"
proof -
  have 1: "getSignalByName ''sigTerm'' = Some 15"
    by (rule getSignalByName_name [where x = "''TERM''"])
      (simp add: signal_table_def, code_simp)
  have 2: "getSignalByName ''kill'' = Some 9"
    by (rule getSignalByName_name [where x = "''KILL''"])
      (simp add: signal_table_def, code_simp)
  from 1 2 show ?thesis by simp
qed

text \<open>
  C34: a decimal number is taken as the signal number, for every non-negative 32-bit integer; a
  negative number is never a signal, so a signal that is found is never negative.
\<close>

theorem getSignalByName_number:
  "(n < 2 ^ 31 \<longrightarrow> getSignalByName (to_string (int n)) = Some (int n)) \<and>
   (\<forall>m. getSignalByName s = Some m \<longrightarrow> 0 \<le> m)"
proof -
  have "n < 2 ^ 31 \<Longrightarrow> stoi (show_base 10 n) = Inr (int n)"
    by (simp add: stoi_def scan_int_show_base Let_def)
  then show ?thesis
    by (auto simp: getSignalByName_def to_string_def Let_def split: if_splits)
qed

theorem getSignalByName_number_witness:
  "getSignalByName (to_string (int 9)) = Some (int 9)"
  using getSignalByName_number [of 9 "[]"] by simp

end
