(* ===== verification/Manager.thy ===== *)
theory Manager
  imports Job Channel Domain Signals
begin

text \<open>
  The manager, \<open>src/manager.h\<close> and \<open>src/manager.cc\<close>, with the server side of the RPC protocol,
  \<open>src/rpc_server.cc\<close>.

  The \<open>Job\<close> objects live in \<open>heap\<close>; a \<open>unique_ptr\<close> is an identity in \<open>jobs\<close> or
  \<open>pending_jobs\<close>, and \<open>None\<close> once moved from. Using an object that was destroyed is
  \<open>Undefined\<close>. A hash map that is iterated over is an association list in the order of insertion,
  one of the orders in which the library may visit it.
\<close>

section \<open>State\<close>

datatype mgr_state = Unconfigured | MgrRunning | GracefulShutdown | Finished

datatype mgr_trigger = MgrStartRequested | MgrStopRequested | AllJobsExited

datatype manager_result = ResExit | Reboot | Halt | HaltAndPowerDown | SingleUserMode

record mgr = em_state +
  heap :: "nat \<rightharpoonup> job"
  next_id :: nat
  jobs :: "(string \<times> nat) list"
  pending_jobs :: "(string \<times> nat option) list"
  mdomain :: domain
  chan :: channel
  mstate :: mgr_state
  pending_result :: manager_result

fun mgr_stateToString :: "mgr_state \<Rightarrow> string" where
  "mgr_stateToString Unconfigured = ''unconfigured''"
| "mgr_stateToString MgrRunning = ''running''"
| "mgr_stateToString GracefulShutdown = ''shutting-down''"
| "mgr_stateToString Finished = ''finished''"

fun mgr_triggerToString :: "mgr_trigger \<Rightarrow> string" where
  "mgr_triggerToString MgrStartRequested = ''StartRequested''"
| "mgr_triggerToString MgrStopRequested = ''StopRequested''"
| "mgr_triggerToString AllJobsExited = ''AllJobsExited''"

text \<open>A call on a \<open>Job\<close> object: the shared part of the state goes in and comes back.\<close>

definition with_job :: "nat \<Rightarrow> (job_ctx, 'a) M \<Rightarrow> (mgr, 'a) M" where
  "with_job jid m = (\<lambda>s.
     case heap s jid of
       None \<Rightarrow> (Inl (Undefined ''use of a destroyed Job''), s)
     | Some j \<Rightarrow>
         (case m (em_state.extend (em_state.truncate s) (job_ctx.fields j jid)) of
            (r, c) \<Rightarrow> (r, em_state.extend (em_state.truncate c)
                            (em_state.more (s\<lparr>heap := (heap s)(jid \<mapsto> this c)\<rparr>)))))"

definition lift_abrupt :: "abrupt + 'a \<Rightarrow> ('s, 'a) M" where
  "lift_abrupt r = (case r of Inl e \<Rightarrow> failM e | Inr x \<Rightarrow> returnM x)"

definition destroy_job :: "nat \<Rightarrow> (mgr, unit) M" where
  "destroy_job jid = modifyM (\<lambda>s. s\<lparr>heap := (heap s)(jid := None)\<rparr>)"

section \<open>Lookup, overrides, kill, list\<close>

definition jobExists :: "platform \<Rightarrow> string \<Rightarrow> (mgr, bool) M" where
  "jobExists pf l =
     bindM (lift_abrupt (label_string pf l)) (\<lambda>l.
     getsM (\<lambda>s. map_of (jobs s) l \<noteq> None))"

definition getJob :: "platform \<Rightarrow> string \<Rightarrow> (mgr, nat) M" where
  "getJob pf l =
     bindM (lift_abrupt (label_string pf l)) (\<lambda>l.
     bindM (getsM (\<lambda>s. map_of (jobs s) l)) (\<lambda>r.
     case r of None \<Rightarrow> throwM (OutOfRange ''jobs'') | Some jid \<Rightarrow> returnM jid))"

definition overrideJobEnabled :: "platform \<Rightarrow> string \<Rightarrow> bool \<Rightarrow> (mgr, unit) M" where
  "overrideJobEnabled pf l enabled =
     bindM (lift_abrupt (label_string pf l)) (\<lambda>l.
     bindM sf_getValue (\<lambda>doc.
     bindM (liftE (override_doc (jlib pf) doc l enabled)) (\<lambda>doc.
     sf_setValue pf doc)))"

definition mgr_killJob :: "platform \<Rightarrow> string \<Rightarrow> string \<Rightarrow> (mgr, bool) M" where
  "mgr_killJob pf l signame_or_number =
     (case getSignalByName signame_or_number of
        None \<Rightarrow> returnM False
      | Some signum \<Rightarrow>
          bindM (jobExists pf l) (\<lambda>ex.
          if \<not> ex then returnM False
          else bindM (getJob pf l) (\<lambda>jid. with_job jid (job_killJob pf signum))))"

text \<open>One row of \<open>listJobs\<close>.\<close>

definition list_row :: "job \<Rightarrow> json" where
  "list_row j = JObject [
     (''Label'', JString (label (jb_manifest j))),
     (''PID'', JString (if jb_pid j = 0 then ''-'' else to_string (jb_pid j))),
     (''LastExitStatus'', JInteger (jb_last_exit_status j))]"

definition listJobs :: "platform \<Rightarrow> (mgr, json) M" where
  "listJobs pf =
     bindM (getsM jobs) (\<lambda>js.
     bindM (foldM (\<lambda>rows (l, jid).
         bindM (with_job jid (getJ (\<lambda>j. j))) (\<lambda>j.
         bindM (lift_abrupt (label_string pf (label (jb_manifest j)))) (\<lambda>_.
         returnM (rows @ [list_row j])))) [] js) (\<lambda>rows.
     returnM (JArray rows)))"

text \<open>Only a build for the unit tests may discard the state file.\<close>

definition clearStateFile :: "('s, unit) M" where
  "clearStateFile = throwM (LogicError ''This should not be used outside of testing'')"

definition dumpJob :: "platform \<Rightarrow> string \<Rightarrow> (mgr, unit) M" where
  "dumpJob pf l = bindM (getJob pf l) (\<lambda>jid. with_job jid (getJ (\<lambda>_. ())))"

section \<open>Loading\<close>

definition new_job :: "string \<Rightarrow> manifest \<Rightarrow> (mgr, unit) M" where
  "new_job path m =
     modifyM (\<lambda>s. s\<lparr>heap := (heap s)(next_id s \<mapsto> mk_job (Some path) m),
       next_id := next_id s + 1,
       pending_jobs := alist_insert (label m) (Some (next_id s)) (pending_jobs s)\<rparr>)"

text \<open>
  The checks of \<open>loadManifest\<close> after the manifest was read: those that follow the check for a
  duplicate, then all of them.
\<close>

definition load_fresh :: "platform \<Rightarrow> manifest \<Rightarrow> string \<Rightarrow> bool \<Rightarrow> bool \<Rightarrow> (mgr, bool) M" where
  "load_fresh pf m path overrideDisabled forceLoad =
     thenM (whenM overrideDisabled (overrideJobEnabled pf (label m) True))
    (if disabled m \<and> \<not> forceLoad then returnM False
     else
       bindM sf_getValue (\<lambda>state.
       bindM (liftE (override_enabled (jlib pf) state (label m))) (\<lambda>r.
       if r = Some False \<and> \<not> forceLoad then returnM False
       else thenM (new_job path m) (returnM True))))"

definition load_checked :: "platform \<Rightarrow> manifest \<Rightarrow> string \<Rightarrow> bool \<Rightarrow> bool \<Rightarrow> (mgr, bool) M" where
  "load_checked pf m path overrideDisabled forceLoad =
     bindM (lift_abrupt (label_string pf (label m))) (\<lambda>l.
     bindM (jobExists pf l) (\<lambda>ex.
     bindM (getsM (\<lambda>s. map_of (pending_jobs s) l \<noteq> None)) (\<lambda>pending.
     if ex \<or> pending then returnM False
     else load_fresh pf m path overrideDisabled forceLoad)))"

definition loadManifest_json :: "platform \<Rightarrow> json \<Rightarrow> string \<Rightarrow> bool \<Rightarrow> bool \<Rightarrow> (mgr, bool) M" where
  "loadManifest_json pf jsondata path overrideDisabled forceLoad =
     bindM (getsM mstate) (\<lambda>st.
     if st = GracefulShutdown then returnM False
     else
       case get_manifest pf jsondata of
         Inl (Throw _) \<Rightarrow> returnM False
       | Inl e \<Rightarrow> failM e
       | Inr m \<Rightarrow> load_checked pf m path overrideDisabled forceLoad)"

definition loadManifest :: "platform \<Rightarrow> string \<Rightarrow> bool \<Rightarrow> bool \<Rightarrow> (mgr, bool) M" where
  "loadManifest pf path overrideDisabled forceLoad =
     bindM (parse_path pf path) (\<lambda>obj.
     loadManifest_json pf obj path overrideDisabled forceLoad)"

definition fs_test :: "platform \<Rightarrow> file_call \<Rightarrow> ('a os_state_scheme, bool) M" where
  "fs_test pf c =
     bindM (callM pf (File c)) (\<lambda>(rv, err).
     if rv < 0 then throwM (SystemError err ''filesystem error'') else returnM (0 < rv))"

definition directory_iterator :: "platform \<Rightarrow> string \<Rightarrow> ('a os_state_scheme, string list) M" where
  "directory_iterator pf path =
     (let c = File (SysReaddir path) in
      bindM (sysM c (\<lambda>h. (sys_int pf h c, sys_readdir pf h path))) (\<lambda>((rv, err), names).
      if rv < 0 then throwM (SystemError err ''directory iterator'') else returnM names))"

text \<open>\<open>try { if (!loadManifest(...)) error = true; } catch (...) { error = true; }\<close>\<close>

definition try_load :: "platform \<Rightarrow> string \<Rightarrow> bool \<Rightarrow> bool \<Rightarrow> (mgr, bool) M" where
  "try_load pf path overrideDisabled forceLoad =
     catchM (bindM (loadManifest pf path overrideDisabled forceLoad) (\<lambda>ok. returnM (\<not> ok)))
            (\<lambda>_. returnM True)"

definition loadAllManifests :: "platform \<Rightarrow> string \<Rightarrow> bool \<Rightarrow> bool \<Rightarrow> (mgr, bool) M" where
  "loadAllManifests pf path overrideDisabled forceLoad =
     bindM (getsM mstate) (\<lambda>st.
     if st = GracefulShutdown then returnM False
     else
       bindM (fs_test pf (SysExists path)) (\<lambda>ex.
       if \<not> ex then returnM False
       else
         bindM (fs_test pf (SysIsDirectory path)) (\<lambda>dir.
         if dir then
           bindM (directory_iterator pf path) (\<lambda>files.
           foldM (\<lambda>error file.
             bindM (try_load pf file overrideDisabled forceLoad) (\<lambda>e. returnM (error \<or> e)))
             False files)
         else try_load pf path overrideDisabled forceLoad)))"

definition loadDefaultManifests :: "build_config \<Rightarrow> platform \<Rightarrow> (mgr, unit) M" where
  "loadDefaultManifests c pf =
     bindM (getsM mstate) (\<lambda>st.
     thenM (c_assert pf (st = Unconfigured) ''fsm.state() == States::Unconfigured'')
    (bindM (getsM (\<lambda>s. getLoadPaths c (mdomain s))) (\<lambda>paths.
     forM paths (\<lambda>path. thenM (loadAllManifests pf path False False) (returnM ())))))"

section \<open>Unloading\<close>

definition unloadJob_ref :: "platform \<Rightarrow> nat \<Rightarrow> bool \<Rightarrow> bool \<Rightarrow> (mgr, bool) M" where
  "unloadJob_ref pf jid overrideDisabled forceUnload =
     bindM (with_job jid (getJ (\<lambda>j. label (jb_manifest j)))) (\<lambda>l.
     bindM (jobExists pf l) (\<lambda>ex.
     if ex then
       thenM (whenM overrideDisabled (overrideJobEnabled pf l False))
             (with_job jid (job_unloadJob pf forceUnload))
     else returnM False))"

definition unloadJob_label :: "platform \<Rightarrow> string \<Rightarrow> bool \<Rightarrow> bool \<Rightarrow> (mgr, bool) M" where
  "unloadJob_label pf l overrideDisabled forceUnload =
     bindM (jobExists pf l) (\<lambda>ex.
     if \<not> ex then returnM False
     else bindM (getJob pf l) (\<lambda>jid. unloadJob_ref pf jid overrideDisabled forceUnload))"

text \<open>The \<open>catch (...)\<close> covers the parse only.\<close>

definition unloadJob_path :: "platform \<Rightarrow> string \<Rightarrow> bool \<Rightarrow> bool \<Rightarrow> (mgr, bool) M" where
  "unloadJob_path pf path overrideDisabled forceUnload =
     bindM (catchM (bindM (parse_path pf path) (\<lambda>j. returnM (Some j))) (\<lambda>_. returnM None)) (\<lambda>obj.
     case obj of
       None \<Rightarrow> returnM False
     | Some obj \<Rightarrow>
         if j_contains (jlib pf) obj ''Label'' then
           bindM (liftE (j_at (jlib pf) obj ''Label'')) (\<lambda>v.
           bindM (liftE (j_get_string (jlib pf) v)) (\<lambda>buf.
           bindM (liftE (mk_label buf)) (\<lambda>l.
           unloadJob_label pf l overrideDisabled forceUnload)))
         else returnM False)"

definition unload_one :: "platform \<Rightarrow> nat \<Rightarrow> (mgr, bool) M" where
  "unload_one pf jid =
     bindM (with_job jid (getJ (\<lambda>j. jb_state j \<noteq> Unloaded \<and> \<not> jb_unload_requested j))) (\<lambda>todo.
     if todo then
       catchM (with_job jid (job_unloadJob pf True)) (\<lambda>_. returnM False)
     else returnM True)"

definition unloadAllJobs :: "platform \<Rightarrow> (mgr, bool) M" where
  "unloadAllJobs pf =
     noexceptM
      (bindM (getsM jobs) (\<lambda>js.
       foldM (\<lambda>success (l, jid). bindM (unload_one pf jid) (\<lambda>ok. returnM (success \<and> ok))) True js))"

definition forceUnloadAllJobs :: "platform \<Rightarrow> (mgr, unit) M" where
  "forceUnloadAllJobs pf =
     noexceptM
      (bindM (getsM jobs) (\<lambda>js.
       thenM (forM js (\<lambda>(l, jid). with_job jid (forceUnloadJob pf)))
      (thenM (forM js (\<lambda>(l, jid). destroy_job jid))
             (modifyM (\<lambda>s. s\<lparr>jobs := []\<rparr>)))))"

section \<open>Starting\<close>

definition mgr_startJob :: "platform \<Rightarrow> nat \<Rightarrow> (mgr, unit) M" where
  "mgr_startJob pf jid = thenM (with_job jid (job_execute pf StartRequested)) (returnM ())"

text \<open>One element of \<open>pending_jobs\<close>: its pointer is moved out before the job is started.\<close>

definition start_pending :: "platform \<Rightarrow> string \<times> nat option \<Rightarrow> (mgr, unit) M" where
  "start_pending pf = (\<lambda>(l, jobp).
     bindM (getsM (\<lambda>s. map_of (jobs s) l = None)) (\<lambda>free.
     if free then
       (case jobp of
          None \<Rightarrow> failM (Undefined ''call through an empty unique_ptr'')
        | Some jid \<Rightarrow>
            thenM (modifyM (\<lambda>s. s\<lparr>jobs := jobs s @ [(l, jid)],
                     pending_jobs := AList.update l None (pending_jobs s)\<rparr>))
           (thenM (with_job jid (job_execute pf Bootstrap)) (returnM ())))
     else c_assert pf False ''false''))"

text \<open>\<open>clear()\<close> destroys the objects that are still pending.\<close>

definition clear_pending :: "(mgr, unit) M" where
  "clear_pending =
     bindM (getsM pending_jobs) (\<lambda>ps.
     thenM (forM ps (\<lambda>(l, jobp). case jobp of Some jid \<Rightarrow> destroy_job jid | None \<Rightarrow> returnM ()))
           (modifyM (\<lambda>s. s\<lparr>pending_jobs := []\<rparr>)))"

definition startAllJobs :: "platform \<Rightarrow> (mgr, unit) M" where
  "startAllJobs pf =
     bindM (getsM pending_jobs) (\<lambda>ps.
     thenM (forM ps (start_pending pf)) clear_pending)"

section \<open>The state machine of the manager\<close>

definition setupSignalHandlers :: "platform \<Rightarrow> (mgr, unit) M" where
  "setupSignalHandlers pf =
     thenM (addSignal pf SIGPIPE OnSigpipe)
    (thenM (addSignal pf SIGINT OnSigint)
    (thenM (addSignal pf SIGUSR1 OnSigusr1)
    (thenM (addSignal pf SIGUSR2 OnSigusr2)
           (addSignal pf SIGTERM OnSigterm))))"

definition startRpcServer :: "platform \<Rightarrow> (mgr, unit) M" where
  "startRpcServer pf =
     bindM (getsM (\<lambda>s. (chan s, statedir (mdomain s)))) (\<lambda>(ch, sd).
     bindM (bindAndListen pf ch (path_append sd ''rpc.sock'') 1024) (\<lambda>ch.
     thenM (modifyM (\<lambda>s. s\<lparr>chan := ch\<rparr>))
    (bindM (getSockFD ch) (\<lambda>fd. addSocketRead pf fd OnRpcReadable))))"

definition close_listener :: "platform \<Rightarrow> (mgr, unit) M" where
  "close_listener pf =
     bindM (getsM chan) (\<lambda>ch.
     bindM (unbindAndStopListening pf ch) (\<lambda>ch. modifyM (\<lambda>s. s\<lparr>chan := ch\<rparr>)))"

definition mgr_table :: "build_config \<Rightarrow> platform \<Rightarrow> (mgr, mgr_state, mgr_trigger) trans list" where
  "mgr_table c pf = [
     \<lparr>from_state = Unconfigured, to_state = Finished, trigger = MgrStopRequested,
      guard = Some (returnM True), action = Some (returnM ())\<rparr>,
     \<lparr>from_state = Unconfigured, to_state = MgrRunning, trigger = MgrStartRequested,
      guard = Some (returnM True),
      action = Some (thenM (setupSignalHandlers pf)
                    (thenM (startRpcServer pf)
                    (thenM (loadDefaultManifests c pf) (startAllJobs pf))))\<rparr>,
     \<lparr>from_state = MgrRunning, to_state = MgrRunning, trigger = MgrStartRequested,
      guard = Some (getsM (\<lambda>s. pending_jobs s \<noteq> [])), action = Some (startAllJobs pf)\<rparr>,
     \<lparr>from_state = MgrRunning, to_state = GracefulShutdown, trigger = MgrStopRequested,
      guard = Some (returnM True),
      action = Some (thenM (close_listener pf) (thenM (unloadAllJobs pf) (returnM ())))\<rparr>,
     \<lparr>from_state = GracefulShutdown, to_state = Finished, trigger = MgrStopRequested,
      guard = Some (returnM True), action = Some (returnM ())\<rparr>,
     \<lparr>from_state = GracefulShutdown, to_state = Finished, trigger = AllJobsExited,
      guard = Some (returnM True), action = Some (returnM ())\<rparr>]"

definition put_mgr_state :: "mgr_state \<Rightarrow> mgr \<Rightarrow> mgr" where
  "put_mgr_state st s = s\<lparr>mstate := st\<rparr>"

definition mgr_execute :: "build_config \<Rightarrow> platform \<Rightarrow> mgr_trigger \<Rightarrow> (mgr, fsm_status) M" where
  "mgr_execute c pf tr =
     execute mstate put_mgr_state (Some (\<lambda>_ _ _. returnM ()))
       (add_transitions Map.empty (mgr_table c pf)) tr"

definition startRunning :: "build_config \<Rightarrow> platform \<Rightarrow> (mgr, unit) M" where
  "startRunning c pf = thenM (mgr_execute c pf MgrStartRequested) (returnM ())"

definition stopRunning :: "build_config \<Rightarrow> platform \<Rightarrow> (mgr, unit) M" where
  "stopRunning c pf = thenM (mgr_execute c pf MgrStopRequested) (returnM ())"

definition handleShutdownSignal :: "build_config \<Rightarrow> platform \<Rightarrow> (mgr, unit) M" where
  "handleShutdownSignal c pf =
     bindM (getsM mstate) (\<lambda>st.
     case st of
       Unconfigured \<Rightarrow> thenM (mgr_execute c pf MgrStopRequested) (returnM ())
     | GracefulShutdown \<Rightarrow>
         thenM (forceUnloadAllJobs pf)
        (thenM (mgr_execute c pf AllJobsExited) (returnM ()))
     | MgrRunning \<Rightarrow> thenM (mgr_execute c pf MgrStopRequested) (returnM ())
     | Finished \<Rightarrow> returnM ())"

end
