(* ===== verification/RpcServer.thy ===== *)
theory RpcServer
  imports Manager
begin

text \<open>
  The server side of the RPC protocol, \<open>src/rpc_server.cc\<close>: one request is an array of a method
  name and an object of arguments, one response is a JSON value.
\<close>

section \<open>Arguments\<close>

text \<open>
  \<open>args[1]\<close> and \<open>args[1][key]\<close> on a constant document. The library checks neither the bound
  of an array nor the presence of a key: out of bounds is undefined, a missing key fails an
  assertion.
\<close>

definition args_1 :: "platform \<Rightarrow> json \<Rightarrow> ('s, json) M" where
  "args_1 pf args =
     (case j_index (jlib pf) args 1 of
        Inr v \<Rightarrow> returnM v
      | Inl (OutOfRange _) \<Rightarrow> failM (Undefined ''args[1]'')
      | Inl e \<Rightarrow> throwM e)"

definition arg_key :: "platform \<Rightarrow> json \<Rightarrow> string \<Rightarrow> ('s, json) M" where
  "arg_key pf args key =
     bindM (args_1 pf args) (\<lambda>kwargs.
     if j_type (jlib pf) kwargs = VObject then
       (if j_contains (jlib pf) kwargs key then liftE (j_at (jlib pf) kwargs key)
        else if ndebug pf then failM (Undefined ''args[1][key]'')
        else failM (Abort ''it != m_value.object->end()''))
     else throwM JsonTypeError)"

definition arg_string :: "platform \<Rightarrow> json \<Rightarrow> string \<Rightarrow> ('s, string) M" where
  "arg_string pf args key = bindM (arg_key pf args key) (\<lambda>v. liftE (j_get_string (jlib pf) v))"

definition arg_bool :: "platform \<Rightarrow> json \<Rightarrow> string \<Rightarrow> ('s, bool) M" where
  "arg_bool pf args key = bindM (arg_key pf args key) (\<lambda>v. liftE (j_get_bool (jlib pf) v))"

definition arg_label :: "platform \<Rightarrow> json \<Rightarrow> ('s, string) M" where
  "arg_label pf args = bindM (arg_string pf args ''Label'') (\<lambda>s. liftE (mk_label s))"

definition error_response :: "bool \<Rightarrow> json" where
  "error_response b = JObject [(''error'', JBool b)]"

section \<open>Methods\<close>

definition rpc_op_disable :: "platform \<Rightarrow> json \<Rightarrow> (mgr, json) M" where
  "rpc_op_disable pf args =
     bindM (arg_label pf args) (\<lambda>l.
     thenM (overrideJobEnabled pf l False) (returnM (error_response False)))"

definition rpc_op_enable :: "platform \<Rightarrow> json \<Rightarrow> (mgr, json) M" where
  "rpc_op_enable pf args =
     bindM (arg_label pf args) (\<lambda>l.
     thenM (overrideJobEnabled pf l True) (returnM (error_response False)))"

definition rpc_op_kill :: "platform \<Rightarrow> json \<Rightarrow> (mgr, json) M" where
  "rpc_op_kill pf args =
     bindM (arg_label pf args) (\<lambda>l.
     bindM (arg_string pf args ''Signal'') (\<lambda>signame_or_num.
     bindM (mgr_killJob pf l signame_or_num) (\<lambda>r. returnM (error_response r))))"

definition rpc_op_list :: "platform \<Rightarrow> json \<Rightarrow> (mgr, json) M" where
  "rpc_op_list pf args = listJobs pf"

definition rpc_op_load :: "build_config \<Rightarrow> platform \<Rightarrow> json \<Rightarrow> (mgr, json) M" where
  "rpc_op_load c pf args =
     bindM (arg_bool pf args ''Force'') (\<lambda>forceLoad.
     bindM (arg_bool pf args ''OverrideDisabled'') (\<lambda>overrideDisabled.
     bindM (arg_key pf args ''Paths'') (\<lambda>paths.
     bindM (foldM (\<lambda>error load_path.
         bindM (liftE (j_get_string (jlib pf) load_path)) (\<lambda>p.
         bindM (loadAllManifests pf p overrideDisabled forceLoad) (\<lambda>ok.
         returnM (error \<or> \<not> ok)))) False (j_elems (jlib pf) paths)) (\<lambda>error.
     thenM (startRunning c pf) (returnM (error_response error))))))"

text \<open>The inner loop over a directory: \<open>break\<close> leaves that loop only.\<close>

primrec unload_files :: "platform \<Rightarrow> bool \<Rightarrow> bool \<Rightarrow> bool \<Rightarrow> string list \<Rightarrow> (mgr, bool) M" where
  "unload_files pf od fu is_error [] = returnM is_error"
| "unload_files pf od fu is_error (f # fs) =
     bindM (unloadJob_path pf f od fu) (\<lambda>ok.
     if \<not> ok then returnM True else unload_files pf od fu is_error fs)"

primrec unload_paths :: "platform \<Rightarrow> bool \<Rightarrow> bool \<Rightarrow> bool \<Rightarrow> json list \<Rightarrow> (mgr, bool) M" where
  "unload_paths pf od fu is_error [] = returnM is_error"
| "unload_paths pf od fu is_error (j # js) =
     bindM (liftE (j_get_string (jlib pf) j)) (\<lambda>path.
     bindM (fs_test pf (SysExists path)) (\<lambda>ex.
     if \<not> ex then returnM True
     else
       bindM (fs_test pf (SysIsDirectory path)) (\<lambda>dir.
       if dir then
         bindM (directory_iterator pf path) (\<lambda>files.
         bindM (unload_files pf od fu is_error files) (\<lambda>e. unload_paths pf od fu e js))
       else
         bindM (unloadJob_path pf path od fu) (\<lambda>ok.
         if \<not> ok then returnM True else unload_paths pf od fu is_error js))))"

definition rpc_op_unload :: "platform \<Rightarrow> json \<Rightarrow> (mgr, json) M" where
  "rpc_op_unload pf args =
     bindM (arg_bool pf args ''Force'') (\<lambda>forceUnload.
     bindM (arg_bool pf args ''OverrideDisabled'') (\<lambda>overrideDisabled.
     bindM (arg_key pf args ''Paths'') (\<lambda>paths.
     bindM (unload_paths pf overrideDisabled forceUnload False (j_elems (jlib pf) paths)) (\<lambda>is_error.
     returnM (error_response is_error)))))"

definition rpc_op_remove :: "platform \<Rightarrow> json \<Rightarrow> (mgr, json) M" where
  "rpc_op_remove pf args =
     bindM (arg_label pf args) (\<lambda>l.
     bindM (unloadJob_label pf l False False) (\<lambda>status. returnM (error_response status)))"

definition rpc_op_submit :: "build_config \<Rightarrow> platform \<Rightarrow> json \<Rightarrow> (mgr, json) M" where
  "rpc_op_submit c pf args =
     bindM (args_1 pf args) (\<lambda>kwargs.
     bindM (loadManifest_json pf kwargs ''/dev/null'' False False) (\<lambda>ok.
     thenM (startRunning c pf) (returnM (error_response ok))))"

definition rpc_op_version :: "build_config \<Rightarrow> (mgr, json) M" where
  "rpc_op_version c =
     returnM (JObject [(''error'', JBool False), (''version'', JString (''relaunch version '' @ VERSION c))])"

section \<open>Dispatch\<close>

definition handlers :: "build_config \<Rightarrow> platform \<Rightarrow> (string \<times> (json \<Rightarrow> (mgr, json) M)) list" where
  "handlers c pf = [
     (''disable'', rpc_op_disable pf), (''enable'', rpc_op_enable pf), (''kill'', rpc_op_kill pf),
     (''list'', rpc_op_list pf), (''load'', rpc_op_load c pf), (''remove'', rpc_op_remove pf),
     (''submit'', rpc_op_submit c pf), (''unload'', rpc_op_unload pf),
     (''version'', \<lambda>_. rpc_op_version c)]"

text \<open>The response of one request: an exception of the method is answered as an error.\<close>

definition rpc_call :: "build_config \<Rightarrow> platform \<Rightarrow> json \<Rightarrow> (mgr, json) M" where
  "rpc_call c pf msg =
     bindM (liftE (j_index (jlib pf) msg 0)) (\<lambda>v.
     bindM (liftE (j_get_string (jlib pf) v)) (\<lambda>method.
     case map_of (handlers c pf) method of
       None \<Rightarrow> throwM (OutOfRange ''handlers'')
     | Some f \<Rightarrow> catchM (f msg) (\<lambda>_. returnM (error_response True))))"

definition rpc_dispatch :: "build_config \<Rightarrow> platform \<Rightarrow> (mgr, unit) M" where
  "rpc_dispatch c pf =
     bindM (getsM chan) (\<lambda>ch.
     bindM (ch_accept pf ch) (\<lambda>ch.
     thenM (modifyM (\<lambda>s. s\<lparr>chan := ch\<rparr>))
    (thenM (catchM
        (bindM (getsM chan) (\<lambda>ch.
         bindM (readMessage pf ch) (\<lambda>msg.
         bindM (rpc_call c pf msg) (\<lambda>response.
         bindM (getsM chan) (\<lambda>ch. writeMessage pf ch response)))))
        (\<lambda>_. returnM ()))
    (bindM (getsM chan) (\<lambda>ch.
     bindM (ch_disconnect pf ch) (\<lambda>ch. modifyM (\<lambda>s. s\<lparr>chan := ch\<rparr>)))))))"

end
