(* ===== verification/Daemon.thy ===== *)
theory Daemon
  imports RpcServer
begin

text \<open>
  The running daemon: the closures of the program, the construction and destruction of the manager,
  and its main loop, \<open>src/manager.cc\<close> and \<open>src/main.cc\<close>.
\<close>

section \<open>The closures\<close>

definition on_delete_job :: "string \<Rightarrow> (mgr, unit) M" where
  "on_delete_job l =
     bindM (getsM (\<lambda>s. map_of (jobs s) l)) (\<lambda>r.
     case r of
       None \<Rightarrow> returnM ()
     | Some jid \<Rightarrow>
         thenM (modifyM (\<lambda>s. s\<lparr>jobs := AList.delete l (jobs s)\<rparr>)) (destroy_job jid))"

definition on_shutdown_signal :: "build_config \<Rightarrow> platform \<Rightarrow> manager_result \<Rightarrow> (mgr, unit) M" where
  "on_shutdown_signal c pf r =
     thenM (modifyM (\<lambda>s. s\<lparr>pending_result := r\<rparr>)) (handleShutdownSignal c pf)"

fun run_closure :: "build_config \<Rightarrow> platform \<Rightarrow> closure \<Rightarrow> event \<Rightarrow> (mgr, unit) M" where
  "run_closure c pf OnSigpipe e = returnM ()"
| "run_closure c pf OnSigint e = on_shutdown_signal c pf Reboot"
| "run_closure c pf OnSigusr1 e = on_shutdown_signal c pf Halt"
| "run_closure c pf OnSigusr2 e = on_shutdown_signal c pf HaltAndPowerDown"
| "run_closure c pf OnSigterm e = on_shutdown_signal c pf SingleUserMode"
| "run_closure c pf OnRpcReadable e = rpc_dispatch c pf"
| "run_closure c pf OnDeleteJob e =
     (case e of IpcEvent method arg \<Rightarrow> on_delete_job arg | _ \<Rightarrow> returnM ())"
| "run_closure c pf (OnProcessExit jid) e =
     (case e of ProcEvent pid status \<Rightarrow> with_job jid (on_process_exit pf status) | _ \<Rightarrow> returnM ())"
| "run_closure c pf (OnThrottleTimer jid) e = with_job jid (on_throttle_timer pf)"
| "run_closure c pf (OnPeriodicTimer jid) e = with_job jid (on_periodic_timer pf)"

section \<open>The main loop\<close>

definition handleEvent :: "build_config \<Rightarrow> platform \<Rightarrow> int option \<Rightarrow> (mgr, bool) M" where
  "handleEvent c pf timeout =
     bindM (getsM mstate) (\<lambda>st.
     thenM
       (case st of
          Unconfigured \<Rightarrow> throwM (LogicError ''unsupported state'')
        | MgrRunning \<Rightarrow> em_waitForEvent pf (run_closure c pf) timeout
        | GracefulShutdown \<Rightarrow>
            bindM (getsM jobs) (\<lambda>js.
            if js = [] then thenM (mgr_execute c pf AllJobsExited) (returnM ())
            else em_waitForEvent pf (run_closure c pf) (Some 500))
        | Finished \<Rightarrow> returnM ())
       (getsM (\<lambda>s. mstate s \<noteq> Finished)))"

primrec main_loop :: "nat \<Rightarrow> build_config \<Rightarrow> platform \<Rightarrow> (mgr, unit) M" where
  "main_loop 0 c pf = failM Hang"
| "main_loop (Suc n) c pf =
     bindM (handleEvent c pf None) (\<lambda>go. if go then main_loop n c pf else returnM ())"

definition runMainLoop :: "nat \<Rightarrow> build_config \<Rightarrow> platform \<Rightarrow> (mgr, manager_result) M" where
  "runMainLoop n c pf =
     bindM (getsM mstate) (\<lambda>st.
     if st \<noteq> MgrRunning then throwM (LogicError ''must call startRunning() first'')
     else thenM (main_loop n c pf) (getsM pending_result))"

definition runOnce :: "build_config \<Rightarrow> platform \<Rightarrow> int option \<Rightarrow> (mgr, bool) M" where
  "runOnce c pf timeout =
     bindM (getsM mstate) (\<lambda>st.
     if st \<noteq> MgrRunning then throwM (LogicError ''must call startRunning() first'')
     else handleEvent c pf timeout)"

section \<open>Construction and destruction\<close>

definition createOrOpenStatefile :: "platform \<Rightarrow> domain \<Rightarrow> (mgr, unit) M" where
  "createOrOpenStatefile pf d =
     bindM (getuid pf) (\<lambda>uid.
     thenM (if uid = 0 then returnM ()
            else
              bindM (fs_test pf (SysExists (statedir d))) (\<lambda>ex.
              whenM (\<not> ex)
               (bindM (callM pf (File (SysCreateDirectories (statedir d)))) (\<lambda>(rv, err).
                if rv < 0 then throwM (SystemError err ''create_directories'') else returnM ()))))
           (sf_open pf (path_append (statedir d) ''state.json'') default_state_doc))"

text \<open>The members are constructed in the order of their declaration.\<close>

definition mk_manager :: "platform \<Rightarrow> domain \<Rightarrow> (mgr, unit) M" where
  "mk_manager pf d =
     thenM (modifyM (\<lambda>s. s\<lparr>heap := Map.empty, next_id := 0, jobs := [], pending_jobs := [],
              mdomain := d, mstate := Unconfigured, pending_result := ResExit\<rparr>))
    (thenM (mk_event_manager pf)
    (bindM (mk_channel pf) (\<lambda>ch.
     thenM (modifyM (\<lambda>s. s\<lparr>chan := ch\<rparr>))
    (thenM (createOrOpenStatefile pf d)
           (addIpcMethod ''delete_job'' OnDeleteJob)))))"

text \<open>
  The body of the destructor, then the members in reverse order: the channel, the event manager and
  the jobs that are still pending.
\<close>

definition destroy_members :: "platform \<Rightarrow> (mgr, unit) M" where
  "destroy_members pf =
     thenM (bindM (getsM chan) (ch_destroy pf)) (thenM (destroy_epoll pf) clear_pending)"

definition destroy_manager :: "platform \<Rightarrow> (mgr, unit) M" where
  "destroy_manager pf =
     thenM (close_listener pf) (thenM (forceUnloadAllJobs pf) (destroy_members pf))"

section \<open>The program\<close>

definition ends_with :: "string \<Rightarrow> string \<Rightarrow> bool" where
  "ends_with path tail =
     (if length tail \<le> length path then drop (length path - length tail) path = tail else False)"

datatype program = Launchd | Launchctl | UnknownProgram

definition main_program :: "string \<Rightarrow> program" where
  "main_program program_path =
     (if ends_with program_path ''launchd'' then Launchd
      else if ends_with program_path ''launchctl'' then Launchctl
      else UnknownProgram)"

end
