(* ===== verification/RpcClient.thy ===== *)
theory RpcClient
  imports Channel Domain
begin

text \<open>
  The client, \<open>src/rpc_client.cc\<close> and \<open>src/launchctl.cc\<close>. A subcommand builds one request,
  sends it and waits for the response; its value is the text it prints.
\<close>

section \<open>Requests\<close>

text \<open>\<open>args.at(i)\<close>\<close>

definition arg_at :: "string list \<Rightarrow> nat \<Rightarrow> ('s, string) M" where
  "arg_at args i =
     (if i < length args then returnM (args ! i) else throwM (OutOfRange ''vector::_M_range_check''))"

definition label_request :: "string \<Rightarrow> string list \<Rightarrow> ('s, json) M" where
  "label_request method args =
     bindM (arg_at args 0) (\<lambda>l.
     returnM (JArray [JString method, JObject [(''Label'', JString l)]]))"

definition kill_request :: "string list \<Rightarrow> ('s, json) M" where
  "kill_request args =
     bindM (arg_at args 0) (\<lambda>sig.
     bindM (arg_at args 1) (\<lambda>l.
     returnM (JArray [JString ''kill'', JObject [(''Signal'', JString sig), (''Label'', JString l)]])))"

definition canonical_path :: "platform \<Rightarrow> string \<Rightarrow> ('a os_state_scheme, string) M" where
  "canonical_path pf path =
     (let c = File (SysCanonical path) in
      bindM (sysM c (\<lambda>h. (sys_int pf h c, sys_canonical pf h path))) (\<lambda>((rv, err), p).
      if rv < 0 then throwM (SystemError err ''canonical'') else returnM p))"

text \<open>The loop over the arguments of \<open>load\<close> and \<open>unload\<close>.\<close>

definition paths_step :: "platform \<Rightarrow> json \<Rightarrow> string \<Rightarrow> ('a os_state_scheme, json) M" where
  "paths_step pf kwargs elem =
     (if elem = ''-w'' then liftE (j_put (jlib pf) kwargs ''OverrideDisabled'' (JBool True))
      else if elem = ''-F'' then liftE (j_put (jlib pf) kwargs ''Force'' (JBool True))
      else
        bindM (callM pf (File (SysExists elem))) (\<lambda>(rv, err).
        if rv < 0 then throwM (SystemError err ''filesystem error'')
        else if rv = 0 then throwM (RuntimeError ''path does not exist'')
        else
          bindM (canonical_path pf elem) (\<lambda>p.
          bindM (liftE (j_at (jlib pf) kwargs ''Paths'')) (\<lambda>paths.
          bindM (liftE (j_push_back (jlib pf) paths (JString p))) (\<lambda>paths'.
          liftE (j_put (jlib pf) kwargs ''Paths'' paths'))))))"

definition paths_request :: "platform \<Rightarrow> string \<Rightarrow> string list \<Rightarrow> ('a os_state_scheme, json) M" where
  "paths_request pf method args =
     bindM (foldM (paths_step pf)
        (JObject [(''OverrideDisabled'', JBool False), (''Force'', JBool False), (''Paths'', JArray [])])
        args) (\<lambda>kwargs.
     returnM (JArray [JString method, kwargs]))"

text \<open>
  The loop of \<open>submit\<close>. An option at the end of the arguments has no value: the iterator is
  dereferenced at the end.
\<close>

definition submit_key :: "string \<Rightarrow> string option" where
  "submit_key o' =
     (if o' = ''-p'' then Some ''Program'' else if o' = ''-l'' then Some ''Label''
      else if o' = ''-o'' then Some ''StandardOutPath''
      else if o' = ''-e'' then Some ''StandardErrorPath'' else None)"

fun submit_loop :: "platform \<Rightarrow> bool \<Rightarrow> json \<Rightarrow> string list \<Rightarrow> ('s, json) M" where
  "submit_loop pf preamble kwargs [] = returnM kwargs"
| "submit_loop pf preamble kwargs (it # rest) =
     (if preamble then
        (case submit_key it of
           Some key \<Rightarrow>
             (case rest of
                [] \<Rightarrow> failM (Undefined ''*it at args.end()'')
              | v # rest' \<Rightarrow>
                  bindM (liftE (j_put (jlib pf) kwargs key (JString v))) (\<lambda>kwargs'.
                  submit_loop pf True kwargs' rest'))
         | None \<Rightarrow> submit_loop pf (it \<noteq> ''--'') kwargs rest)
      else
        bindM (liftE (j_at (jlib pf) kwargs ''ProgramArguments'')) (\<lambda>pa.
        bindM (liftE (j_push_back (jlib pf) pa (JString it))) (\<lambda>pa'.
        bindM (liftE (j_put (jlib pf) kwargs ''ProgramArguments'' pa')) (\<lambda>kwargs'.
        submit_loop pf False kwargs' rest))))"

definition submit_request :: "platform \<Rightarrow> string list \<Rightarrow> ('s, json) M" where
  "submit_request pf args =
     bindM (submit_loop pf True (JObject [(''ProgramArguments'', JArray [])]) args) (\<lambda>kwargs.
     if \<not> j_contains (jlib pf) kwargs ''Label'' then throwM (RuntimeError ''Label is required'')
     else returnM (JArray [JString ''submit'', kwargs]))"

section \<open>Subcommands\<close>

text \<open>
  The text of a subcommand that fails half way is dropped with the exception. \<open>get<int>\<close> keeps
  the low 32 bits of a number, read as a signed integer.
\<close>

definition exchange :: "platform \<Rightarrow> channel \<Rightarrow> json \<Rightarrow> ('a os_state_scheme, json) M" where
  "exchange pf ch msg = thenM (writeMessage pf ch msg) (readMessage pf ch)"

text \<open>The response of most subcommands is read and dropped.\<close>

definition send_request :: "platform \<Rightarrow> channel \<Rightarrow> ('a os_state_scheme, json) M \<Rightarrow>
    ('a os_state_scheme, string) M" where
  "send_request pf ch request =
     bindM request (\<lambda>msg. thenM (exchange pf ch msg) (returnM []))"

text \<open>\<open>row[key]\<close> on a constant row.\<close>

definition row_at :: "platform \<Rightarrow> json \<Rightarrow> string \<Rightarrow> ('s, json) M" where
  "row_at pf row key =
     (if j_type (jlib pf) row = VObject then
        (if j_contains (jlib pf) row key then liftE (j_at (jlib pf) row key)
         else if ndebug pf then failM (Undefined ''row[key]'')
         else failM (Abort ''it != m_value.object->end()''))
      else throwM JsonTypeError)"

definition pad :: "nat \<Rightarrow> string \<Rightarrow> string" where
  "pad n s = s @ replicate (n - length s) CHR '' ''"

definition print_row :: "string \<Rightarrow> string \<Rightarrow> string \<Rightarrow> string" where
  "print_row pid status l = pad 8 pid @ '' '' @ pad 8 status @ '' '' @ l @ [CHR 0x0A]"

definition list_header :: string where
  "list_header = print_row ''PID'' ''Status'' ''Label''"

definition list_line :: "platform \<Rightarrow> json \<Rightarrow> ('s, string) M" where
  "list_line pf row =
     bindM (row_at pf row ''PID'') (\<lambda>v.
     bindM (liftE (j_get_string (jlib pf) v)) (\<lambda>pid.
     bindM (row_at pf row ''LastExitStatus'') (\<lambda>v.
     bindM (liftE (j_get_u32 (jlib pf) v)) (\<lambda>st.
     bindM (row_at pf row ''Label'') (\<lambda>v.
     bindM (liftE (j_get_string (jlib pf) v)) (\<lambda>l.
     returnM (print_row pid (to_string (sint st)) l)))))))"

definition print_rows :: "platform \<Rightarrow> json \<Rightarrow> ('s, string) M" where
  "print_rows pf msg =
     foldM (\<lambda>out row. bindM (list_line pf row) (\<lambda>line. returnM (out @ line)))
       list_header (j_elems (jlib pf) msg)"

definition cmd_list :: "platform \<Rightarrow> channel \<Rightarrow> ('a os_state_scheme, string) M" where
  "cmd_list pf ch =
     bindM (exchange pf ch (JArray [JString ''list''])) (print_rows pf)"

definition cmd_version :: "platform \<Rightarrow> channel \<Rightarrow> ('a os_state_scheme, string) M" where
  "cmd_version pf ch =
     bindM (exchange pf ch (JArray [JString ''version''])) (\<lambda>msg.
     bindM (liftE (j_at (jlib pf) msg ''version'')) (\<lambda>v.
     bindM (liftE (j_get_string (jlib pf) v)) (\<lambda>out. returnM (out @ [CHR 0x0A]))))"

definition not_implemented :: "('s, string) M" where
  "not_implemented = failM (Exit 1)"

definition cmd_disable :: "platform \<Rightarrow> channel \<Rightarrow> string list \<Rightarrow> ('a os_state_scheme, string) M" where
  "cmd_disable pf ch args = send_request pf ch (label_request ''disable'' args)"

definition cmd_enable :: "platform \<Rightarrow> channel \<Rightarrow> string list \<Rightarrow> ('a os_state_scheme, string) M" where
  "cmd_enable pf ch args = send_request pf ch (label_request ''enable'' args)"

definition cmd_kill :: "platform \<Rightarrow> channel \<Rightarrow> string list \<Rightarrow> ('a os_state_scheme, string) M" where
  "cmd_kill pf ch args = send_request pf ch (kill_request args)"

definition cmd_load :: "platform \<Rightarrow> channel \<Rightarrow> string list \<Rightarrow> ('a os_state_scheme, string) M" where
  "cmd_load pf ch args = send_request pf ch (paths_request pf ''load'' args)"

definition cmd_remove :: "platform \<Rightarrow> channel \<Rightarrow> string list \<Rightarrow> ('a os_state_scheme, string) M" where
  "cmd_remove pf ch args = send_request pf ch (label_request ''remove'' args)"

definition cmd_start :: "platform \<Rightarrow> channel \<Rightarrow> string list \<Rightarrow> ('a os_state_scheme, string) M" where
  "cmd_start pf ch args = send_request pf ch (label_request ''start'' args)"

definition cmd_stop :: "platform \<Rightarrow> channel \<Rightarrow> string list \<Rightarrow> ('a os_state_scheme, string) M" where
  "cmd_stop pf ch args = send_request pf ch (label_request ''stop'' args)"

definition cmd_submit :: "platform \<Rightarrow> channel \<Rightarrow> string list \<Rightarrow> ('a os_state_scheme, string) M" where
  "cmd_submit pf ch args = send_request pf ch (submit_request pf args)"

definition cmd_unload :: "platform \<Rightarrow> channel \<Rightarrow> string list \<Rightarrow> ('a os_state_scheme, string) M" where
  "cmd_unload pf ch args = send_request pf ch (paths_request pf ''unload'' args)"

definition subcommands :: "platform \<Rightarrow> (string \<times> (channel \<Rightarrow> string list \<Rightarrow> ('a os_state_scheme, string) M)) list" where
  "subcommands pf = [
     (''disable'', cmd_disable pf), (''enable'', cmd_enable pf), (''kill'', cmd_kill pf),
     (''list'', \<lambda>ch args. cmd_list pf ch), (''load'', cmd_load pf), (''remove'', cmd_remove pf),
     (''start'', cmd_start pf), (''stop'', cmd_stop pf), (''submit'', cmd_submit pf),
     (''unload'', cmd_unload pf), (''version'', \<lambda>ch args. cmd_version pf ch)]"

section \<open>The client and its program\<close>

text \<open>
  \<open>chan\<close> is a local object: it is destroyed when the function returns or throws. The result of
  \<open>connect\<close> is not looked at.
\<close>

definition invokeMethod :: "platform \<Rightarrow> string \<Rightarrow> string list \<Rightarrow> domain \<Rightarrow> ('a os_state_scheme, string) M" where
  "invokeMethod pf method args d =
     bindM (mk_channel pf) (\<lambda>ch.
     bindM (ch_connect pf ch (path_append (statedir d) ''rpc.sock'')) (\<lambda>(ch, _).
     bindM (catchM
        (case map_of (subcommands pf) method of
           None \<Rightarrow> throwM (OutOfRange ''subcommands'')
         | Some f \<Rightarrow> f ch args)
        (\<lambda>e. thenM (ch_destroy pf ch) (throwM e))) (\<lambda>out.
     thenM (ch_destroy pf ch) (returnM out))))"

definition subcommand_names :: "string list" where
  "subcommand_names = [''disable'', ''enable'', ''kill'', ''list'', ''load'', ''remove'', ''start'',
     ''stop'', ''submit'', ''unload'', ''version'']"

lemma subcommand_names: "map fst (subcommands pf) = subcommand_names"
  by (simp add: subcommands_def subcommand_names_def)

definition methodExists :: "string \<Rightarrow> bool" where
  "methodExists method \<longleftrightarrow> method \<in> set subcommand_names"

text \<open>\<open>argv\<close> is what follows the name of the program; the value is the exit status and the output.\<close>

definition launchctl_main :: "build_config \<Rightarrow> platform \<Rightarrow> string list \<Rightarrow> ('a os_state_scheme, int \<times> string) M" where
  "launchctl_main c pf argv =
     (case argv of
        [] \<Rightarrow> returnM (1, ''usage: ...'' @ [CHR 0x0A])
      | subcommand # args \<Rightarrow>
          if args = [] \<and> contains_sub ''help'' subcommand then returnM (0, ''usage: ...'' @ [CHR 0x0A])
          else if \<not> methodExists subcommand then returnM (1, [])
          else
            catchM
             (bindM (mk_domain c pf None None) (\<lambda>d.
              bindM (invokeMethod pf subcommand args d) (\<lambda>out. returnM (0, out))))
             (\<lambda>_. returnM (1, [])))"

end
