(* ===== verification/Programs.thy ===== *)
theory Programs
  imports Daemon RpcClient
begin

text \<open>
  The programs: \<open>launchd\<close> around the manager, \<open>src/launchd.cc\<close>, and the choice of the program by
  \<open>argv[0]\<close>, \<open>src/main.cc\<close>, on Linux. What is printed is left out.
\<close>

section \<open>Becoming a daemon\<close>

definition become_a_subreaper :: "platform \<Rightarrow> ('a os_state_scheme, int) M" where
  "become_a_subreaper pf = thenM (callM pf (Proc SysSetSubreaper)) (returnM 0)"

definition fork_step :: "platform \<Rightarrow> ('a os_state_scheme, unit) M" where
  "fork_step pf =
     bindM (callM pf (Proc SysFork)) (\<lambda>(pid, _).
     if pid = - 1 then failM (Abort ''abort()'')
     else if pid = 0 then returnM ()
     else failM (Exit 0))"

definition double_fork :: "platform \<Rightarrow> ('a os_state_scheme, unit) M" where
  "double_fork pf = thenM (fork_step pf) (fork_step pf)"

definition O_RDWR :: int where "O_RDWR = 2"

definition dup2_to :: "platform \<Rightarrow> int \<Rightarrow> int \<Rightarrow> ('a os_state_scheme, unit) M" where
  "dup2_to pf fd target = thenM (callM pf (Child (SysDup2 fd target))) (returnM ())"

definition redirect_stdio :: "platform \<Rightarrow> int \<Rightarrow> ('a os_state_scheme, unit) M" where
  "redirect_stdio pf pid =
     bindM (callM pf (Child (SysOpen ''/dev/null'' O_RDWR 0))) (\<lambda>(fd, _).
     if fd < 0 then failM (Abort ''abort()'')
     else
       bindM (if pid = 1 then
                thenM (dup2_to pf fd 3) (thenM (callM pf (Proc (SysClose fd))) (returnM 3))
              else returnM fd) (\<lambda>fd.
       thenM (dup2_to pf fd 0)
      (thenM (dup2_to pf fd 1)
      (thenM (dup2_to pf fd 2)
      (thenM (callM pf (Proc (SysClose fd))) (returnM ()))))))"

definition run_boot_script :: "platform \<Rightarrow> string \<Rightarrow> ('a os_state_scheme, bool) M" where
  "run_boot_script pf path =
     bindM (callM pf (Proc (SysSystem path))) (\<lambda>(status, _).
     returnM (0 \<le> status \<and> WIFEXITED status \<and> WEXITSTATUS status = 0))"

text \<open>
  \<open>if (boot_manager && !run_boot_script(path)) err(1, ...)\<close>. The macro \<open>err\<close> of \<open>log.h\<close> aborts.
\<close>

definition boot_step :: "platform \<Rightarrow> bool \<Rightarrow> string \<Rightarrow> ('a os_state_scheme, unit) M" where
  "boot_step pf boot_manager path =
     whenM boot_manager
       (bindM (run_boot_script pf path) (\<lambda>ok. if ok then returnM () else failM (Abort ''abort()'')))"

definition daemonise :: "platform \<Rightarrow> int \<Rightarrow> ('a os_state_scheme, unit) M" where
  "daemonise pf pid =
     bindM (callM pf (Child (SysChdir ''/''))) (\<lambda>(rv, _).
     if rv \<noteq> 0 then failM (Abort ''abort()'')
     else thenM (whenM (pid \<noteq> 1) (double_fork pf)) (redirect_stdio pf pid))"

section \<open>launchd\<close>

text \<open>
  \<open>getopt\<close> of the C library on the options \<open>bdv\<close>, none of which takes a value: the letters it
  returns, with a question mark for a letter it does not know. Arguments that are not options are
  skipped, and \<open>--\<close> ends the options.
\<close>

fun getopt_bdv :: "string list \<Rightarrow> string" where
  "getopt_bdv [] = []"
| "getopt_bdv (a # as) =
     (if a = ''--'' then []
      else if has_prefix ''-'' a \<and> 1 < length a then
        map (\<lambda>c. if c \<in> set ''bdv'' then c else CHR ''?'') (tl a) @ getopt_bdv as
      else getopt_bdv as)"

text \<open>
  The manager is a local object: it is constructed for the domain that is detected and destroyed
  when the function returns. The result of \<open>runMainLoop\<close> is dropped.
\<close>

definition run_manager :: "nat \<Rightarrow> build_config \<Rightarrow> platform \<Rightarrow> bool \<Rightarrow> (mgr, int) M" where
  "run_manager n c pf boot_manager =
     bindM (mk_domain c pf None None) (\<lambda>d.
     thenM (mk_manager pf d)
    (thenM (startRunning c pf)
    (thenM (runMainLoop n c pf)
    (thenM (boot_step pf boot_manager ''/lib/relaunchd/bootout'')
    (thenM (destroy_manager pf) (returnM 0))))))"

definition launchd_main :: "nat \<Rightarrow> build_config \<Rightarrow> platform \<Rightarrow> string list \<Rightarrow> (mgr, int) M" where
  "launchd_main n c pf args =
     bindM (callM pf (Acct SysGetpid)) (\<lambda>(pid, _).
     let opts = getopt_bdv args;
         boot_manager = CHR ''b'' \<in> set opts;
         daemonize = CHR ''d'' \<in> set opts in
     thenM (boot_step pf boot_manager ''/lib/relaunchd/bootstrap'')
    (thenM (whenM daemonize (daemonise pf pid))
    (thenM (become_a_subreaper pf)
           (run_manager n c pf boot_manager))))"

section \<open>main\<close>

text \<open>An exception that leaves \<open>main\<close> terminates the program.\<close>

definition c_main :: "nat \<Rightarrow> build_config \<Rightarrow> platform \<Rightarrow> string list \<Rightarrow> (mgr, int) M" where
  "c_main n c pf argv =
     (case argv of
        [] \<Rightarrow> failM (Exit 127)
      | program_path # args \<Rightarrow>
          (case main_program program_path of
             Launchd \<Rightarrow> noexceptM (launchd_main n c pf args)
           | Launchctl \<Rightarrow> noexceptM (bindM (launchctl_main c pf args) (\<lambda>(st, _). returnM st))
           | UnknownProgram \<Rightarrow> failM (Exit 128)))"

end
