(* ===== verification/JobFacts.thy ===== *)
theory JobFacts
  imports Job
begin

text \<open>
  Properties of one job: the frame of each operation, the state diagram, what each trigger does,
  the child process and its credentials, unloading, and the reaping of processes.
\<close>

section \<open>What the operations leave alone\<close>

text \<open>
  \<open>core\<close>: the part of a job that starting a process, signalling it and the event layer do not
  touch.
\<close>

definition core :: "job \<Rightarrow> job_state \<times> manifest \<times> bool \<times> int option \<times> string option \<times> job_schedule" where
  "core j = (jb_state j, jb_manifest j, jb_unload_requested j, jb_timer_id j, jb_manifest_path j,
     jb_schedule j)"

lemma em_more_this:
  "em_state.more (s :: 'a job_ctx_scheme) = em_state.more t \<Longrightarrow> this s = this t \<and> this_id s = this_id t"
  by (cases s, cases t) simp

lemma em_indep_this: "em_indep (\<lambda>s :: 'a job_ctx_scheme. P (this s))"
  unfolding em_indep_def by (metis em_more_this)

lemma sys_indep_this: "sys_indep (\<lambda>s :: 'a job_ctx_scheme. P (this s))"
  by (rule sys_indep_em) (rule em_indep_this)

text \<open>
  \<open>job_indep I\<close>: of the object, the predicate looks at most at its \<open>core\<close>, and of the rest at most at
  what system calls leave alone.
\<close>

definition job_indep :: "('a job_ctx_scheme \<Rightarrow> bool) \<Rightarrow> bool" where
  "job_indep I \<longleftrightarrow> sys_indep I \<and>
     (\<forall>s f. (\<forall>j. core (f j) = core j) \<longrightarrow> I s \<longrightarrow> I (s\<lparr>this := f (this s)\<rparr>))"

lemma job_indep_sys: "job_indep I \<Longrightarrow> sys_indep I"
  by (simp add: job_indep_def)

lemma job_indep_core: "job_indep (\<lambda>s :: 'a job_ctx_scheme. P (core (this s)))"
  using sys_indep_this [of "\<lambda>j. P (core j)"] by (simp add: job_indep_def)

lemma preserves_updJ_core:
  "job_indep I \<Longrightarrow> (\<And>j. core (f j) = core j) \<Longrightarrow> preserves I (updJ f)"
  by (simp add: preserves_def updJ_apply job_indep_def)

lemma preserves_opt_value: "preserves I (opt_value x)"
  by (simp add: opt_value_def preserves_throwM preserves_returnM split: option.split)

lemma preserves_or_fail:
  "sys_indep I \<Longrightarrow> preserves I rest \<Longrightarrow> preserves I (or_fail pf c code rest)"
  unfolding or_fail_def by (assumption | rule preserves_em_basic)+

lemma preserves_or_fail_opt:
  "sys_indep I \<Longrightarrow> preserves I rest \<Longrightarrow> preserves I (or_fail_opt pf oc code rest)"
  by (simp add: or_fail_opt_def preserves_or_fail split: option.split)

lemma preserves_redirect:
  "sys_indep I \<Longrightarrow> preserves I rest \<Longrightarrow> preserves I (redirect pf fd p fl mode ec rest)"
  unfolding redirect_def replace_fd_def by (assumption | rule preserves_em_basic)+

lemma preserves_Let: "(\<And>x. x = t \<Longrightarrow> preserves I (f x)) \<Longrightarrow> preserves I (let x = t in f x)"
  by (simp add: Let_def)

lemma preserves_prod2:
  "(\<And>a b. x = (a, b) \<Longrightarrow> preserves I (f a b y)) \<Longrightarrow> preserves I ((case x of (a, b) \<Rightarrow> f a b) y)"
  by (simp split: prod.split)

lemmas preserves_job_basic =
  preserves_prod2
  preserves_em_ops preserves_em_basic preserves_getJ preserves_opt_value preserves_or_fail
  preserves_or_fail_opt preserves_redirect preserves_Let em_indep_this

lemma preserves_exec_image: "sys_indep I \<Longrightarrow> preserves I (exec_image pf m envp)"
  unfolding exec_image_def by (assumption | rule preserves_job_basic)+

lemma preserves_set_credentials:
  "sys_indep I \<Longrightarrow> preserves I rest \<Longrightarrow> preserves I (set_credentials pf m ctx rest)"
  unfolding set_credentials_def Let_def by (assumption | rule preserves_job_basic)+

lemma preserves_start_child_process:
  "sys_indep I \<Longrightarrow> preserves I (start_child_process pf ctx)"
  unfolding start_child_process_def child_steps_def
  by (assumption | rule preserves_job_basic preserves_exec_image preserves_set_credentials)+

lemma preserves_run_child:
  "sys_indep I \<Longrightarrow> preserves I cleanup \<Longrightarrow> preserves I (run_child pf cleanup ctx pfd)"
  unfolding run_child_def becomeChild_def close_end_def writeStatus_def
  by (assumption | rule preserves_job_basic preserves_start_child_process)+

lemma preserves_run_parent:
  assumes "job_indep I"
  shows "preserves I (run_parent pf pfd pid)"
  unfolding run_parent_def becomeParent_def close_end_def readStatus_def destroy_monitor_def Let_def
  by (rule assms job_indep_sys [OF assms] preserves_updJ_core preserves_job_basic | (simp add: core_def; fail))+

lemma preserves_look_up_accounts: "sys_indep I \<Longrightarrow> preserves I (look_up_accounts pf m)"
  unfolding look_up_accounts_def getuid_def by (assumption | rule preserves_job_basic)+

lemma preserves_setup_environment_variables:
  "sys_indep I \<Longrightarrow> preserves I (setup_environment_variables pf pw)"
  unfolding setup_environment_variables_def add_standard_environment_variables_def getuid_def
    getenv_def Let_def
  by (assumption | rule preserves_job_basic)+

lemma preserves_job_run:
  assumes "job_indep I" and "preserves I cleanup"
  shows "preserves I (job_run pf cleanup)"
  unfolding job_run_def run_fork_def run_ids_def createPipe_def close_end_def destroy_monitor_def Let_def
  by (rule assms job_indep_sys [OF assms(1)] preserves_updJ_core preserves_run_child preserves_run_parent
      preserves_look_up_accounts preserves_setup_environment_variables preserves_job_basic
     | (simp add: core_def; fail))+

lemma preserves_job_startJob: "preserves (\<lambda>s. P (core (this s))) (job_startJob pf)"
  unfolding job_startJob_def
  by (rule preserves_job_basic job_indep_core preserves_updJ_core preserves_job_run | (simp add: core_def; fail))+

lemma preserves_job_killJob: "sys_indep I \<Longrightarrow> preserves I (job_killJob pf sig)"
  unfolding job_killJob_def by (assumption | rule preserves_job_basic)+

lemma preserves_kill_group_loop: "sys_indep I \<Longrightarrow> preserves I (kill_group_loop n pf pgid)"
  by (induction n) (simp, (assumption | rule preserves_job_basic)+)+

lemma preserves_killProcessGroup: "sys_indep I \<Longrightarrow> preserves I (killProcessGroup pf)"
  unfolding killProcessGroup_def
  by (assumption | rule preserves_job_basic preserves_kill_group_loop)+

lemma preserves_shouldThrottle: "sys_indep I \<Longrightarrow> preserves I (shouldThrottle pf)"
  unfolding shouldThrottle_def started_time_def by (assumption | rule preserves_job_basic)+

lemma preserves_isDisabled: "sys_indep I \<Longrightarrow> preserves I (isDisabled pf)"
  unfolding isDisabled_def sf_getValue_def by (assumption | rule preserves_job_basic)+

lemma preserves_submit_delete: "em_indep I \<Longrightarrow> preserves I submit_delete"
  unfolding submit_delete_def by (assumption | rule preserves_job_basic)+

section \<open>The state diagram\<close>

inductive job_edge :: "job_state \<Rightarrow> job_trigger \<Rightarrow> job_state \<Rightarrow> bool" where
  start_at_load: "job_edge Loaded Bootstrap Running"
| wait_at_load: "job_edge Loaded Bootstrap Waiting"
| start: "job_edge Loaded StartRequested Running"
| unload_loaded: "job_edge Loaded UnloadRequested Unloaded"
| wake: "job_edge Waiting StartRequested Running"
| unload_waiting: "job_edge Waiting UnloadRequested Unloaded"
| exit: "job_edge Running ProcessExited Exited"
| restart: "job_edge Running ProcessExited Running"
| stop: "job_edge Running StopRequested Running"
| throttle: "job_edge Running ProcessExited Waiting"
| unload_running: "job_edge Running ProcessExited Unloaded"
| unload_exited: "job_edge Exited UnloadRequested Unloaded"

code_pred job_edge .

inductive_cases job_edge_UnloadedE: "job_edge Unloaded tr st"
inductive_cases job_edge_to_UnloadedE: "job_edge st tr Unloaded"

lemma table_edge:
  "t \<in> set (job_table pf exec) \<Longrightarrow> job_edge (from_state t) (trigger t) (to_state t)"
  by (auto simp: job_table_def intro: job_edge.intros)

lemma candidate_edge:
  "t \<in> set (candidates (job_table pf exec) st tr) \<Longrightarrow> job_edge st tr (to_state t)"
  using table_edge [of t pf exec] by (auto simp: candidates_def)

text \<open>The guards read the state file and the clock, and leave the object alone.\<close>

lemma preserves_guards:
  assumes "sys_indep I"
  shows "preserves I (guard_bootstrap_run pf)" and "preserves I (guard_bootstrap_wait pf)"
    and "preserves I guard_exited" and "preserves I (guard_keep_alive pf b)"
    and "preserves I (getJ f)" and "preserves I (returnM True)"
  unfolding guard_bootstrap_run_def guard_bootstrap_wait_def guard_exited_def guard_keep_alive_def
  by (rule assms | rule preserves_job_basic preserves_isDisabled preserves_shouldThrottle)+

lemma preserves_this_eq:
  assumes "preserves (\<lambda>s. this s = j) m" and "this s = j"
  shows "this (snd (m s)) = j"
  using assms by (simp add: preserves_def)

lemma preserves_quiet:
  assumes "\<And>j. preserves (\<lambda>s. this s = j) m"
  shows "quiet get_job_state (Some m)"
  using assms by (simp add: quiet_def get_job_state_def preserves_def)

lemma job_guards_quiet: "t \<in> set (job_table pf exec) \<Longrightarrow> quiet get_job_state (guard t)"
  by (auto simp: job_table_def intro!: preserves_quiet preserves_guards sys_indep_this)

interpretation job_fsm: fsm_owner get_job_state put_job_state "Some (\<lambda>_ _ _. returnM ())"
  "job_table pf exec" for pf exec
  by unfold_locales
    (auto simp: get_job_state_def put_job_state_def returnM_def job_guards_quiet)

lemma preserves_state:
  assumes "\<And>P. preserves (\<lambda>s. P (core (this s))) m" and "m s = (r, s')"
  shows "get_job_state s' = get_job_state s"
  using preservesE [OF assms(1) [of "\<lambda>c. fst c = jb_state (this s)"] assms(2)]
  by (simp add: core_def get_job_state_def)


lemma preserves_core_state:
  assumes "preserves (\<lambda>s. P (fst (core (this s)))) m"
  shows "preserves (\<lambda>s. P (jb_state (this s))) m"
  using assms by (simp add: core_def)

lemma preserves_updJ_state:
  "(\<And>j. jb_state (f j) = jb_state j) \<Longrightarrow> preserves (\<lambda>s. P (jb_state (this s))) (updJ f)"
  by (simp add: preserves_def updJ_apply)

lemma preserves_cancelTimer: "preserves (\<lambda>s. P (jb_state (this s))) (cancelTimer pf)"
  unfolding cancelTimer_def
  by (rule preserves_job_basic preserves_updJ_state | (simp; fail))+

lemma preserves_cancel_if_set: "preserves (\<lambda>s. P (jb_state (this s))) (cancel_if_set pf)"
  unfolding cancel_if_set_def by (rule preserves_job_basic preserves_cancelTimer)+

lemma preserves_timers:
  shows "preserves (\<lambda>s. P (jb_state (this s))) (startAfterThrottleInterval pf)"
    and "preserves (\<lambda>s. P (jb_state (this s))) (schedulePeriodicJob pf)"
  unfolding startAfterThrottleInterval_def started_time_def schedulePeriodicJob_def
  by (rule preserves_job_basic preserves_updJ_state | (simp; fail))+

lemma preserves_startJob_state: "preserves (\<lambda>s. P (jb_state (this s))) (job_startJob pf)"
  by (rule preserves_core_state) (rule preserves_job_startJob)

lemma preserves_keep_state:
  assumes "\<And>st. preserves (\<lambda>s. jb_state (this s) = st) m" and "m s = (r, s')"
  shows "get_job_state s' = get_job_state s"
  using preservesE [OF assms(1) assms(2)] by (simp add: get_job_state_def)

lemma job_actions_state:
  assumes "t \<in> set (job_table pf exec)" and "action t = Some a" and "a s = (Inl e, s')"
    and "\<And>tr s s' e. exec tr s = (Inl e, s') \<Longrightarrow> get_job_state s' = get_job_state s"
  shows "get_job_state s' = get_job_state s"
proof (cases "trigger t = Bootstrap \<and> to_state t = Running")
  case True
  then have "a = thenM (exec StartRequested) (returnM ())"
    using assms(1,2) by (auto simp: job_table_def)
  then show ?thesis
    using assms(3,4) by (auto simp: monad_simps split: prod.splits sum.splits)
next
  case False
  have "preserves (\<lambda>s. jb_state (this s) = st) a" for st
    using assms(1,2) False unfolding job_table_def
    by (auto intro!: preserves_timers preserves_startJob_state preserves_thenM preserves_cancel_if_set
        preserves_submit_delete preserves_returnM preserves_job_killJob em_indep_this sys_indep_this)
  then show ?thesis by (rule preserves_keep_state) (rule assms(3))
qed

lemma job_execute_n_error:
  "job_execute_n n pf tr s = (Inl e, s') \<Longrightarrow> get_job_state s' = get_job_state s"
proof (induction n arbitrary: tr s s' e)
  case 0
  then show ?case by (simp add: monad_simps)
next
  case (Suc n)
  show ?case
  proof (rule job_fsm.execute_error)
    show "execute get_job_state put_job_state (Some (\<lambda>_ _ _. returnM ()))
        (add_transitions Map.empty (job_table pf (job_execute_n n pf))) tr s = (Inl e, s')"
      using Suc.prems by simp
    show "get_job_state s' = get_job_state s"
      if "t \<in> set (job_table pf (job_execute_n n pf))" "action t = Some a" "a s = (Inl e, s')"
      for t a s e s'
      using that by (rule job_actions_state) (rule Suc.IH)
  qed
qed

lemma job_execute_cases:
  "case job_execute pf tr s of
     (Inr Fsm_Success, s') \<Rightarrow> job_edge (get_job_state s) tr (get_job_state s')
   | (Inr Fsm_NoMatchingTrigger, s') \<Rightarrow> s' = s
   | (Inr Fsm_BlockedByGuard, s') \<Rightarrow> get_job_state s' = get_job_state s
   | (Inl e, s') \<Rightarrow> get_job_state s' = get_job_state s"
proof -
  obtain r s' where ex: "job_execute pf tr s = (r, s')" by fastforce
  have out: "case job_execute pf tr s of
      (Inr Fsm_Success, s') \<Rightarrow> (\<exists>t \<in> set (candidates (job_table pf (job_execute_n 1 pf)) (get_job_state s) tr).
         get_job_state s' = to_state t)
    | (Inr Fsm_NoMatchingTrigger, s') \<Rightarrow>
        candidates (job_table pf (job_execute_n 1 pf)) (get_job_state s) tr = [] \<and> s' = s
    | (Inr Fsm_BlockedByGuard, s') \<Rightarrow>
        candidates (job_table pf (job_execute_n 1 pf)) (get_job_state s) tr \<noteq> [] \<and>
        get_job_state s' = get_job_state s
    | (Inl e, s') \<Rightarrow> candidates (job_table pf (job_execute_n 1 pf)) (get_job_state s) tr \<noteq> []"
    using job_fsm.execute_outcome [where pf = pf and exec = "job_execute_n 1 pf" and trig = tr and s = s]
    by (simp add: job_execute_def numeral_2_eq_2)
  show ?thesis
  proof (cases r)
    case (Inl e)
    then have "get_job_state s' = get_job_state s"
      using ex by (auto simp: job_execute_def intro: job_execute_n_error)
    then show ?thesis using ex Inl by simp
  next
    case (Inr st)
    then show ?thesis
      using out ex by (cases st) (auto dest: candidate_edge)
  qed
qed

text \<open>
  C4: a trigger moves a job only along an edge of the state diagram, and only when the action of
  the transition ran to its end; when no transition matches nothing at all happens, and when the
  guards refuse or anything fails the job stays in its state.
\<close>

theorem job_execute_edges:
  "case job_execute pf tr s of
     (Inr Fsm_Success, s') \<Rightarrow> job_edge (get_job_state s) tr (get_job_state s')
   | (Inr Fsm_NoMatchingTrigger, s') \<Rightarrow> s' = s
   | (Inr Fsm_BlockedByGuard, s') \<Rightarrow> get_job_state s' = get_job_state s
   | (Inl e, s') \<Rightarrow> get_job_state s' = get_job_state s"
  by (rule job_execute_cases)

text \<open>The first row is the only one that uses the nested \<open>execute\<close>.\<close>

lemma candidates_nested:
  "tr \<noteq> Bootstrap \<Longrightarrow> candidates (job_table pf e1) st tr = candidates (job_table pf e2) st tr"
  by (simp add: candidates_def job_table_def)

lemma job_execute_n_unnested:
  "tr \<noteq> Bootstrap \<Longrightarrow> job_execute_n (Suc n) pf tr s = job_execute_n (Suc m) pf tr s"
  using candidates_nested [of tr pf "job_execute_n n pf" "get_job_state s" "job_execute_n m pf"]
  by (simp add: execute_candidates)

text \<open>
  \<open>execute\<close> calls itself at most once inside itself: any nesting bound from two on gives the
  same result, so the bound of the model cuts nothing off.
\<close>

theorem job_execute_nesting:
  "job_execute_n (n + 2) pf tr = job_execute pf tr"
proof -
  have "job_execute_n (Suc n) pf StartRequested = job_execute_n (Suc 0) pf StartRequested"
    by (rule ext) (rule job_execute_n_unnested, simp)
  then have "job_table pf (job_execute_n (Suc n) pf) = job_table pf (job_execute_n (Suc 0) pf)"
    by (simp only: job_table_def)
  then have "job_execute_n (Suc (Suc n)) pf tr = job_execute_n (Suc (Suc 0)) pf tr"
    unfolding job_execute_n.simps(2) [of "Suc n"] job_execute_n.simps(2) [of "Suc 0"] by (rule arg_cong)
  then show ?thesis by (simp add: job_execute_def numeral_2_eq_2)
qed

section \<open>What each trigger does\<close>

text \<open>\<open>run_action\<close>: an action followed by the change of state.\<close>

definition run_action :: "(job_ctx, unit) M \<Rightarrow> job_state \<Rightarrow> (job_ctx, fsm_status) M" where
  "run_action a st = thenM a (thenM (modifyM (put_job_state st)) (returnM Fsm_Success))"

lemma job_execute_loop:
  "job_execute pf tr s = exec_loop put_job_state (Some (\<lambda>_ _ _. returnM ())) tr Fsm_NoMatchingTrigger
     (candidates (job_table pf (job_execute_n 1 pf)) (get_job_state s) tr) s"
  by (simp add: job_execute_def numeral_2_eq_2 execute_candidates)

lemma exec_loop_row:
  "exec_loop put_job_state (Some (\<lambda>_ _ _. returnM ())) tr err
     (\<lparr>from_state = a, to_state = b, trigger = tr, guard = Some g, action = Some act\<rparr> # ts) s =
   bindM g (\<lambda>ok. if ok then run_action act b
     else exec_loop put_job_state (Some (\<lambda>_ _ _. returnM ())) tr Fsm_BlockedByGuard ts) s"
  by (simp add: run_action_def monad_simps split: prod.split sum.split)

lemma exec_loop_row_true:
  "exec_loop put_job_state (Some (\<lambda>_ _ _. returnM ())) tr err
     (\<lparr>from_state = a, to_state = b, trigger = tr, guard = always_true, action = Some act\<rparr> # ts) s =
   run_action act b s"
  by (simp add: exec_loop_row monad_simps del: exec_loop.simps(2))

lemma execute_stop:
  "job_execute pf StopRequested s =
     (if get_job_state s = Running
      then run_action (thenM (job_killJob pf SIGTERM) (returnM ())) Running s
      else (Inr Fsm_NoMatchingTrigger, s))"
  by (cases "get_job_state s")
    (simp_all add: job_execute_loop candidates_def job_table_def exec_loop_row_true monad_simps
      del: exec_loop.simps(2))

lemma execute_unload:
  "job_execute pf UnloadRequested s =
     (case get_job_state s of
        Loaded \<Rightarrow> run_action submit_delete Unloaded s
      | Waiting \<Rightarrow> run_action (thenM (cancel_if_set pf) submit_delete) Unloaded s
      | Exited \<Rightarrow> run_action submit_delete Unloaded s
      | _ \<Rightarrow> (Inr Fsm_NoMatchingTrigger, s))"
  by (cases "get_job_state s")
    (simp_all add: job_execute_loop candidates_def job_table_def exec_loop_row_true monad_simps
      del: exec_loop.simps(2))

lemma execute_bootstrap:
  "get_job_state s = Loaded \<Longrightarrow> job_execute pf Bootstrap s =
     bindM (guard_bootstrap_run pf) (\<lambda>ok. if ok then run_action (thenM (job_execute_n 1 pf StartRequested) (returnM ())) Running
       else bindM (guard_bootstrap_wait pf) (\<lambda>ok. if ok then run_action (schedulePeriodicJob pf) Waiting
       else returnM Fsm_BlockedByGuard)) s"
  by (simp add: job_execute_loop candidates_def job_table_def exec_loop_row
      del: exec_loop.simps(2) job_execute_n.simps cong: if_cong)
    (simp add: monad_simps run_action_def del: job_execute_n.simps split: prod.split sum.split)

lemma execute_exited:
  "get_job_state s = Running \<Longrightarrow> job_execute pf ProcessExited s =
     bindM guard_exited (\<lambda>ok. if ok then run_action (returnM ()) Exited
       else bindM (guard_keep_alive pf False) (\<lambda>ok. if ok then run_action (job_startJob pf) Running
       else bindM (guard_keep_alive pf True) (\<lambda>ok.
         if ok then run_action (startAfterThrottleInterval pf) Waiting
       else bindM (getJ jb_unload_requested) (\<lambda>ok. if ok then run_action submit_delete Unloaded
       else returnM Fsm_BlockedByGuard)))) s"
  by (simp add: job_execute_loop candidates_def job_table_def exec_loop_row
      del: exec_loop.simps(2) cong: if_cong)
    (simp add: monad_simps exec_loop_row del: exec_loop.simps(2) split: prod.split sum.split)

lemma execute_start:
  "job_execute pf StartRequested s =
     (case get_job_state s of
        Loaded \<Rightarrow> run_action (job_startJob pf) Running s
      | Waiting \<Rightarrow> run_action (thenM (cancel_if_set pf) (job_startJob pf)) Running s
      | _ \<Rightarrow> (Inr Fsm_NoMatchingTrigger, s))"
  by (cases "get_job_state s")
    (simp_all add: job_execute_loop candidates_def job_table_def exec_loop_row_true monad_simps
      del: exec_loop.simps(2))

section \<open>KeepAlive\<close>

lemma now_eq: "0 \<le> fst (sys_int pf (trace s) (Proc SysClock)) \<Longrightarrow>
   current_time pf s = (Inr (fst (sys_int pf (trace s) (Proc SysClock))), s\<lparr>trace := Proc SysClock # trace s\<rparr>)"
  by (simp add: current_time_def monad_simps split_beta)

lemma shouldThrottle_eq:
  "0 \<le> fst (sys_int pf (trace s) (Proc SysClock)) \<Longrightarrow> jb_started_at (this s) = Some t0 \<Longrightarrow>
   shouldThrottle pf s =
     (Inr (fst (sys_int pf (trace s) (Proc SysClock)) - t0 < uint (throttle_interval (jb_manifest (this s)))),
      s\<lparr>trace := Proc SysClock # trace s\<rparr>)"
  by (simp add: shouldThrottle_def started_time_def now_eq monad_simps)

text \<open>The readings of the clock, one after the other, from a history on.\<close>

definition clock_at :: "platform \<Rightarrow> syscall list \<Rightarrow> nat \<Rightarrow> int" where
  "clock_at pf h n = fst (sys_int pf (replicate n (Proc SysClock) @ h) (Proc SysClock))"

definition after_clock :: "nat \<Rightarrow> job_ctx \<Rightarrow> job_ctx" where
  "after_clock n s = s\<lparr>trace := replicate n (Proc SysClock) @ trace s\<rparr>"

lemma clock_at_0: "fst (sys_int pf (trace s) (Proc SysClock)) = clock_at pf (trace s) 0"
  by (simp add: clock_at_def)

text \<open>
  C26: what \<open>KeepAlive\<close> does when the process exits, in terms of the clock: past the throttle
  interval the job is restarted at once, within it the restart is left to a timer for the rest of
  the interval. The interval is checked once by each guard: when it runs out between the two
  readings neither guard holds, and the job stays in Running without a process.
\<close>

theorem keep_alive_restart:
  assumes "get_job_state s = Running" and "keep_alive_always (jb_manifest (this s))"
    and "\<not> jb_unload_requested (this s)" and "jb_started_at (this s) = Some t0"
    and "\<forall>n. 0 \<le> clock_at pf (trace s) n"
  shows "job_execute pf ProcessExited s =
    (let T = uint (throttle_interval (jb_manifest (this s))); t = clock_at pf (trace s) in
     if T \<le> t 0 - t0 then run_action (job_startJob pf) Running (after_clock 1 s)
     else if t 1 - t0 < T then run_action
       (bindM (addTimer pf ((T - (t 2 - t0)) * 1000) (OnThrottleTimer (this_id s)))
         (\<lambda>i. updJ (jb_timer_id_update (\<lambda>_. Some i)))) Waiting (after_clock 3 s)
     else (Inr Fsm_BlockedByGuard, after_clock 2 s))"
proof -
  have c: "0 \<le> fst (sys_int pf (trace s) (Proc SysClock))"
    "0 \<le> fst (sys_int pf (Proc SysClock # trace s) (Proc SysClock))"
    "0 \<le> fst (sys_int pf (Proc SysClock # Proc SysClock # trace s) (Proc SysClock))"
    using assms(5) [rule_format, of 0] assms(5) [rule_format, of 1] assms(5) [rule_format, of 2]
    by (simp_all add: clock_at_def numeral_2_eq_2)
  show ?thesis
    using assms(1-4) c
    by (simp add: execute_exited monad_simps guard_exited_def guard_keep_alive_def shouldThrottle_eq
        Let_def after_clock_def clock_at_def numeral_2_eq_2 numeral_3_eq_3 run_action_def
        startAfterThrottleInterval_def started_time_def now_eq)
qed

section \<open>The child\<close>

lemma fails_in_opt_value: "x \<noteq> None \<Longrightarrow> fails_in E (opt_value x)"
  by (auto simp: opt_value_def intro: fails_rules)

lemma fails_in_getJ [fails_rules]: "fails_in E (getJ f)"
  by (simp add: getJ_def fails_in_getsM)

lemma fails_in_updJ [fails_rules]: "fails_in E (updJ f)"
  by (simp add: updJ_def fails_in_modifyM)

lemma fails_in_or_fail [fails_rules]: "fails_in E rest \<Longrightarrow> fails_in E (or_fail pf c code rest)"
  unfolding or_fail_def by (assumption | rule fails_rules)+

lemma fails_in_or_fail_opt [fails_rules]:
  "fails_in E rest \<Longrightarrow> fails_in E (or_fail_opt pf oc code rest)"
  by (simp add: or_fail_opt_def fails_in_or_fail split: option.split)

lemma fails_in_redirect [fails_rules]:
  "fails_in E rest \<Longrightarrow> fails_in E (redirect pf fd p fl mode ec rest)"
  unfolding redirect_def replace_fd_def by (assumption | rule fails_rules)+

lemma fails_in_exec_image:
  assumes "program m = Some p" and "Exec p (program_arguments m) envp \<in> E"
  shows "fails_in E (exec_image pf m envp)"
  unfolding exec_image_def using assms
  by (auto intro!: fails_in_or_fail fails_in_bindM fails_in_callM fails_in_failM fails_in_returnM)

lemma fails_in_set_credentials:
  assumes "fails_in E rest" and "user_name m = None \<or> ctx_gid ctx \<noteq> None \<and> ctx_uid ctx \<noteq> None"
  shows "fails_in E (set_credentials pf m ctx rest)"
  unfolding set_credentials_def Let_def
  by (cases "user_name m")
    (use assms in \<open>auto intro!: fails_in_or_fail fails_in_bindM fails_in_opt_value fails_in_if\<close>)

lemma fails_in_child_steps:
  assumes "program m = Some p"
    and "user_name m = None \<or> ctx_gid ctx \<noteq> None \<and> ctx_uid ctx \<noteq> None"
  shows "fails_in {Exec p (program_arguments m) (ctx_environ ctx)} (child_steps pf m ctx)"
  unfolding child_steps_def
  by (intro fails_rules fails_in_set_credentials assms(2) fails_in_exec_image [OF assms(1)]) simp

text \<open>
  C14: a forked child never returns to the daemon's code: for a manifest that parsed it becomes the
  program with the argument vector and the environment of the job, or it ends with status 127.
\<close>

theorem child_never_returns:
  assumes "manifest_ok (jb_manifest (this s))" and "0 \<le> fst pfd"
    and "user_name (jb_manifest (this s)) \<noteq> None \<longrightarrow> ctx_gid ctx \<noteq> None \<and> ctx_uid ctx \<noteq> None"
  shows "fst (run_child pf (handleFork pf) ctx pfd s) \<in>
    {Inl (Exit 127), Inl (Exec (the (program (jb_manifest (this s))))
       (program_arguments (jb_manifest (this s))) (ctx_environ ctx))}"
proof -
  let ?m = "jb_manifest (this s)"
  let ?E = "{Exec (the (program ?m)) (program_arguments ?m) (ctx_environ ctx)}"
  obtain p where p: "program ?m = Some p" using assms(1) by (auto simp: manifest_ok_def)
  obtain pfd' s2 where s2: "run_child pf (handleFork pf) ctx pfd s =
      bindM (start_child_process pf ctx) (\<lambda>maybe_error.
      thenM (case maybe_error of Some st \<Rightarrow> writeStatus pf pfd' st | None \<Rightarrow> returnM ())
            (failM (Exit 127))) s2" and this2: "this s2 = this s"
    using assms(2)
    by (simp add: run_child_def becomeChild_def close_end_def handleFork_def unblockAllSignals_def
        monad_simps)
  obtain r s3 where r: "start_child_process pf ctx s2 = (r, s3)" by fastforce
  show ?thesis
  proof (cases r)
    case (Inl e)
    have "child_steps pf ?m ctx s2 = (Inl e, s3)"
      using r Inl by (simp add: start_child_process_def monad_simps this2)
    then have "e \<in> ?E"
      using fails_in_child_steps [OF p, of ctx pf] assms(3) fails_inD p by fastforce
    then show ?thesis using s2 r Inl by (simp add: monad_simps)
  next
    case (Inr st)
    then show ?thesis
      using s2 r by (cases st) (simp_all add: monad_simps writeStatus_def split_beta)
  qed
qed

text \<open>The history only grows.\<close>

lemma preserves_called:
  "preserves (\<lambda>s. c \<in> set (trace s)) (exec_image pf m envp)"
  "preserves (\<lambda>s. c \<in> set (trace s)) rest \<Longrightarrow>
   preserves (\<lambda>s. c \<in> set (trace s)) (redirect pf fd p fl mode ec rest)"
  unfolding exec_image_def or_fail_def redirect_def replace_fd_def
  by (auto intro!: preserves_rules)

lemma or_fail_Inl:
  "or_fail pf c code rest s = (Inl e, s') \<Longrightarrow> rest (s\<lparr>trace := Child c # trace s\<rparr>) = (Inl e, s')"
  by (auto simp: or_fail_def monad_simps split: prod.splits if_splits)

lemma or_fail_opt_Inl:
  assumes "or_fail_opt pf oc code rest s = (Inl e, s')"
  obtains s1 where "rest s1 = (Inl e, s')"
  using assms by (cases oc) (auto simp: or_fail_opt_def dest: or_fail_Inl)

lemma set_credentials_reached:
  assumes "set_credentials pf m ctx rest s = (Inl e, s')" and "user_name m = Some u"
    and "ctx_gid ctx = Some g" and "ctx_uid ctx = Some i"
    and "\<And>c. preserves (\<lambda>s. c \<in> set (trace s)) rest"
  shows "Child (SysSetgid g) \<in> set (trace s') \<and> Child (SysSetuid i) \<in> set (trace s')"
proof -
  obtain s1 where s1: "rest s1 = (Inl e, s')" "Child (SysSetgid g) \<in> set (trace s1)"
    "Child (SysSetuid i) \<in> set (trace s1)"
    using assms(1-4)
    by (auto simp: set_credentials_def opt_value_def Let_def monad_simps split: if_splits
        dest!: or_fail_Inl)
  then show ?thesis
    using preservesE [OF assms(5) s1(1)] by blast
qed

lemma child_steps_credentials:
  assumes "child_steps pf m ctx s = (Inl e, s')" and "user_name m = Some u"
    and "ctx_gid ctx = Some g" and "ctx_uid ctx = Some i"
  shows "Child (SysSetgid g) \<in> set (trace s') \<and> Child (SysSetuid i) \<in> set (trace s')"
  using assms(1) unfolding child_steps_def
  by (auto simp: monad_simps dest!: or_fail_Inl elim!: or_fail_opt_Inl
      dest!: set_credentials_reached [OF _ assms(2-4)] intro!: preserves_called)


lemma fails_in_look_up_accounts [fails_rules]: "fails_in E (look_up_accounts pf m)"
  unfolding look_up_accounts_def getuid_def by (rule fails_rules)+

lemma fails_in_setup_environment_variables [fails_rules]:
  "fails_in E (setup_environment_variables pf pw)"
  unfolding setup_environment_variables_def add_standard_environment_variables_def getuid_def
    getenv_def Let_def
  by (rule fails_rules)+

lemma fails_in_close_end [fails_rules]: "fails_in E (close_end pf fd)"
  unfolding close_end_def by (rule fails_rules)+

lemma fails_in_prod2 [fails_rules]:
  "(\<And>a b. x = (a, b) \<Longrightarrow> fails_in E (f a b y)) \<Longrightarrow> fails_in E ((case x of (a, b) \<Rightarrow> f a b) y)"
  by (simp split: prod.split)

lemma fails_in_createPipe: "fails_in (range Throw) (createPipe pf pfd)"
  unfolding createPipe_def by (rule fails_rules rangeI)+

lemma fails_in_run_parent: "fails_in {Abort ''abort()'', Abort ''pfd[1] >= 0''} (run_parent pf pfd pid)"
  unfolding run_parent_def becomeParent_def readStatus_def destroy_monitor_def Let_def
  by (rule fails_rules | (simp; fail))+

lemma this_kept:
  assumes "\<And>j. preserves (\<lambda>s. this s = j) m" and "m s = (r, s')"
  shows "this s' = this s"
  using preservesE [OF assms(1) assms(2)] by simp

lemma look_up_passwd:
  assumes "look_up_accounts pf m s = (Inr (gr, pw), s')" and "user_name m = Some u"
  shows "\<exists>h. pw = sys_passwd pf h (Acct (SysGetpwnam u))"
  using assms by (auto simp: look_up_accounts_def monad_simps split: option.splits prod.splits)

lemma preserves_createPipe: "sys_indep I \<Longrightarrow> preserves I (createPipe pf pfd)"
  unfolding createPipe_def by (assumption | rule preserves_job_basic)+

lemma run_fork_execE:
  assumes "run_fork pf cleanup ctx s = (Inl (Exec p a env), s')"
  obtains pfd s1 where "this s1 = (this s)\<lparr>jb_pid := 0\<rparr>"
    and "run_child pf cleanup ctx pfd s1 = (Inl (Exec p a env), s')"
proof -
  have ex: "Exec p a env \<notin> range Throw" by auto
  from assms [unfolded run_fork_def] obtain pfd s1
    where s1: "createPipe pf (- 1, - 1) s = (Inr pfd, s1)"
      and r1: "bindM (callM pf (Proc SysFork)) (\<lambda>(pid, _).
        thenM (updJ (jb_pid_update (\<lambda>_. pid)))
       (if pid < 0 then thenM (destroy_monitor pf pfd) (returnM False)
        else if pid = 0 then run_child pf cleanup ctx pfd
        else run_parent pf pfd pid)) s1 = (Inl (Exec p a env), s')"
    by (rule bindM_failE [OF _ fails_in_createPipe ex])
  have k: "this s1 = this s"
    by (rule this_kept [OF preserves_createPipe s1]) (rule sys_indep_this)
  obtain pid err where f: "sys_int pf (trace s1) (Proc SysFork) = (pid, err)" by fastforce
  let ?s2 = "s1\<lparr>trace := Proc SysFork # trace s1, this := (this s1)\<lparr>jb_pid := pid\<rparr>\<rparr>"
  have r2: "(if pid < 0 then thenM (destroy_monitor pf pfd) (returnM False)
        else if pid = 0 then run_child pf cleanup ctx pfd
        else run_parent pf pfd pid) ?s2 = (Inl (Exec p a env), s')"
    using r1 f by (simp add: monad_simps)
  have d: "fails_in {} (thenM (destroy_monitor pf pfd) (returnM False))"
    unfolding destroy_monitor_def by (rule fails_rules)+
  have "pid = 0"
  proof (rule ccontr)
    assume "pid \<noteq> 0"
    then consider "thenM (destroy_monitor pf pfd) (returnM False) ?s2 = (Inl (Exec p a env), s')"
      | "run_parent pf pfd pid ?s2 = (Inl (Exec p a env), s')"
      using r2 by (auto split: if_splits)
    then show False
      by cases (auto dest: fails_inD [OF d] fails_inD [OF fails_in_run_parent])
  qed
  then show thesis using that [of ?s2 pfd] r2 k by simp
qed

text \<open>A child that reached \<open>execve\<close>: the parts of \<open>run\<close> it went through.\<close>

lemma job_run_execE:
  assumes run: "job_run pf cleanup s = (Inl (Exec p a env), s')" and jm: "jb_manifest (this s) = m"
  obtains gr pw uid gid e pfd s1 s3 where "look_up_accounts pf m s = (Inr (gr, pw), s1)"
    and "run_ids m pw gr s1 = (Inr (uid, gid), s1)"
    and "this s3 = (this s)\<lparr>jb_pid := 0\<rparr>"
    and "run_child pf cleanup \<lparr>ctx_gid = uid, ctx_uid = gid, ctx_environ = e\<rparr> pfd s3 =
      (Inl (Exec p a env), s')"
proof -
  let ?rest = "\<lambda>pw (uid, gid). bindM (setup_environment_variables pf pw) (\<lambda>env.
     run_fork pf cleanup \<lparr>ctx_gid = uid, ctx_uid = gid, ctx_environ = env\<rparr>)"
  have ex: "Exec p a env \<notin> range Undefined" "Exec p a env \<notin> {}" by auto
  have "bindM (look_up_accounts pf m) (\<lambda>(gr, pw). bindM (run_ids m pw gr) (?rest pw)) s =
      (Inl (Exec p a env), s')"
    using run by (simp add: job_run_def bindM_apply [of "getJ jb_manifest"] getJ_apply jm)
  then obtain gr pw s1 where s1: "look_up_accounts pf m s = (Inr (gr, pw), s1)"
      and r1: "bindM (run_ids m pw gr) (?rest pw) s1 = (Inl (Exec p a env), s')"
    by (auto elim!: bindM_failE [OF _ fails_in_look_up_accounts ex(2)])
  have "fails_in (range Undefined) (run_ids m pw gr)"
    unfolding run_ids_def by (rule fails_rules rangeI)+
  from bindM_failE [OF r1 this ex(1)] obtain x s2 where "run_ids m pw gr s1 = (Inr x, s2)"
    and r2: "?rest pw x s2 = (Inl (Exec p a env), s')" by blast
  then obtain uid gid where ids: "run_ids m pw gr s1 = (Inr (uid, gid), s1)" "x = (uid, gid)" "s2 = s1"
    by (cases x) (auto simp: run_ids_def monad_simps split: if_splits option.splits)
  from r2 [unfolded ids prod.case] obtain e s3
    where s3: "setup_environment_variables pf pw s1 = (Inr e, s3)"
      and r3: "run_fork pf cleanup \<lparr>ctx_gid = uid, ctx_uid = gid, ctx_environ = e\<rparr> s3 =
        (Inl (Exec p a env), s')"
    by (rule bindM_failE [OF _ fails_in_setup_environment_variables ex(2)])
  have "this s3 = this s1"
    by (rule this_kept [OF preserves_setup_environment_variables s3]) (rule sys_indep_this)
  moreover have "this s1 = this s"
    by (rule this_kept [OF preserves_look_up_accounts s1]) (rule sys_indep_this)
  ultimately show thesis
    using run_fork_execE [OF r3] that [OF s1 ids(1)] by metis
qed

text \<open>
  C35: the credentials of a job with a \<open>UserName\<close> are exchanged: the child that reaches the program
  has called \<open>setgid\<close> with the user's number and \<open>setuid\<close> with the number of its primary group.
\<close>

theorem run_swaps_credentials:
  assumes "job_run pf (handleFork pf) s = (Inl (Exec p a env), s')"
    and "user_name (jb_manifest (this s)) = Some u" and "group_name (jb_manifest (this s)) = None"
    and "\<forall>h. sys_passwd pf h (Acct (SysGetpwnam u)) = Some pw"
  shows "Child (SysSetgid (pw_uid pw)) \<in> set (trace s') \<and> Child (SysSetuid (pw_gid pw)) \<in> set (trace s')"
proof -
  from assms(1) refl show ?thesis
  proof (rule job_run_execE)
    fix gr pw' uid gid e pfd s1 s3
    assume lk: "look_up_accounts pf (jb_manifest (this s)) s = (Inr (gr, pw'), s1)"
      and ids: "run_ids (jb_manifest (this s)) pw' gr s1 = (Inr (uid, gid), s1)"
      and t3: "this s3 = (this s)\<lparr>jb_pid := 0\<rparr>"
      and ch: "run_child pf (handleFork pf) \<lparr>ctx_gid = uid, ctx_uid = gid, ctx_environ = e\<rparr> pfd s3 =
        (Inl (Exec p a env), s')"
    let ?ctx = "\<lparr>ctx_gid = uid, ctx_uid = gid, ctx_environ = e\<rparr>"
    have "pw' = Some pw" using look_up_passwd [OF lk assms(2)] assms(4) by auto
    then have c: "ctx_gid ?ctx = Some (pw_uid pw)" "ctx_uid ?ctx = Some (pw_gid pw)"
      using ids assms(2,3) by (auto simp: run_ids_def monad_simps)
    obtain s4 where "child_steps pf (jb_manifest (this s)) ?ctx s4 = (Inl (Exec p a env), s')"
      using ch t3
      by (auto simp: run_child_def becomeChild_def close_end_def handleFork_def unblockAllSignals_def
          start_child_process_def writeStatus_def monad_simps split: if_splits prod.splits sum.splits
          option.splits)
    from child_steps_credentials [OF this assms(2) c] show ?thesis .
  qed
qed

section \<open>Unloading\<close>

definition switched_off :: "manifest \<Rightarrow> bool option \<Rightarrow> bool" where
  "switched_off m r = (case r of Some enabled \<Rightarrow> \<not> enabled | None \<Rightarrow> disabled m)"

lemma isDisabled_eq:
  "override_enabled (jlib pf) (sf_current s) (label (jb_manifest (this s))) = Inr r \<Longrightarrow>
   isDisabled pf s = (Inr (switched_off (jb_manifest (this s)) r), s)"
  by (simp add: isDisabled_def monad_simps sf_getValue_def switched_off_def)

text \<open>A manifest that gives launchd no reason to start the job.\<close>

lemma idle_bootstrap:
  assumes "get_job_state s = Loaded" and "\<not> run_at_load (jb_manifest (this s))"
    and "\<not> keep_alive_always (jb_manifest (this s))" and "start_interval (jb_manifest (this s)) = None"
    and "override_enabled (jlib pf) (sf_current s) (label (jb_manifest (this s))) = Inr r"
  shows "job_execute pf Bootstrap s = (Inr Fsm_BlockedByGuard, s)"
  using assms isDisabled_eq [OF assms(5)]
  by (simp add: execute_bootstrap guard_bootstrap_run_def guard_bootstrap_wait_def monad_simps)

definition delete_event :: "job_ctx \<Rightarrow> event" where
  "delete_event s = IpcEvent ''delete_job'' (label (jb_manifest (this s)))"

lemma submit_delete_eq:
  "submit_delete s = (Inr (), s\<lparr>pending_events := pending_events s @ [delete_event s]\<rparr>)"
  by (simp add: submit_delete_def submitIpcCallback_def addPendingEvent_def monad_simps
      delete_event_def)

definition unloaded :: "job_ctx \<Rightarrow> job_ctx" where
  "unloaded s = put_job_state Unloaded (s\<lparr>pending_events := pending_events s @ [delete_event s]\<rparr>)"

definition mark_unload :: "job_ctx \<Rightarrow> job_ctx" where
  "mark_unload s = s\<lparr>this := (this s)\<lparr>jb_unload_requested := True\<rparr>\<rparr>"

lemma job_killJob_eq:
  "job_killJob pf sig s =
     (let pid = jb_pid (this s); c = Proc (SysKill pid sig) in
      if pid = 0 then (Inr True, s)
      else (Inr (0 \<le> fst (sys_int pf (trace s) c)), s\<lparr>trace := c # trace s\<rparr>))"
  by (simp add: job_killJob_def monad_simps Let_def split_beta)

lemma job_unloadJob_eq:
  assumes "\<not> jb_unload_requested (this s)"
    and "override_enabled (jlib pf) (sf_current s) (label (jb_manifest (this s))) = Inr r"
  shows "job_unloadJob pf force s =
    (if get_job_state s = Unloaded then (Inr False, s)
     else if switched_off (jb_manifest (this s)) r \<and> \<not> force then (Inr False, mark_unload s)
     else if get_job_state s = Running then
       (Inr True, if jb_pid (this s) = 0 then mark_unload s
         else (mark_unload s)\<lparr>trace := Proc (SysKill (jb_pid (this s)) SIGTERM) # trace s\<rparr>)
     else if get_job_state s = Waiting \<and> jb_timer_id (this s) \<noteq> None then
       (case cancelTimer pf (mark_unload s) of
          (Inl e, s') \<Rightarrow> (Inl e, s') | (Inr _, s') \<Rightarrow> (Inr True, unloaded s'))
     else (Inr True, unloaded (mark_unload s)))"
proof -
  let ?s = "mark_unload s"
  have d: "isDisabled pf ?s = (Inr (switched_off (jb_manifest (this s)) r), ?s)"
    using isDisabled_eq [of pf ?s r] assms(2) by (simp add: mark_unload_def)
  have st: "get_job_state ?s = get_job_state s" and t: "jb_timer_id (this ?s) = jb_timer_id (this s)"
    by (simp_all add: get_job_state_def mark_unload_def)
  have u: "updJ (jb_unload_requested_update (\<lambda>_. True)) s = (Inr (), ?s)"
    by (simp add: updJ_apply mark_unload_def)
  have run: "job_unloadJob pf force s = (if get_job_state s = Unloaded then (Inr False, s)
     else if switched_off (jb_manifest (this s)) r \<and> \<not> force then (Inr False, ?s)
     else thenM (job_execute pf StopRequested)
         (thenM (job_execute pf UnloadRequested) (returnM True)) ?s)"
    using assms(1) by (simp add: job_unloadJob_def bindM_apply thenM_apply [of "updJ _"] getsM_apply
        getJ_apply u d returnM_def)
  have running: "put_job_state Running x = x" if "get_job_state x = Running" for x
    using that by (cases x) (auto simp: put_job_state_def get_job_state_def)
  have kill: "get_job_state (?s\<lparr>trace := h\<rparr>) = get_job_state s" for h
    by (simp add: get_job_state_def mark_unload_def)
  show ?thesis
    unfolding run
    by (cases "get_job_state s")
      (simp_all add: monad_simps execute_stop execute_unload st t kill running run_action_def
        submit_delete_eq unloaded_def cancel_if_set_def job_killJob_eq Let_def split_beta
        split: sum.split, auto simp: mark_unload_def split: prod.split sum.split)
qed

text \<open>
  C13: a request to unload a job, in every state: a job that holds no process and no timer leaves at
  once and its deletion is queued, once; a running job gets \<open>SIGTERM\<close> and stays until its process
  exits; a waiting job first cancels its timer, and stays as it is when that fails; a disabled job
  refuses unless forced.
\<close>

theorem unloadJob_spec:
  assumes "\<not> jb_unload_requested (this s)"
    and "override_enabled (jlib pf) (sf_current s) (label (jb_manifest (this s))) = Inr r"
  shows "job_unloadJob pf force s =
    (if get_job_state s = Unloaded then (Inr False, s)
     else if switched_off (jb_manifest (this s)) r \<and> \<not> force then (Inr False, mark_unload s)
     else if get_job_state s = Running then
       (Inr True, if jb_pid (this s) = 0 then mark_unload s
         else (mark_unload s)\<lparr>trace := Proc (SysKill (jb_pid (this s)) SIGTERM) # trace s\<rparr>)
     else if get_job_state s = Waiting \<and> jb_timer_id (this s) \<noteq> None then
       (case cancelTimer pf (mark_unload s) of
          (Inl e, s') \<Rightarrow> (Inl e, s') | (Inr _, s') \<Rightarrow> (Inr True, unloaded s'))
     else (Inr True, unloaded (mark_unload s)))"
  by (rule job_unloadJob_eq [OF assms])

text \<open>
  C38: an unload request that is refused because the job is disabled, by its manifest or by the
  switch in the state file, is not without effect: the job stays loaded, but it ignores every later
  request, a forced one too.
\<close>

theorem refused_unload_wedges:
  assumes "\<not> jb_unload_requested (this s)" and "get_job_state s \<noteq> Unloaded"
    and "override_enabled (jlib pf) (sf_current s) (label (jb_manifest (this s))) = Inr r"
    and "switched_off (jb_manifest (this s)) r"
  shows "\<exists>s'. job_unloadJob pf False s = (Inr False, s') \<and> get_job_state s' = get_job_state s \<and>
    job_unloadJob pf force s' = (Inr False, s')"
proof -
  let ?s = "mark_unload s"
  have d: "isDisabled pf ?s = (Inr True, ?s)"
    using isDisabled_eq [of pf ?s r] assms(3,4) by (simp add: mark_unload_def)
  have u: "updJ (jb_unload_requested_update (\<lambda>_. True)) s = (Inr (), ?s)"
    by (simp add: updJ_apply mark_unload_def)
  have "job_unloadJob pf False s = (Inr False, ?s)"
    using assms(1,2) by (simp add: job_unloadJob_def bindM_apply thenM_apply [of "updJ _"] getsM_apply
        getJ_apply u d returnM_def)
  moreover have "job_unloadJob pf force ?s = (Inr False, ?s)"
    by (simp add: job_unloadJob_def monad_simps) (simp add: mark_unload_def)
  ultimately show ?thesis by (auto simp: get_job_state_def mark_unload_def)
qed

section \<open>Reaping\<close>

text \<open>
  The calls that are neither a \<open>SIGTERM\<close> nor a wait for an event or for any child: what a job does
  about its exit consists of such calls.
\<close>

fun quiet_call :: "syscall \<Rightarrow> bool" where
  "quiet_call (Proc (SysKill p sig)) = (sig \<noteq> SIGTERM)"
| "quiet_call (Proc (SysWaitpidNohang p)) = False"
| "quiet_call (Evt (SysEpollWait fd t)) = False"
| "quiet_call _ = True"

lemma kill_group_loop_quiet:
  "\<exists>k. snd (kill_group_loop n pf pgid s) = s\<lparr>trace := k @ trace s\<rparr> \<and> list_all quiet_call k"
proof (induction n arbitrary: s)
  case 0
  show ?case by (auto simp: monad_simps intro: exI [of _ "[]"])
next
  case (Suc n)
  let ?l = "[Proc (SysWaitpid (- pgid)), Proc (SysKillpg pgid SIGKILL)]"
  let ?s = "s\<lparr>trace := ?l @ trace s\<rparr>"
  obtain k where k: "snd (kill_group_loop n pf pgid ?s) = ?s\<lparr>trace := k @ trace ?s\<rparr>" "list_all quiet_call k"
    using Suc.IH by blast
  have "snd (kill_group_loop (Suc n) pf pgid s) \<in> (\<lambda>k. s\<lparr>trace := k @ trace s\<rparr>) ` {k @ ?l, ?l, [Proc (SysKillpg pgid SIGKILL)]}"
    using k(1) by (simp add: monad_simps split_beta)
  then obtain m where "m \<in> {k @ ?l, ?l, [Proc (SysKillpg pgid SIGKILL)]}"
    and "snd (kill_group_loop (Suc n) pf pgid s) = s\<lparr>trace := m @ trace s\<rparr>" by blast
  moreover from this(1) have "list_all quiet_call m" using k(2) by auto
  ultimately show ?case by blast
qed

lemma killProcessGroup_quiet:
  "\<exists>k. snd (killProcessGroup pf s) = s\<lparr>trace := k @ trace s\<rparr> \<and> list_all quiet_call k"
  using kill_group_loop_quiet [of "loop_bound pf" pf "jb_pgid (this s)" s]
  by (auto simp: killProcessGroup_def monad_simps intro: exI [of _ "[]"])

lemma killProcessGroup_trace: "\<exists>h. snd (killProcessGroup pf s) = s\<lparr>trace := h\<rparr>"
  using killProcessGroup_quiet by blast

text \<open>What a wait status records in the job.\<close>

definition record_status :: "int \<Rightarrow> job \<Rightarrow> job" where
  "record_status st j =
     (if WIFEXITED st then j\<lparr>jb_last_exit_status := WEXITSTATUS st, jb_pid := 0\<rparr>
      else j\<lparr>jb_last_exit_status := - 1, jb_term_signal := WTERMSIG st, jb_pid := 0\<rparr>)"

lemma reapChildProcess_spec:
  "case reapChildProcess pf st s of
     (Inr _, s') \<Rightarrow> (WIFEXITED st \<or> WIFSIGNALED st) \<and>
       (\<exists>h. s' = s\<lparr>this := record_status st (this s), trace := h\<rparr>)
   | (Inl (Throw e), s') \<Rightarrow> \<not> WIFEXITED st \<and> \<not> WIFSIGNALED st \<and> s' = s
   | (Inl e, s') \<Rightarrow> e = Hang"
proof -
  let ?s1 = "s\<lparr>this := record_status st (this s)\<rparr>"
  obtain r s2 where r: "killProcessGroup pf ?s1 = (r, s2)" by fastforce
  have e: "r = Inl x \<Longrightarrow> x = Hang" for x
  proof -
    have "fails_in {Hang} (kill_group_loop n pf pgid)" for n and pgid
      by (induction n) (simp_all, (intro fails_rules | simp)+)
    then have "fails_in {Hang} (killProcessGroup pf)"
      unfolding killProcessGroup_def getJ_def by (intro fails_rules)
    then show "r = Inl x \<Longrightarrow> x = Hang" using r fails_inD by fastforce
  qed
  obtain h where h: "s2 = ?s1\<lparr>trace := h\<rparr>"
    using killProcessGroup_trace [of pf ?s1] r by auto
  show ?thesis
    using r e h
    by (cases r) (auto simp: reapChildProcess_def monad_simps record_status_def
        intro!: exI [of _ h])
qed

text \<open>
  Reaping a child records its wait status, the exit code of a normal exit or the signal and
  - 1 for a death by signal, and forgets the process; a status that says neither is an exception
  that leaves the job as it was, and the only other way to fail is not to return from killing the
  process group.
\<close>

theorem reap_records_status:
  "case reapChildProcess pf st s of
     (Inr _, s') \<Rightarrow> (WIFEXITED st \<or> WIFSIGNALED st) \<and>
       (\<exists>h. s' = s\<lparr>this := record_status st (this s), trace := h\<rparr>)
   | (Inl (Throw e), s') \<Rightarrow> \<not> WIFEXITED st \<and> \<not> WIFSIGNALED st \<and> s' = s
   | (Inl e, s') \<Rightarrow> e = Hang"
  by (rule reapChildProcess_spec)

section \<open>The end of an unload\<close>

lemma unload_after_reap:
  assumes "get_job_state s = Running" and "jb_unload_requested (this s)"
    and "jb_started_at (this s) \<noteq> None" and "\<forall>h. 0 \<le> fst (sys_int pf h (Proc SysClock))"
  shows "\<exists>k. job_execute pf ProcessExited s = (Inr Fsm_Success, unloaded (s\<lparr>trace := k @ trace s\<rparr>)) \<and> list_all quiet_call k"
proof -
  obtain t0 where t0: "jb_started_at (this s) = Some t0" using assms(3) by blast
  define b where "b = (\<lambda>s :: job_ctx. fst (sys_int pf (trace s) (Proc SysClock)) - t0 < uint (throttle_interval (jb_manifest (this s))))"
  have thr: "shouldThrottle pf x = (Inr (b x), x\<lparr>trace := Proc SysClock # trace x\<rparr>)"
    if "this x = this s" for x
    using shouldThrottle_eq [of pf x t0] assms(4) t0 that by (simp add: b_def)
  define s1 where "s1 = (if keep_alive_always (jb_manifest (this s)) then s\<lparr>trace := Proc SysClock # trace s\<rparr> else s)"
  define s2 where "s2 = (if keep_alive_always (jb_manifest (this s)) then s1\<lparr>trace := Proc SysClock # trace s1\<rparr> else s1)"
  have k1: "guard_keep_alive pf False s = (Inr False, s1)"
    using assms(2) thr [of s] by (simp add: guard_keep_alive_def monad_simps s1_def)
  have t1: "this s1 = this s" by (simp add: s1_def)
  have k2: "guard_keep_alive pf True s1 = (Inr False, s2)"
    using assms(2) thr [of s1] t1 by (simp add: guard_keep_alive_def monad_simps s2_def)
  have t2: "this s2 = this s" by (simp add: s2_def t1)
  have "job_execute pf ProcessExited s = (Inr Fsm_Success, unloaded s2)"
    using assms(1,2) k1 k2 t2
    by (auto simp: execute_exited monad_simps guard_exited_def run_action_def submit_delete_eq
        unloaded_def)
  moreover let ?k = "if keep_alive_always (jb_manifest (this s)) then [Proc SysClock, Proc SysClock] else []"
  have "s2 = s\<lparr>trace := ?k @ trace s\<rparr>" by (simp add: s1_def s2_def)
  moreover have "list_all quiet_call ?k" by simp
  ultimately show ?thesis by metis
qed

text \<open>
  A process group that drains: \<open>members\<close> counts the processes a history has left in it, killing
  adds none, and every successful wait for a member takes one away.
\<close>

definition group_drains :: "platform \<Rightarrow> int \<Rightarrow> (syscall list \<Rightarrow> nat) \<Rightarrow> bool" where
  "group_drains pf pgid members \<longleftrightarrow>
     (\<forall>h. members (Proc (SysKillpg pgid SIGKILL) # h) \<le> members h) \<and>
     (\<forall>h. 0 < fst (sys_int pf h (Proc (SysWaitpid (- pgid)))) \<longrightarrow>
        members (Proc (SysWaitpid (- pgid)) # h) < members h)"

lemma kill_group_loop_returns:
  assumes "group_drains pf pgid members" and "members (trace s) < n"
  shows "\<exists>b. fst (kill_group_loop n pf pgid s) = Inr b"
  using assms(2)
proof (induction n arbitrary: s)
  case (Suc n)
  let ?h = "Proc (SysKillpg pgid SIGKILL) # trace s"
  let ?s = "s\<lparr>trace := Proc (SysWaitpid (- pgid)) # ?h\<rparr>"
  show ?case
  proof (cases "0 < fst (sys_int pf ?h (Proc (SysWaitpid (- pgid))))")
    case True
    have "members ?h \<le> members (trace s)"
      and "members (Proc (SysWaitpid (- pgid)) # ?h) < members ?h"
      using assms(1) True by (simp_all add: group_drains_def)
    then have "members (trace ?s) < n" using Suc.prems by simp
    from Suc.IH [OF this] show ?thesis by (auto simp: monad_simps split_beta)
  qed (auto simp: monad_simps split_beta)
qed simp

text \<open>The group of the job, where it has one it does not abandon, has fewer members than the bound.\<close>

definition own_group_drains :: "platform \<Rightarrow> ('a job_ctx_scheme) \<Rightarrow> bool" where
  "own_group_drains pf s \<longleftrightarrow>
     (0 \<le> jb_pgid (this s) \<and> \<not> abandon_process_group (jb_manifest (this s)) \<longrightarrow>
      (\<exists>members. group_drains pf (jb_pgid (this s)) members \<and> members (trace s) < loop_bound pf))"

lemma reapChildProcess_returns:
  assumes "WIFEXITED st \<or> WIFSIGNALED st" and "own_group_drains pf s"
  shows "\<exists>h. reapChildProcess pf st s = (Inr (), s\<lparr>this := record_status st (this s), trace := h\<rparr>)"
proof -
  let ?s1 = "s\<lparr>this := record_status st (this s)\<rparr>"
  have own: "killProcessGroup pf ?s1 =
      (if jb_pgid (this s) < 0 \<or> abandon_process_group (jb_manifest (this s)) then (Inr False, ?s1)
       else kill_group_loop (loop_bound pf) pf (jb_pgid (this s)) ?s1)"
    by (cases "jb_pgid (this s) < 0"; cases "abandon_process_group (jb_manifest (this s))")
      (simp_all add: killProcessGroup_def monad_simps record_status_def)
  obtain b where b: "fst (killProcessGroup pf ?s1) = Inr b"
  proof (cases "0 \<le> jb_pgid (this s) \<and> \<not> abandon_process_group (jb_manifest (this s))")
    case True
    then obtain members where "group_drains pf (jb_pgid (this s)) members"
      and "members (trace ?s1) < loop_bound pf"
      using assms(2) by (auto simp: own_group_drains_def)
    from kill_group_loop_returns [OF this] show thesis
      using that True own by auto
  next
    case False
    then have "fst (killProcessGroup pf ?s1) = Inr False" using own by auto
    then show thesis by (rule that)
  qed
  obtain h where "snd (killProcessGroup pf ?s1) = ?s1\<lparr>trace := h\<rparr>"
    using killProcessGroup_trace by blast
  then have "killProcessGroup pf ?s1 = (Inr b, ?s1\<lparr>trace := h\<rparr>)" using b by (simp add: prod_eq_iff)
  then show ?thesis
    using assms(1)
    by (auto simp: reapChildProcess_def monad_simps record_status_def intro!: exI [of _ h])
qed


text \<open>
  C31: killing a process group ends. The kernel is asked to wait for the members of the group until
  it has none left; a measure of the group that each successful wait decreases bounds the number
  of rounds.
\<close>

theorem kill_group_ends:
  assumes "\<And>h. members (Proc (SysKillpg pgid SIGKILL) # h) \<le> (members h :: nat)"
    and "\<And>h. 0 < fst (sys_int pf h (Proc (SysWaitpid (- pgid)))) \<Longrightarrow>
      members (Proc (SysWaitpid (- pgid)) # h) < members h"
    and "members (trace s) < n"
  shows "\<exists>b. fst (kill_group_loop n pf pgid s) = Inr b"
  by (rule kill_group_loop_returns [of pf pgid members])
    (use assms in \<open>simp_all add: group_drains_def\<close>)

section \<open>The environment of the child\<close>

text \<open>
  What a job's process finds in its environment does not depend on the daemon's own
  environment: the locale, time zone and display variables that are looked up are dropped. The
  variables of the manifest always come first, and root gets no others.
\<close>

theorem environment_ignores_daemon:
  "fst (setup_environment_variables (pf\<lparr>sys_getenv := f\<rparr>) pw s) = fst (setup_environment_variables pf pw s) \<and>
   (\<exists>session. fst (setup_environment_variables pf pw s) =
      Inr (map (\<lambda>(key, val). key @ ''='' @ val) (environment_variables (jb_manifest (this s))) @
        (if \<exists>p. pw = Some p \<and> pw_uid p \<le> 0 then [] else session)))"
proof -
  have f: "\<exists>v s'. foldM (\<lambda>v key. bindM (getenv p key) (\<lambda>envp.
         returnM (case envp of Some val \<Rightarrow> v @ [key @ ''='' @ val] | None \<Rightarrow> v))) v0 ks s = (Inr v, s')"
    for p v0 ks and s :: "'a job_ctx_scheme"
    by (induction ks arbitrary: v0 s) (auto simp: monad_simps getenv_def)
  have a: "fst (thenM (add_standard_environment_variables p e) (returnM x) s) = Inr x"
    for p e and x :: "string list" and s :: "'a job_ctx_scheme"
    using f [of p e standard_keys s]
    by (auto simp: add_standard_environment_variables_def monad_simps)
  show ?thesis
    by (cases pw) (simp_all add: setup_environment_variables_def bindM_apply getJ_apply returnM_apply
        Let_def a getuid_def callM_apply split_beta)
qed

section \<open>Concrete runs\<close>

definition daemon_manifest :: manifest where
  "daemon_manifest = default_manifest\<lparr>label := ''a'', user_name := Some ''u'', program := Some ''/p'',
     program_arguments := [''/p''], keep_alive_always := True\<rparr>"

definition init_ctx :: "job \<Rightarrow> job_ctx" where
  "init_ctx j = em_state.extend init_em (job_ctx.fields j 0)"

lemma init_ctx_simps [simp]:
  "this (init_ctx j) = j" "this_id (init_ctx j) = 0" "trace (init_ctx j) = []"
  "sf_current (init_ctx j) = default_state_doc" "pending_events (init_ctx j) = []"
  by (simp_all add: init_ctx_def init_em_def em_state.defs job_ctx.defs)

definition running_job :: job where
  "running_job = (mk_job None daemon_manifest)\<lparr>jb_state := Running, jb_pid := 77, jb_started_at := Some 5\<rparr>"

theorem keep_alive_restart_witness:
  "\<exists>n. job_execute (null_platform\<lparr>sys_int := (\<lambda>h c. (14 + int (length h), 0))\<rparr>) ProcessExited
     (init_ctx running_job) = (Inr Fsm_BlockedByGuard, after_clock n (init_ctx running_job))"
proof -
  let ?pf = "null_platform\<lparr>sys_int := (\<lambda>h c. (14 + int (length h), 0))\<rparr>"
  have "job_execute ?pf ProcessExited (init_ctx running_job) = (Inr Fsm_BlockedByGuard, after_clock 2 (init_ctx running_job))"
    using keep_alive_restart [of "init_ctx running_job" 5 ?pf]
    by (simp add: running_job_def mk_job_def get_job_state_def daemon_manifest_def
        default_manifest_def clock_at_def)
  then show ?thesis by blast
qed

theorem child_never_returns_witness:
  "fst (run_child null_platform (handleFork null_platform) \<lparr>ctx_gid = Some 1, ctx_uid = Some 2, ctx_environ = []\<rparr>
     (3, 4) (init_ctx running_job)) \<in> {Inl (Exit 127), Inl (Exec ''/p'' [''/p''] [])}"
  using child_never_returns [of "init_ctx running_job" "(3, 4)"
      "\<lparr>ctx_gid = Some 1, ctx_uid = Some 2, ctx_environ = []\<rparr>" null_platform]
  by (simp add: running_job_def mk_job_def daemon_manifest_def default_manifest_def manifest_ok_def
      label_ok_def)

definition user_platform :: platform where
  "user_platform = null_platform\<lparr>sys_passwd := (\<lambda>_ _. Some
     \<lparr>pw_name = ''u'', pw_uid = 1001, pw_gid = 50, pw_dir = ''/home/u'', pw_shell = ''/bin/sh''\<rparr>)\<rparr>"

lemma daemon_manifest_simps [simp]:
  "label daemon_manifest = ''a''" "user_name daemon_manifest = Some ''u''"
  "group_name daemon_manifest = None" "program daemon_manifest = Some ''/p''"
  "program_arguments daemon_manifest = [''/p'']" "umask daemon_manifest = None"
  "nice daemon_manifest = None" "working_directory daemon_manifest = None"
  "root_directory daemon_manifest = None" "init_groups daemon_manifest"
  "throttle_interval daemon_manifest = 10" "keep_alive_always daemon_manifest"
  "start_interval daemon_manifest = None" "disabled daemon_manifest = False"
  by (simp_all add: daemon_manifest_def default_manifest_def)

lemma running_job_simps [simp]:
  "jb_manifest running_job = daemon_manifest" "jb_state running_job = Running"
  "jb_pid running_job = 77" "jb_started_at running_job = Some 5" "jb_timer_id running_job = None"
  "jb_unload_requested running_job = False" "jb_pgid running_job = - 1"
  by (simp_all add: running_job_def mk_job_def)

lemma user_platform_simps [simp]:
  "sys_int user_platform h c = (0, 0)" "sys_pipe_fds user_platform h = (3, 4)"
  "have_setlogin user_platform = False" "sys_group user_platform h c = None"
  "sys_passwd user_platform h c = Some
     \<lparr>pw_name = ''u'', pw_uid = 1001, pw_gid = 50, pw_dir = ''/home/u'', pw_shell = ''/bin/sh''\<rparr>"
  by (simp_all add: user_platform_def null_platform_def)

lemma user_child:
  "\<exists>s'. child_steps user_platform daemon_manifest \<lparr>ctx_gid = Some g, ctx_uid = Some u, ctx_environ = e\<rparr> s =
     (Inl (Exec ''/p'' [''/p''] e), s')"
  by (simp add: child_steps_def or_fail_def or_fail_opt_def set_credentials_def Let_def
      opt_value_def redirect_def replace_fd_def exec_image_def monad_simps)

lemma user_fork:
  assumes "jb_manifest (this s) = daemon_manifest"
  shows "\<exists>s'. run_fork user_platform (handleFork user_platform)
     \<lparr>ctx_gid = Some g, ctx_uid = Some u, ctx_environ = e\<rparr> s = (Inl (Exec ''/p'' [''/p''] e), s')"
proof -
  have c: "fst (child_steps user_platform daemon_manifest
      \<lparr>ctx_gid = Some g, ctx_uid = Some u, ctx_environ = e\<rparr> s) = Inl (Exec ''/p'' [''/p''] e)" for s :: "'a job_ctx_scheme"
    using user_child [of g u e s] by auto
  show ?thesis
    using assms
    by (simp add: run_fork_def createPipe_def run_child_def becomeChild_def close_end_def
        handleFork_def unblockAllSignals_def start_child_process_def monad_simps split_beta c)
qed

lemma user_run:
  "\<exists>env s'. job_run user_platform (handleFork user_platform) (init_ctx running_job) =
     (Inl (Exec ''/p'' [''/p''] env), s')"
proof -
  let ?pw = "Some \<lparr>pw_name = ''u'', pw_uid = 1001, pw_gid = 50, pw_dir = ''/home/u'', pw_shell = ''/bin/sh''\<rparr>"
  obtain s0 where s0: "look_up_accounts user_platform daemon_manifest (init_ctx running_job) = (Inr (None, ?pw), s0)"
    and t0: "this s0 = running_job"
    by (simp add: look_up_accounts_def monad_simps)
  obtain r s1 where s1: "setup_environment_variables user_platform ?pw s0 = (r, s1)" by fastforce
  obtain env where r: "r = Inr env"
  proof (cases r)
    case (Inl e)
    then have "e \<in> {}" using s1 by (intro fails_inD [OF fails_in_setup_environment_variables]) simp
    then show thesis by simp
  qed (use that in blast)
  have "this s1 = this s0"
    by (rule this_kept [OF preserves_setup_environment_variables s1]) (rule sys_indep_this)
  then have "jb_manifest (this s1) = daemon_manifest" by (simp add: t0)
  from user_fork [OF this, of 1001 50 env] show ?thesis
    using s1 r by (auto simp: job_run_def monad_simps s0 run_ids_def)
qed

theorem run_swaps_credentials_witness:
  "\<exists>p a env s'. job_run user_platform (handleFork user_platform) (init_ctx running_job) =
     (Inl (Exec p a env), s') \<and> Child (SysSetgid 1001) \<in> set (trace s') \<and> Child (SysSetuid 50) \<in> set (trace s')"
proof -
  obtain p a env s' where r: "job_run user_platform (handleFork user_platform) (init_ctx running_job) =
      (Inl (Exec p a env), s')"
    using user_run by blast
  show ?thesis
    using run_swaps_credentials [OF r, of "''u''"] r by simp
qed

lemma no_override: "override_enabled (jlib null_platform) default_state_doc l = Inr None"
  by (simp add: override_enabled_def default_state_doc_def nl_json_def)

theorem unloadJob_spec_witness:
  "\<exists>s'. job_unloadJob null_platform False (init_ctx running_job) = (Inr True, s') \<and>
     trace s' = [Proc (SysKill 77 SIGTERM)]"
  using unloadJob_spec [of "init_ctx running_job" null_platform None False] no_override
  by (simp add: running_job_def mk_job_def daemon_manifest_def default_manifest_def get_job_state_def
      switched_off_def mark_unload_def)

theorem refused_unload_wedges_witness:
  "\<exists>s'. job_unloadJob null_platform False
       (init_ctx running_job\<lparr>sf_current := JObject [(''Overrides'', JObject [(''a'', JObject [(''Enabled'', JBool False)])])]\<rparr>) =
     (Inr False, s') \<and> job_unloadJob null_platform True s' = (Inr False, s')"
  using refused_unload_wedges [of "init_ctx running_job\<lparr>sf_current := JObject [(''Overrides'', JObject [(''a'', JObject [(''Enabled'', JBool False)])])]\<rparr>"
      null_platform "Some False" True]
  by (auto simp: running_job_def mk_job_def daemon_manifest_def default_manifest_def get_job_state_def
      override_enabled_def nl_json_def switched_off_def)

definition group_of_two :: platform where
  "group_of_two = null_platform\<lparr>sys_int := (\<lambda>h c. case c of
     Proc (SysWaitpid p) \<Rightarrow>
       if length (filter (\<lambda>c. c = Proc (SysWaitpid p)) h) < 2 then (100, 0) else (- 1, ECHILD)
   | _ \<Rightarrow> (0, 0))\<rparr>"

theorem kill_group_ends_witness:
  "\<exists>b. fst (kill_group_loop 3 group_of_two 9 init_os) = Inr b"
  by (rule kill_group_ends [of "\<lambda>h. 2 - length (filter (\<lambda>c. c = Proc (SysWaitpid (- 9))) h)"])
    (auto simp: group_of_two_def init_os_def split: if_splits)


section \<open>The manifest of a job never changes\<close>

lemma preserves_updJ_manifest:
  "(\<And>j. jb_manifest (f j) = jb_manifest j) \<Longrightarrow> preserves (\<lambda>s. P (jb_manifest (this s))) (updJ f)"
  by (simp add: preserves_def updJ_apply)

lemma preserves_startJob_manifest: "preserves (\<lambda>s. P (jb_manifest (this s))) (job_startJob pf)"
  using preserves_job_startJob [of "\<lambda>c. P (fst (snd c))" pf] by (simp add: core_def)

lemma preserves_cancel_manifest:
  "preserves (\<lambda>s. P (jb_manifest (this s))) (cancelTimer pf)"
  "preserves (\<lambda>s. P (jb_manifest (this s))) (cancel_if_set pf)"
  unfolding cancel_if_set_def cancelTimer_def
  by (rule preserves_job_basic preserves_updJ_manifest | (simp; fail))+

lemma preserves_timers_manifest:
  "preserves (\<lambda>s. P (jb_manifest (this s))) (startAfterThrottleInterval pf)"
  "preserves (\<lambda>s. P (jb_manifest (this s))) (schedulePeriodicJob pf)"
  unfolding startAfterThrottleInterval_def started_time_def schedulePeriodicJob_def
  by (rule preserves_job_basic preserves_updJ_manifest | (simp; fail))+

lemmas preserves_manifest_actions =
  preserves_startJob_manifest preserves_cancel_manifest preserves_timers_manifest
  preserves_submit_delete preserves_job_killJob preserves_thenM preserves_returnM

lemma preserves_execute_n_manifest:
  "preserves (\<lambda>s. P (jb_manifest (this s))) (job_execute_n n pf tr)"
proof (induction n arbitrary: tr)
  case (Suc n)
  show ?case
    unfolding job_execute_n.simps
  proof (rule preserves_execute)
    show "preserves (\<lambda>s. P (jb_manifest (this s))) g"
      if "t \<in> set (job_table pf (job_execute_n n pf))" "guard t = Some g" for t g
      using that unfolding job_table_def
      by (auto intro!: preserves_guards sys_indep_this)
    show "preserves (\<lambda>s. P (jb_manifest (this s))) a"
      if "t \<in> set (job_table pf (job_execute_n n pf))" "action t = Some a" for t a
      using that Suc.IH unfolding job_table_def
      by (auto intro!: preserves_manifest_actions em_indep_this sys_indep_this)
    show "P (jb_manifest (this s)) \<Longrightarrow> P (jb_manifest (this (put_job_state st s)))" for st s
      by (simp add: put_job_state_def)
  qed
qed (simp add: preserves_failM)

lemma preserves_job_manifest:
  "preserves (\<lambda>s. P (jb_manifest (this s))) (job_execute pf tr)"
  "preserves (\<lambda>s. P (jb_manifest (this s))) (job_unloadJob pf force)"
  "preserves (\<lambda>s. P (jb_manifest (this s))) (forceUnloadJob pf)"
  "preserves (\<lambda>s. P (jb_manifest (this s))) (on_process_exit pf st)"
  "preserves (\<lambda>s. P (jb_manifest (this s))) (on_throttle_timer pf)"
  "preserves (\<lambda>s. P (jb_manifest (this s))) (on_periodic_timer pf)"
  unfolding job_unloadJob_def forceUnloadJob_def on_process_exit_def on_throttle_timer_def
    on_periodic_timer_def job_execute_def reapChildProcess_def fsm_reset_def
  by (rule preserves_job_basic preserves_updJ_manifest preserves_execute_n_manifest
      preserves_cancel_manifest preserves_startJob_manifest preserves_isDisabled
      preserves_killProcessGroup preserves_modifyM
     | (simp add: put_job_state_def; fail))+

end
