(* ===== verification/ManagerInv.thy ===== *)
theory ManagerInv
  imports Daemon JobFacts
begin

text \<open>
  Predicates of the manager that its operations keep. What an operation changes of the manager's own
  fields goes through few places: loading a manifest, the transitions of the machine, the deletion
  of jobs, the channel and the pending result. The locales say so: a predicate of the fields that
  those places keep is kept by every request and every event.
\<close>

section \<open>What a call on a job leaves alone in the manager\<close>

text \<open>
  \<open>view\<close>: the fields of the manager, with each \<open>Job\<close> object reduced to its manifest.
\<close>

type_synonym mgr_view = "(nat \<rightharpoonup> manifest) \<times> nat \<times> (string \<times> nat) list \<times> (string \<times> nat option) list \<times>
    domain \<times> channel \<times> mgr_state \<times> manager_result"

definition view :: "mgr \<Rightarrow> mgr_view" where
  "view s = (map_option jb_manifest \<circ> heap s, next_id s, jobs s, pending_jobs s, mdomain s, chan s,
     mstate s, pending_result s)"

lemma em_more_view: "em_state.more s = em_state.more t \<Longrightarrow> view s = view t"
  by (cases s, cases t) (simp add: view_def)

lemma em_indep_view: "em_indep (\<lambda>s. P (view s))"
  unfolding em_indep_def by (metis em_more_view)

lemma sys_indep_view: "sys_indep (\<lambda>s. P (view s))"
  by (rule sys_indep_em) (rule em_indep_view)

definition job_in :: "mgr \<Rightarrow> nat \<Rightarrow> job \<Rightarrow> job_ctx" where
  "job_in s jid j = em_state.extend (em_state.truncate s) (job_ctx.fields j jid)"

definition job_out :: "mgr \<Rightarrow> nat \<Rightarrow> job_ctx \<Rightarrow> mgr" where
  "job_out s jid c = em_state.extend (em_state.truncate c)
     (em_state.more (s\<lparr>heap := (heap s)(jid \<mapsto> this c)\<rparr>))"

lemma with_job_apply:
  "with_job jid m s = (case heap s jid of
     None \<Rightarrow> (Inl (Undefined ''use of a destroyed Job''), s)
   | Some j \<Rightarrow> (case m (job_in s jid j) of (r, c) \<Rightarrow> (r, job_out s jid c)))"
  unfolding with_job_def job_in_def job_out_def by (rule refl)

lemma this_job_in [simp]: "this (job_in s jid j) = j" "this_id (job_in s jid j) = jid"
  by (simp_all add: job_in_def em_state.defs job_ctx.defs)

lemma job_out_fields [simp]:
  "heap (job_out s jid c) = (heap s)(jid \<mapsto> this c)" "next_id (job_out s jid c) = next_id s"
  "jobs (job_out s jid c) = jobs s" "pending_jobs (job_out s jid c) = pending_jobs s"
  "mdomain (job_out s jid c) = mdomain s" "chan (job_out s jid c) = chan s"
  "mstate (job_out s jid c) = mstate s" "pending_result (job_out s jid c) = pending_result s"
  by (cases s, simp add: job_out_def em_state.defs)+

lemma job_out_in: "heap s i = Some j \<Longrightarrow> job_out s i (job_in s i j) = s"
  by (cases s) (auto simp: job_in_def job_out_def em_state.defs job_ctx.defs fun_upd_idem)

lemma preserves_with_job:
  assumes "\<And>x. preserves (\<lambda>s. jb_manifest (this s) = x) m"
  shows "preserves (\<lambda>s. P (view s)) (with_job jid m)"
proof (unfold preserves_def, intro allI impI)
  fix s assume p: "P (view s)"
  show "P (view (snd (with_job jid m s)))"
  proof (cases "heap s jid")
    case None
    then show ?thesis using p by (simp add: with_job_apply)
  next
    case (Some j)
    obtain r c where m: "m (job_in s jid j) = (r, c)" by fastforce
    have "jb_manifest (this c) = jb_manifest j"
      using preservesE [OF assms m] by simp
    then have "view (job_out s jid c) = view s"
      using Some by (auto simp: view_def fun_eq_iff)
    then show ?thesis using p Some m by (simp add: with_job_apply)
  qed
qed

section \<open>Operations that leave the fields of the manager alone\<close>

lemma preserves_lift_abrupt: "preserves I (lift_abrupt r)"
  by (simp add: lift_abrupt_def preserves_failM preserves_returnM split: sum.split)

lemma preserves_sf_setValue_sys: "sys_indep I \<Longrightarrow> preserves I (sf_setValue pf j)"
  unfolding sf_setValue_def sf_write_tmp_def write_file_def sf_commit_def on_file_def fs_remove_def
  by (assumption | rule preserves_sys_modify preserves_em_basic | simp add: em_tables_def queued_calls_def)+

lemma preserves_addSignal: "em_indep I \<Longrightarrow> preserves I (addSignal pf n c)"
  unfolding addSignal_def monitorSignal_def by (assumption | rule preserves_em_basic | simp)+

lemma preserves_addSocketRead: "em_indep I \<Longrightarrow> preserves I (addSocketRead pf fd c)"
  unfolding addSocketRead_def monitorSocketRead_def
  by (assumption | rule preserves_em_basic | simp)+

lemmas preserves_view_basic =
  preserves_lift_abrupt preserves_sf_setValue_sys preserves_addSignal preserves_addSocketRead
  preserves_Let preserves_prod2 preserves_em_ops preserves_em_basic em_indep_view

lemma preserves_overrideJobEnabled: "preserves (\<lambda>s. P (view s)) (overrideJobEnabled pf l b)"
  unfolding overrideJobEnabled_def sf_getValue_def by (rule preserves_view_basic)+

lemma preserves_reads:
  "preserves I (jobExists pf l)" "preserves I (getJob pf l)"
  unfolding jobExists_def getJob_def by (rule preserves_view_basic)+

lemma preserves_with_jobs:
  "preserves (\<lambda>s. P (view s)) (with_job jid (job_execute pf tr))"
  "preserves (\<lambda>s. P (view s)) (with_job jid (job_unloadJob pf force))"
  "preserves (\<lambda>s. P (view s)) (with_job jid (forceUnloadJob pf))"
  "preserves (\<lambda>s. P (view s)) (with_job jid (on_process_exit pf st))"
  "preserves (\<lambda>s. P (view s)) (with_job jid (on_throttle_timer pf))"
  "preserves (\<lambda>s. P (view s)) (with_job jid (on_periodic_timer pf))"
  "preserves (\<lambda>s. P (view s)) (with_job jid (job_killJob pf sig))"
  "preserves (\<lambda>s. P (view s)) (with_job jid (getJ f))"
  by (rule preserves_with_job, rule preserves_job_manifest preserves_getJ preserves_job_killJob,
      (rule em_indep_this sys_indep_this)?)+

lemmas preserves_view_ops =
  preserves_overrideJobEnabled preserves_reads preserves_with_jobs preserves_view_basic

lemma preserves_view_unload:
  "preserves (\<lambda>s. P (view s)) (unloadJob_label pf l od fu)"
  "preserves (\<lambda>s. P (view s)) (unloadJob_path pf p od fu)"
  "preserves (\<lambda>s. P (view s)) (unloadAllJobs pf)"
  "preserves (\<lambda>s. P (view s)) (mgr_killJob pf l sig)"
  "preserves (\<lambda>s. P (view s)) (listJobs pf)"
  unfolding unloadJob_label_def unloadJob_path_def unloadJob_ref_def unloadAllJobs_def unload_one_def
    mgr_killJob_def listJobs_def parse_path_def parse_xml_def
  by (rule preserves_view_ops)+

lemma preserves_channel:
  "sys_indep I \<Longrightarrow> preserves I (bindAndListen pf ch p b)"
  "sys_indep I \<Longrightarrow> preserves I (getSockFD ch)"
  "sys_indep I \<Longrightarrow> preserves I (unbindAndStopListening pf ch)"
  "sys_indep I \<Longrightarrow> preserves I (ch_accept pf ch)"
  "sys_indep I \<Longrightarrow> preserves I (ch_disconnect pf ch)"
  "sys_indep I \<Longrightarrow> preserves I (readMessage pf ch)"
  "sys_indep I \<Longrightarrow> preserves I (writeMessage pf ch j)"
  unfolding bindAndListen_def ch_listen_def getSockFD_def unbindAndStopListening_def ch_accept_def
    ch_disconnect_def readMessage_def writeMessage_def ch_sd_def Let_def
  by (assumption | rule preserves_em_basic preserves_prod2)+

lemma preserves_args:
  "preserves I (args_1 pf args)" "preserves I (arg_key pf args k)" "preserves I (arg_string pf args k)"
  "preserves I (arg_bool pf args k)" "preserves I (arg_label pf args)"
  unfolding arg_label_def arg_string_def arg_bool_def arg_key_def args_1_def
  by (auto intro!: preserves_rules split: sum.split exn.split)

lemma preserves_fs:
  "sys_indep I \<Longrightarrow> preserves I (fs_test pf c)" "sys_indep I \<Longrightarrow> preserves I (directory_iterator pf p)"
  unfolding fs_test_def directory_iterator_def
  by (assumption | rule preserves_em_basic preserves_prod2 preserves_Let)+

lemma preserves_addPendingEvent: "em_indep I \<Longrightarrow> preserves I (addPendingEvent e)"
  unfolding addPendingEvent_def by (rule preserves_em_modify) simp_all

lemma preserves_getPendingEvent: "em_indep I \<Longrightarrow> preserves I getPendingEvent"
  unfolding getPendingEvent_def
  by (intro preserves_bindM preserves_getsM)
    (auto split: list.split intro!: preserves_thenM preserves_returnM preserves_em_modify)

lemma preserves_epoll:
  "em_indep I \<Longrightarrow> preserves I (wait_loop n pf t)"
proof (induction n)
  case (Suc n)
  have s: "preserves I (read_signals k pf b)" for k b
    by (induction k arbitrary: b)
      (simp_all, (assumption | rule preserves_em_basic preserves_prod2 preserves_addPendingEvent Suc.prems | (simp; fail))+)
  have r: "preserves I (reap_children k pf)" for k
    by (induction k)
      (simp_all, (assumption | rule preserves_em_basic preserves_prod2 preserves_addPendingEvent Suc.prems | (simp; fail))+)
  have g: "preserves I (epollGetOne pf fd t)" for fd
    unfolding epollGetOne_def Let_def by (rule preserves_em_basic preserves_prod2 Suc.prems)+
  have w: "preserves I (wait_switch pf t k)" for k
    unfolding wait_switch_def wait_timer_def getSignalEvents_def
    by (auto intro!: preserves_rules s r g preserves_sys_sysM preserves_sys_callM sys_indep_em preserves_em_modify
        preserves_sys_error Suc.prems split: list.split simp: Let_def)
      (rule em_indepD [OF Suc.prems], assumption, simp)+
  show ?case
    unfolding wait_loop.simps
    by (rule preserves_em_basic g w Suc.IH Suc.prems)+
qed (simp add: preserves_failM)

lemma preserves_wait: "em_indep I \<Longrightarrow> preserves I (epoll_waitForEvent pf t)"
  unfolding epoll_waitForEvent_def
  by (assumption | rule preserves_em_basic preserves_getPendingEvent preserves_epoll)+

lemma carries_dispatch_event:
  assumes "em_indep I" and "\<And>c e. carries J (run c e) I" and "\<And>s. J s \<Longrightarrow> I s"
  shows "carries J (dispatch_event run e) I"
proof -
  have "carries J (callback_of m k) I" for m :: "'k \<rightharpoonup> closure" and k
    by (rule carries_weaken [OF preserves_callback_of assms(3)])
  then show ?thesis
    by (cases e)
      (auto intro!: carries_bindM preserves_getsM preserves_callback_of carries_then preserves_deleteProcess assms)
qed

lemma handleEvent_apply:
  "handleEvent c pf t s = thenM
     (case mstate s of
        Unconfigured \<Rightarrow> throwM (LogicError ''unsupported state'')
      | MgrRunning \<Rightarrow> em_waitForEvent pf (run_closure c pf) t
      | GracefulShutdown \<Rightarrow>
          bindM (getsM jobs) (\<lambda>js.
          if js = [] then thenM (mgr_execute c pf AllJobsExited) (returnM ())
          else em_waitForEvent pf (run_closure c pf) (Some 500))
      | Finished \<Rightarrow> returnM ())
     (getsM (\<lambda>s. mstate s \<noteq> Finished)) s"
  by (simp add: handleEvent_def bindM_apply getsM_apply)

section \<open>Predicates kept by loading, by requests and by events\<close>

text \<open>
  \<open>load_keeps\<close> and \<open>request_keeps\<close> speak of any predicate of the daemon that system calls cannot
  falsify; the locales after them of predicates of the manager's fields, for which most of what the
  first two ask for is known.
\<close>

locale load_keeps =
  fixes I :: "mgr \<Rightarrow> bool"
    and pf :: platform
  assumes sys: "sys_indep I"
    and load_json: "preserves I (loadManifest_json pf j path od fl)"
begin

lemma load_manifest: "preserves I (loadManifest pf path od fl)"
  unfolding loadManifest_def parse_path_def parse_xml_def by (rule sys load_json preserves_view_basic)+

lemma load_all: "preserves I (loadAllManifests pf path od fl)"
  unfolding loadAllManifests_def try_load_def
  by (rule sys preserves_fs load_manifest preserves_view_basic)+

lemma load_default: "preserves I (loadDefaultManifests c pf)"
  unfolding loadDefaultManifests_def by (rule sys load_all preserves_view_basic)+

lemma override: "preserves I (overrideJobEnabled pf l b)"
  unfolding overrideJobEnabled_def sf_getValue_def by (rule sys preserves_view_basic)+

end

text \<open>
  A request runs while the manager runs or shuts down, and moves its machine by the start trigger
  only. \<open>call_keeps\<close> is what its method does, \<open>request_keeps\<close> the connection around it.
\<close>

locale call_keeps = load_keeps I pf for I :: "mgr \<Rightarrow> bool" and pf +
  fixes c :: build_config
  assumes start_more: "preserves I (mgr_execute c pf MgrStartRequested)"
    and unload: "preserves I (unloadJob_label pf l od fu)"
    and kill: "preserves I (mgr_killJob pf l sig)"
    and list: "preserves I (listJobs pf)"
begin

lemma start: "preserves I (startRunning c pf)"
  unfolding startRunning_def by (rule preserves_thenM start_more preserves_returnM)+

lemma unload_path: "preserves I (unloadJob_path pf p od fu)"
  unfolding unloadJob_path_def parse_path_def parse_xml_def by (rule sys unload preserves_view_basic)+

lemma unload_files: "preserves I (unload_files pf od fu e fs)"
  by (induction fs) (simp_all, (assumption | rule unload_path preserves_view_basic)+)

lemma unload_paths: "preserves I (unload_paths pf od fu e js)"
  by (induction js arbitrary: e)
    (simp_all, (assumption | rule sys unload_files preserves_fs unload_path preserves_view_basic)+)

lemma handler:
  assumes "map_of (handlers c pf) method = Some f"
  shows "preserves I (f msg)"
proof -
  have "f \<in> snd ` set (handlers c pf)" using assms by (force dest: map_of_SomeD)
  moreover have "preserves I (rpc_op_disable pf msg)"
    "preserves I (rpc_op_enable pf msg)" "preserves I (rpc_op_kill pf msg)"
    "preserves I (rpc_op_list pf msg)" "preserves I (rpc_op_load c pf msg)"
    "preserves I (rpc_op_remove pf msg)" "preserves I (rpc_op_submit c pf msg)"
    "preserves I (rpc_op_unload pf msg)" "preserves I (rpc_op_version c)"
    unfolding rpc_op_disable_def rpc_op_enable_def rpc_op_kill_def rpc_op_list_def rpc_op_load_def
      rpc_op_remove_def rpc_op_submit_def rpc_op_unload_def rpc_op_version_def
    by (rule start load_json load_all override unload kill list unload_paths preserves_args preserves_view_basic)+
  ultimately show ?thesis by (auto simp: handlers_def)
qed

lemma call: "preserves I (rpc_call c pf msg)"
  unfolding rpc_call_def by (assumption | rule handler preserves_view_basic)+

end

locale request_keeps = call_keeps I pf c for I :: "mgr \<Rightarrow> bool" and pf c +
  assumes channel: "I s \<Longrightarrow> I (s\<lparr>chan := ch\<rparr>)"
begin

lemma dispatch: "preserves I (rpc_dispatch c pf)"
proof -
  have set: "preserves I (modifyM (\<lambda>s. s\<lparr>chan := ch\<rparr>))" for ch
    by (simp add: preserves_def modifyM_def channel)
  show ?thesis
    unfolding rpc_dispatch_def by (rule set sys call preserves_channel preserves_view_basic)+
qed

end

locale load_invariant =
  fixes I :: "mgr_view \<Rightarrow> bool"
    and pf :: platform
  assumes load_view: "preserves (\<lambda>s. I (view s)) (loadManifest_json pf j path od fl)"

sublocale load_invariant \<subseteq> load_keeps "\<lambda>s. I (view s)" pf
  by unfold_locales (rule sys_indep_view load_view)+

locale request_invariant = load_invariant J pf for J :: "mgr_view \<Rightarrow> bool" and pf +
  fixes c :: build_config
  assumes start_more_view: "preserves (\<lambda>s. J (view s)) (mgr_execute c pf MgrStartRequested)"
    and channel_view: "J (view s) \<Longrightarrow> J (view (s\<lparr>chan := ch\<rparr>))"

sublocale request_invariant \<subseteq> request_keeps "\<lambda>s. J (view s)" pf c
  by unfold_locales (rule start_more_view preserves_view_unload | erule channel_view)+

text \<open>
  An event is handled in \<open>J\<close> and ends in \<open>I\<close>, which holds of every state of the daemon and is \<open>J\<close>
  again while the manager runs or shuts down.
\<close>

locale daemon_invariant = request_invariant J pf c for J :: "mgr_view \<Rightarrow> bool" and pf c +
  fixes I :: "mgr_view \<Rightarrow> bool"
  assumes live: "J v \<Longrightarrow> I v"
    and alive: "I (view s) \<Longrightarrow> mstate s \<in> {MgrRunning, GracefulShutdown} \<Longrightarrow> J (view s)"
    and exec: "preserves (\<lambda>s. I (view s)) (mgr_execute c pf tr)"
    and force: "preserves (\<lambda>s. J (view s)) (forceUnloadAllJobs pf)"
    and delete: "preserves (\<lambda>s. J (view s)) (on_delete_job l)"
    and result: "J (view s) \<Longrightarrow> J (view (s\<lparr>pending_result := r\<rparr>))"
begin

abbreviation (input) JJ where "JJ \<equiv> \<lambda>s. J (view s)"
abbreviation (input) II where "II \<equiv> \<lambda>s. I (view s)"

lemma weaken: "preserves JJ m \<Longrightarrow> carries JJ m II"
  by (rule carries_weaken) (auto intro: live)

lemma exec_live: "carries JJ (mgr_execute c pf tr) II"
  using exec by (auto simp: carries_def preserves_def intro: live)

lemma triggered: "carries JJ (thenM (mgr_execute c pf tr) (returnM ())) II"
  by (rule carries_then [OF exec_live]) (rule preserves_returnM)

lemma shutdown: "carries JJ (handleShutdownSignal c pf) II"
  unfolding handleShutdownSignal_def
  by (rule carries_bindM [OF preserves_getsM])
    (auto split: mgr_state.split intro!: triggered carries_thenM [OF force] carries_returnM intro: live)

lemma closure: "carries JJ (run_closure c pf cl e) II"
proof -
  have "preserves JJ (modifyM (\<lambda>s. s\<lparr>pending_result := r\<rparr>))" for r
    by (simp add: preserves_def modifyM_def result)
  then have "carries JJ (on_shutdown_signal c pf r) II" for r
    unfolding on_shutdown_signal_def by (rule carries_thenM [OF _ shutdown]) (rule live)
  moreover have "carries JJ (returnM ()) II" by (rule weaken [OF preserves_returnM])
  ultimately show ?thesis
    by (cases cl; cases e) (auto intro: weaken dispatch delete preserves_with_jobs)
qed

lemma wait: "carries JJ (em_waitForEvent pf (run_closure c pf) t) II"
  unfolding em_waitForEvent_def
  by (rule carries_bindM [OF preserves_wait])
    (auto intro!: carries_returnM carries_dispatch_event closure em_indep_view split: option.split intro: live)

lemma event: "preserves II (handleEvent c pf t)"
proof (unfold preserves_def, intro allI impI)
  fix s assume i: "II s"
  have g: "II (snd (m s)) \<Longrightarrow> II (snd (thenM m (getsM f) s))" for m :: "(mgr, unit) M" and f :: "mgr \<Rightarrow> bool"
    by (auto simp: monad_simps split: prod.split sum.split)
  have w: "mstate s \<in> {MgrRunning, GracefulShutdown} \<Longrightarrow> II (snd (em_waitForEvent pf (run_closure c pf) t s))" for t
    using carriesD [OF wait] alive [OF i] by blast
  have x: "II (snd (thenM (mgr_execute c pf AllJobsExited) (returnM ()) s))"
    by (rule preservesD [OF preserves_thenM [OF exec preserves_returnM] i])
  show "II (snd (handleEvent c pf t s))"
    unfolding handleEvent_apply
    by (rule g) (use i w x in \<open>cases "mstate s"; simp add: throwM_apply returnM_apply bindM_apply getsM_apply\<close>)
qed

lemma start_running: "preserves II (startRunning c pf)"
  and stop_running: "preserves II (stopRunning c pf)"
  unfolding startRunning_def stopRunning_def by (rule preserves_thenM exec preserves_returnM)+

end

end
