(* ===== verification/Ownership.thy ===== *)
theory Ownership
  imports ManagerInv "HOL-Library.Multiset"
begin

text \<open>
  The manager owns its \<open>Job\<close> objects through \<open>unique_ptr\<close>s in two maps. Every state the daemon can
  reach gives each object exactly one owner.
\<close>

section \<open>Ownership of the job objects\<close>

text \<open>
  Every \<open>Job\<close> object has exactly one owner, an entry of \<open>jobs\<close> or of \<open>pending_jobs\<close> under the
  label of its manifest; labels are not shared, and nothing is leaked or dangling.
\<close>

primrec pend_owned :: "(string \<times> nat option) list \<Rightarrow> (string \<times> nat) list" where
  "pend_owned [] = []"
| "pend_owned (p # ps) =
     (case snd p of None \<Rightarrow> pend_owned ps | Some i \<Rightarrow> (fst p, i) # pend_owned ps)"

definition own_ok :: "(nat \<rightharpoonup> manifest) \<Rightarrow> nat \<Rightarrow> (string \<times> nat) list \<Rightarrow> bool" where
  "own_ok h n xs \<longleftrightarrow> distinct (map fst xs) \<and> distinct (map snd xs) \<and>
     (\<forall>x \<in> set xs. \<exists>m. h (snd x) = Some m \<and> label m = fst x) \<and>
     dom h = snd ` set xs \<and> (\<forall>i \<in> dom h. i < n)"

fun ok_view :: "mgr_view \<Rightarrow> bool" where
  "ok_view (h, n, js, ps, _) \<longleftrightarrow> distinct (map fst ps) \<and> own_ok h n (js @ pend_owned ps)"

definition mgr_ok :: "mgr \<Rightarrow> bool" where
  "mgr_ok s = ok_view (view s)"

lemma own_ok_perm:
  assumes "mset xs = mset ys"
  shows "own_ok h n xs = own_ok h n ys"
proof -
  have "mset (map fst xs) = mset (map fst ys)" "mset (map snd xs) = mset (map snd ys)"
    using assms by simp_all
  then have "distinct (map fst xs) = distinct (map fst ys)" "distinct (map snd xs) = distinct (map snd ys)"
    by (metis mset_eq_imp_distinct_iff)+
  moreover have "set xs = set ys" using assms by (rule mset_eq_setD)
  ultimately show ?thesis by (simp add: own_ok_def)
qed

lemma pend_owned_sub: "(l, i) \<in> set (pend_owned ps) \<Longrightarrow> (l, Some i) \<in> set ps"
  by (induction ps) (auto split: option.splits)

lemma pend_owned_move:
  "distinct (map fst ps) \<Longrightarrow> (l, Some i) \<in> set ps \<Longrightarrow>
   mset (pend_owned ps) = add_mset (l, i) (mset (pend_owned (AList.update l None ps)))"
  by (induction ps) (auto split: option.splits simp: image_iff)

lemma pend_owned_append: "pend_owned (ps @ qs) = pend_owned ps @ pend_owned qs"
  by (induction ps) (auto split: option.split)

lemma own_ok_add:
  assumes "own_ok h n xs" and "label m \<notin> fst ` set xs"
  shows "own_ok (h(n \<mapsto> m)) (n + 1) ((label m, n) # xs)"
proof -
  have "n \<notin> dom h" using assms(1) by (auto simp: own_ok_def)
  then have "n \<notin> snd ` set xs" using assms(1) by (auto simp: own_ok_def)
  moreover have "\<forall>i \<in> dom h. i < n + 1" using assms(1) by (auto simp: own_ok_def less_Suc_eq)
  ultimately show ?thesis using assms by (simp add: own_ok_def) (metis image_eqI)
qed

lemma own_ok_remove:
  assumes "own_ok h n xs" and "\<And>x. x \<in> set ys \<longleftrightarrow> x \<in> set xs \<and> snd x \<notin> D" and "distinct (map fst ys)"
    and "distinct (map snd ys)"
  shows "own_ok (h |` (- D)) n ys"
proof -
  have "dom h = snd ` set xs" and m: "\<forall>x \<in> set xs. \<exists>m. h (snd x) = Some m \<and> label m = fst x"
    and "\<forall>i \<in> dom h. i < n" using assms(1) by (simp_all add: own_ok_def)
  moreover have "snd ` set ys = snd ` set xs - D" using assms(2) by auto
  moreover have "\<forall>x \<in> set ys. \<exists>m. (h |` (- D)) (snd x) = Some m \<and> label m = fst x"
    using assms(2) m by simp
  ultimately show ?thesis using assms(3,4) by (simp add: own_ok_def dom_restrict) blast
qed

section \<open>Loading keeps the ownership\<close>

definition fresh_view :: "string \<Rightarrow> mgr_view \<Rightarrow> bool" where
  "fresh_view l v \<longleftrightarrow> ok_view v \<and> (case v of (h, n, js, ps, _) \<Rightarrow>
     map_of js l = None \<and> map_of ps l = None)"

lemma pend_owned_fst: "fst ` set (pend_owned ps) \<subseteq> fst ` set ps"
  by (induction ps) (auto split: option.splits)

lemma new_job_ok: "fresh_view (label m) (view s) \<Longrightarrow> ok_view (view (snd (new_job path m s)))"
proof -
  assume f: "fresh_view (label m) (view s)"
  let ?h = "map_option jb_manifest \<circ> heap s"
  let ?xs = "jobs s @ pend_owned (pending_jobs s)"
  have ok: "distinct (map fst (pending_jobs s))" "own_ok ?h (next_id s) ?xs"
    and fr: "map_of (jobs s) (label m) = None" "map_of (pending_jobs s) (label m) = None"
    using f by (simp_all add: fresh_view_def view_def)
  have "label m \<notin> fst ` set ?xs"
    using fr pend_owned_fst [of "pending_jobs s"] by (auto simp: map_of_eq_None_iff)
  then have "own_ok (?h(next_id s \<mapsto> m)) (next_id s + 1) ((label m, next_id s) # ?xs)"
    using ok(2) by (intro own_ok_add)
  then have "own_ok (?h(next_id s \<mapsto> m)) (next_id s + 1)
      (jobs s @ pend_owned (pending_jobs s @ [(label m, Some (next_id s))]))"
    by (rule own_ok_perm [THEN iffD1, rotated]) (simp add: pend_owned_append)
  moreover have "map_option jb_manifest \<circ> (heap s)(next_id s \<mapsto> mk_job (Some path) m) = ?h(next_id s \<mapsto> m)"
    by (auto simp: fun_eq_iff mk_job_def)
  ultimately show ?thesis
    using ok(1) fr
    by (simp add: new_job_def modifyM_def view_def alist_insert_fresh map_of_eq_None_iff)
qed

lemma load_fresh_ok: "carries (\<lambda>s. fresh_view (label m) (view s)) (load_fresh pf m path od fl) mgr_ok"
proof -
  have w: "fresh_view (label m) (view s) \<Longrightarrow> mgr_ok s" for s
    by (simp add: fresh_view_def mgr_ok_def)
  have n: "carries (\<lambda>s. fresh_view (label m) (view s)) (thenM (new_job path m) (returnM True)) mgr_ok"
    using new_job_ok by (simp add: carries_def thenM_def bindM_def new_job_def modifyM_def returnM_def mgr_ok_def)
  have r: "preserves (\<lambda>s. fresh_view (label m) (view s)) (returnM False :: (mgr, bool) M)"
    by (rule preserves_returnM)
  show ?thesis
    unfolding load_fresh_def sf_getValue_def
    by (intro carries_thenM carries_bindM carries_if n w carries_weaken [OF r]) (assumption | rule preserves_view_ops)+
qed

lemma load_checked_ok: "preserves mgr_ok (load_checked pf m path od fl)"
proof (unfold preserves_def, intro allI impI)
  fix s assume ok: "mgr_ok s"
  have "fresh_view (label m) (view s)" if "map_of (jobs s) (label m) = None" "map_of (pending_jobs s) (label m) = None"
    using ok that by (simp add: fresh_view_def mgr_ok_def view_def)
  then show "mgr_ok (snd (load_checked pf m path od fl s))"
    using ok carriesD [OF load_fresh_ok]
    by (auto simp: load_checked_def jobExists_def lift_abrupt_def label_string_def monad_simps
        split: sum.splits)
qed

lemma preserves_okI: "(\<And>P. preserves (\<lambda>s. P (view s)) m) \<Longrightarrow> preserves mgr_ok m"
  unfolding mgr_ok_def .

lemma em_indep_ok: "em_indep mgr_ok"
  unfolding mgr_ok_def by (rule em_indep_view)

lemma mgr_ok_fun: "(\<lambda>s. ok_view (view s)) = mgr_ok"
  by (simp add: fun_eq_iff mgr_ok_def)

interpretation ok_load: load_invariant ok_view pf for pf
  by unfold_locales
    (auto simp: mgr_ok_fun loadManifest_json_def intro!: preserves_rules load_checked_ok split: sum.split abrupt.split)

section \<open>Starting and destroying jobs keeps the ownership\<close>

lemma in_update_other:
  "(k', v) \<in> set ps \<Longrightarrow> k' \<noteq> k \<Longrightarrow> (k', v) \<in> set (AList.update k w ps)"
  by (induction ps) auto

text \<open>The state of the loop over \<open>pending_jobs\<close>: what remains to be visited is still pending.\<close>

definition loop_view :: "(string \<times> nat option) list \<Rightarrow> mgr_view \<Rightarrow> bool" where
  "loop_view rs v \<longleftrightarrow> ok_view v \<and> (case v of (h, n, js, ps, _) \<Rightarrow> set rs \<subseteq> set ps)"

lemma move_pending_ok:
  assumes "loop_view ((l, Some jid) # rs) (view s)" and "l \<notin> fst ` set rs"
  shows "loop_view rs (view (s\<lparr>jobs := jobs s @ [(l, jid)],
    pending_jobs := AList.update l None (pending_jobs s)\<rparr>))"
proof -
  have d: "distinct (map fst (pending_jobs s))" and m: "(l, Some jid) \<in> set (pending_jobs s)"
    and r: "set rs \<subseteq> set (pending_jobs s)"
    and o: "own_ok (map_option jb_manifest \<circ> heap s) (next_id s) (jobs s @ pend_owned (pending_jobs s))"
    using assms(1) by (simp_all add: loop_view_def view_def)
  have "own_ok (map_option jb_manifest \<circ> heap s) (next_id s)
      ((jobs s @ [(l, jid)]) @ pend_owned (AList.update l None (pending_jobs s)))"
    using o by (rule own_ok_perm [THEN iffD1, rotated]) (simp add: pend_owned_move [OF d m])
  moreover have "set rs \<subseteq> set (AList.update l None (pending_jobs s))"
  proof
    fix x assume x: "x \<in> set rs"
    then have "fst x \<noteq> l" "(fst x, snd x) \<in> set (pending_jobs s)" using r assms(2) by auto
    then show "x \<in> set (AList.update l None (pending_jobs s))"
      using in_update_other by (metis prod.collapse)
  qed
  ultimately show ?thesis
    using d by (simp add: loop_view_def view_def distinct_update)
qed

lemma start_pending_ok:
  assumes "l \<notin> fst ` set rs"
  shows "carries (\<lambda>s. loop_view ((l, o') # rs) (view s)) (start_pending pf (l, o'))
    (\<lambda>s. loop_view rs (view s))"
proof -
  have w: "loop_view ((l, o') # rs) (view s) \<Longrightarrow> loop_view rs (view s)" for s
    by (auto simp: loop_view_def)
  show ?thesis
  proof (cases o')
    case None
    then show ?thesis
      unfolding start_pending_def using w
      by (auto intro!: carries_weaken intro: preserves_rules)
  next
    case (Some jid)
    have "carries (\<lambda>s. loop_view ((l, o') # rs) (view s))
        (thenM (modifyM (\<lambda>s. s\<lparr>jobs := jobs s @ [(l, jid)],
           pending_jobs := AList.update l None (pending_jobs s)\<rparr>))
        (thenM (with_job jid (job_execute pf Bootstrap)) (returnM ()))) (\<lambda>s. loop_view rs (view s))"
      using move_pending_ok [of l jid rs] assms Some
        preservesD [OF preserves_with_jobs(1) [of "loop_view rs" jid pf Bootstrap]]
      by (auto simp: carries_def monad_simps split: prod.splits sum.splits) (metis snd_conv)+
    moreover have "carries (\<lambda>s. loop_view ((l, o') # rs) (view s)) (c_assert pf False ''false'')
        (\<lambda>s. loop_view rs (view s))"
      by (rule carries_weaken [OF preserves_c_assert w])
    ultimately show ?thesis
      unfolding start_pending_def Some prod.case option.case
      by (intro carries_bindM preserves_getsM carries_if w) (simp_all add: Some)
  qed
qed

lemma start_loop_ok:
  "distinct (map fst rs) \<Longrightarrow> carries (\<lambda>s. loop_view rs (view s)) (forM rs (start_pending pf)) mgr_ok"
proof (induction rs)
  case Nil
  then show ?case by (auto simp: carries_def returnM_def loop_view_def mgr_ok_def)
next
  case (Cons p rs)
  obtain l o' where p: "p = (l, o')" by fastforce
  have a: "carries (\<lambda>s. loop_view (p # rs) (view s)) (start_pending pf p) (\<lambda>s. loop_view rs (view s))"
    using start_pending_ok [of l rs o' pf] Cons.prems p by simp
  have b: "carries (\<lambda>s. loop_view rs (view s)) (forM rs (start_pending pf)) mgr_ok"
    using Cons by simp
  have c: "loop_view rs (view s) \<Longrightarrow> mgr_ok s" for s by (simp add: loop_view_def mgr_ok_def)
  show ?case
    using a b c unfolding carries_def forM.simps thenM_apply
    by (auto split: prod.split sum.split)
qed

lemma destroy_pending:
  "forM ps (\<lambda>(l, jobp). case jobp of Some jid \<Rightarrow> destroy_job jid | None \<Rightarrow> returnM ()) s =
     (Inr (), s\<lparr>heap := heap s |` (- snd ` set (pend_owned ps))\<rparr>)"
proof (induction ps arbitrary: s)
  case (Cons p ps)
  then show ?case
    by (cases p) (auto simp: monad_simps destroy_job_def restrict_map_def fun_eq_iff split: option.split
        intro!: arg_cong [where f = "\<lambda>h. s\<lparr>heap := h\<rparr>"])
qed (simp add: monad_simps restrict_map_def)

lemma destroy_jobs:
  "forM js (\<lambda>(l, jid). destroy_job jid) s = (Inr (), s\<lparr>heap := heap s |` (- snd ` set js)\<rparr>)"
proof (induction js arbitrary: s)
  case (Cons p js)
  then show ?case
    by (cases p) (auto simp: monad_simps destroy_job_def restrict_map_def fun_eq_iff
        intro!: arg_cong [where f = "\<lambda>h. s\<lparr>heap := h\<rparr>"])
qed (simp add: monad_simps restrict_map_def)

lemma map_option_restrict: "map_option f \<circ> (h |` A) = (map_option f \<circ> h) |` A"
  by (auto simp: fun_eq_iff restrict_map_def)

lemma clear_pending_ok: "preserves mgr_ok clear_pending"
proof (unfold preserves_def, intro allI impI)
  fix s assume "mgr_ok s"
  then have o: "own_ok (map_option jb_manifest \<circ> heap s) (next_id s) (jobs s @ pend_owned (pending_jobs s))"
    by (simp add: mgr_ok_def view_def)
  have "own_ok ((map_option jb_manifest \<circ> heap s) |` (- snd ` set (pend_owned (pending_jobs s)))) (next_id s) (jobs s)"
    using o by (rule own_ok_remove) (use o in \<open>auto simp: own_ok_def\<close>)
  then show "mgr_ok (snd (clear_pending s))"
    by (simp add: clear_pending_def monad_simps destroy_pending mgr_ok_def view_def map_option_restrict)
qed

lemma startAllJobs_ok: "preserves mgr_ok (startAllJobs pf)"
proof (unfold preserves_def, intro allI impI)
  fix s assume ok: "mgr_ok s"
  then have d: "distinct (map fst (pending_jobs s))" and l: "loop_view (pending_jobs s) (view s)"
    by (simp_all add: mgr_ok_def view_def loop_view_def)
  have "mgr_ok (snd (forM (pending_jobs s) (start_pending pf) s))"
    using carriesD [OF start_loop_ok [OF d] l] .
  then show "mgr_ok (snd (startAllJobs pf s))"
    using preservesD [OF clear_pending_ok]
    by (auto simp: startAllJobs_def monad_simps split: prod.split sum.split)
qed

lemma forceUnloadAllJobs_ok: "preserves mgr_ok (forceUnloadAllJobs pf)"
proof (unfold forceUnloadAllJobs_def, rule preserves_noexceptM, unfold preserves_def, intro allI impI)
  fix s assume ok: "mgr_ok s"
  let ?f = "\<lambda>(l, jid). with_job jid (forceUnloadJob pf)"
  have f: "preserves (\<lambda>s. P (view s)) (forM (jobs s) ?f)" for P
    by (rule preserves_view_ops)+
  obtain r s1 where r: "forM (jobs s) ?f s = (r, s1)" by fastforce
  have v: "view s1 = view s" using preservesE [OF f [of "\<lambda>v. v = view s"] r] by simp
  then have j: "jobs s1 = jobs s" by (simp add: view_def)
  have o: "own_ok (map_option jb_manifest \<circ> heap s1) (next_id s1) (jobs s @ pend_owned (pending_jobs s1))"
    and d: "distinct (map fst (pending_jobs s1))"
    using ok v j by (simp_all add: mgr_ok_def view_def)
  have "own_ok ((map_option jb_manifest \<circ> heap s1) |` (- snd ` set (jobs s))) (next_id s1) (pend_owned (pending_jobs s1))"
    using o by (rule own_ok_remove) (use o in \<open>auto simp: own_ok_def\<close>)
  then show "mgr_ok (snd (bindM (getsM jobs) (\<lambda>js. thenM (forM js ?f)
      (thenM (forM js (\<lambda>(l, jid). destroy_job jid)) (modifyM (\<lambda>s. s\<lparr>jobs := []\<rparr>)))) s))"
    using r d ok v by (auto simp: monad_simps destroy_jobs mgr_ok_def view_def map_option_restrict
        split: sum.split)
qed

lemma on_delete_job_ok: "preserves mgr_ok (on_delete_job l)"
proof (unfold preserves_def, intro allI impI)
  fix s assume ok: "mgr_ok s"
  show "mgr_ok (snd (on_delete_job l s))"
  proof (cases "map_of (jobs s) l")
    case None
    then show ?thesis using ok by (simp add: on_delete_job_def monad_simps)
  next
    case (Some jid)
    let ?xs = "jobs s @ pend_owned (pending_jobs s)"
    let ?ys = "AList.delete l (jobs s) @ pend_owned (pending_jobs s)"
    have o: "own_ok (map_option jb_manifest \<circ> heap s) (next_id s) ?xs"
      using ok by (simp add: mgr_ok_def view_def)
    have d: "distinct (map fst ?xs)" "distinct (map snd ?xs)" using o by (simp_all add: own_ok_def)
    have i: "(l, jid) \<in> set ?xs" using Some by (auto dest: map_of_SomeD)
    have np: "l \<notin> fst ` set (pend_owned (pending_jobs s))"
      using d(1) map_of_SomeD [OF Some] by (auto simp: disjoint_iff image_iff) (metis fst_conv)
    have "x \<in> set ?ys \<longleftrightarrow> x \<in> set ?xs \<and> snd x \<notin> {jid}" for x
    proof -
      have "x \<in> set ?ys \<longleftrightarrow> x \<in> set ?xs \<and> fst x \<noteq> l"
        using np by (cases x) (auto simp: AList.delete_eq image_iff)
      moreover have "x \<in> set ?xs \<Longrightarrow> fst x = l \<longleftrightarrow> snd x = jid"
        using d i by (metis (no_types, lifting) eq_key_imp_eq_value inj_on_def distinct_map prod.collapse snd_conv fst_conv)
      ultimately show ?thesis by auto
    qed
    moreover have "distinct (map fst ?ys)" "distinct (map snd ?ys)"
      using d by (auto simp: AList.delete_eq distinct_map_filter)
    ultimately have "own_ok ((map_option jb_manifest \<circ> heap s) |` (- {jid})) (next_id s) ?ys"
      using o by (intro own_ok_remove)
    moreover have "(map_option jb_manifest \<circ> (heap s)(jid := None)) = (map_option jb_manifest \<circ> heap s) |` (- {jid})"
      by (auto simp: fun_eq_iff restrict_map_def)
    ultimately show ?thesis
      using ok Some by (simp add: on_delete_job_def monad_simps destroy_job_def mgr_ok_def view_def)
  qed
qed

section \<open>The daemon keeps the ownership\<close>

lemma preserves_ok_fields:
  "preserves mgr_ok (modifyM (\<lambda>s. s\<lparr>chan := ch\<rparr>))"
  "preserves mgr_ok (modifyM (\<lambda>s. s\<lparr>pending_result := r\<rparr>))"
  by (simp_all add: preserves_def modifyM_def mgr_ok_def view_def)

lemma preserves_mgr_actions:
  "preserves mgr_ok (setupSignalHandlers pf)"
  "preserves mgr_ok (startRpcServer pf)"
  "preserves mgr_ok (close_listener pf)"
  unfolding setupSignalHandlers_def startRpcServer_def close_listener_def
  by (rule preserves_ok_fields preserves_channel em_indep_ok preserves_addSignal preserves_addSocketRead
      preserves_prod2 preserves_em_basic)+

lemma mgr_execute_ok: "preserves mgr_ok (mgr_execute c pf tr)"
  unfolding mgr_execute_def
proof (rule preserves_execute)
  show "preserves mgr_ok g" if "t \<in> set (mgr_table c pf)" "guard t = Some g" for t g
    using that unfolding mgr_table_def by (auto intro: preserves_rules)
  show "preserves mgr_ok a" if "t \<in> set (mgr_table c pf)" "action t = Some a" for t a
    using that unfolding mgr_table_def
    by (auto intro!: preserves_mgr_actions preserves_thenM preserves_returnM ok_load.load_default [unfolded mgr_ok_fun]
        startAllJobs_ok preserves_okI [OF preserves_view_unload(3)])
  show "mgr_ok s \<Longrightarrow> mgr_ok (put_mgr_state st s)" for st s
    by (simp add: put_mgr_state_def mgr_ok_def view_def)
qed

interpretation ok_daemon: daemon_invariant ok_view pf c ok_view for pf c
proof unfold_locales
  show "preserves (\<lambda>s. ok_view (view s)) (mgr_execute c pf MgrStartRequested)"
    unfolding mgr_ok_fun by (rule mgr_execute_ok)
  show "preserves (\<lambda>s. ok_view (view s)) (mgr_execute c pf tr)" for tr
    unfolding mgr_ok_fun by (rule mgr_execute_ok)
  show "preserves (\<lambda>s. ok_view (view s)) (forceUnloadAllJobs pf)"
    unfolding mgr_ok_fun by (rule forceUnloadAllJobs_ok)
  show "preserves (\<lambda>s. ok_view (view s)) (on_delete_job l)" for l
    unfolding mgr_ok_fun by (rule on_delete_job_ok)
qed (simp_all add: view_def)

lemmas daemon_ok = ok_daemon.start_running [unfolded mgr_ok_fun] ok_daemon.stop_running [unfolded mgr_ok_fun]
  ok_daemon.event [unfolded mgr_ok_fun]

section \<open>Reachable states\<close>

text \<open>
  What the program can do with a manager: construct it for a domain, start and stop it, handle
  events, each step ending in whatever way it ends.
\<close>

inductive reachable :: "build_config \<Rightarrow> platform \<Rightarrow> domain \<Rightarrow> mgr \<Rightarrow> bool" for c pf d where
  constructed: "reachable c pf d (snd (mk_manager pf d s))"
| started: "reachable c pf d s \<Longrightarrow> reachable c pf d (snd (startRunning c pf s))"
| stopped: "reachable c pf d s \<Longrightarrow> reachable c pf d (snd (stopRunning c pf s))"
| event_handled: "reachable c pf d s \<Longrightarrow> reachable c pf d (snd (handleEvent c pf t s))"

lemma mk_manager_keeps:
  assumes em: "em_indep I" and "\<And>s ch. I s \<Longrightarrow> I (s\<lparr>chan := ch\<rparr>)"
    and "I (s\<lparr>heap := Map.empty, next_id := 0, jobs := [], pending_jobs := [],
      mdomain := d, mstate := Unconfigured, pending_result := ResExit\<rparr>)"
  shows "I (snd (mk_manager pf d s))"
proof -
  have "preserves I (epollCreate pf)" "\<And>fd e. preserves I (epollAdd pf fd e)"
    "\<And>n. preserves I (monitorSignal pf n)" "\<And>fd. preserves I (add_cleanup fd)"
    "preserves I (mk_channel pf)" "preserves I (sf_open pf p j)" "preserves I (getuid pf)" for p j
    unfolding epollCreate_def epollAdd_def monitorSignal_def add_cleanup_def mk_channel_def
      sf_open_def sf_clear_def write_file_def getuid_def
    by ((rule preserves_em_basic preserves_prod2 em | (simp; fail))+)
  note ops = this
  have ch: "preserves I (modifyM (\<lambda>s. s\<lparr>chan := ch\<rparr>))" for ch
    by (simp add: preserves_def modifyM_def assms(2))
  have "preserves I (thenM (mk_event_manager pf) (bindM (mk_channel pf) (\<lambda>ch.
     thenM (modifyM (\<lambda>s. s\<lparr>chan := ch\<rparr>))
    (thenM (createOrOpenStatefile pf d) (addIpcMethod ''delete_job'' OnDeleteJob)))))"
    unfolding mk_event_manager_def mk_epoll_def init_epoll_def createOrOpenStatefile_def addIpcMethod_def
    by (rule ops ch preserves_fs preserves_em_basic em | (simp; fail))+
  then show ?thesis
    using assms(3) by (simp add: mk_manager_def thenM_apply [of "modifyM _"] modifyM_apply preservesD)
qed

lemma mk_manager_ok: "mgr_ok (snd (mk_manager pf d s))"
  by (rule mk_manager_keeps [OF em_indep_ok]) (simp_all add: mgr_ok_def view_def own_ok_def)

text \<open>
  C1: in every state the daemon can reach, each job object has exactly one owner, under the label
  of its manifest, no two jobs share a label or an object, and no object is dangling or leaked.
\<close>

theorem reachable_ownership:
  assumes "reachable c pf d s"
  shows "mgr_ok s"
  using assms
  by induction (auto intro: mk_manager_ok daemon_ok [THEN preservesD])

definition blank_mgr :: mgr where
  "blank_mgr = em_state.extend init_em (mgr.fields Map.empty 0 [] []
     \<lparr>dtype = System, statedir = ''/s''\<rparr> \<lparr>ch_path = [], ch_sockfd = 5, ch_peerfd = - 1\<rparr> Unconfigured ResExit)"

end
