(* ===== verification/DaemonFacts.thy ===== *)
theory DaemonFacts
  imports Ownership
begin

text \<open>
  Properties of the manager and the daemon: the diagram of the manager's machine, loading and
  unloading, shutdown, and the RPC server.
\<close>

section \<open>The state of the manager and its connection\<close>

text \<open>What no call on jobs changes: the domain, the channel, the state of the machine, the result.\<close>

fun frame :: "mgr_view \<Rightarrow> domain \<times> channel \<times> mgr_state \<times> manager_result" where
  "frame (h, n, js, ps, d, ch, st, r) = (d, ch, st, r)"

lemma frame_view: "frame (view s) = (mdomain s, chan s, mstate s, pending_result s)"
  by (simp add: view_def)

lemma preserves_frame_modify:
  "(\<And>s. frame (view (f s)) = frame (view s)) \<Longrightarrow> preserves (\<lambda>s. P (frame (view s))) (modifyM f)"
  by (simp add: preserves_def modifyM_def)

lemmas preserves_frame_basic =
  preserves_frame_modify preserves_fs preserves_view_unload preserves_view_ops

lemma load_json_frame: "preserves (\<lambda>s. P (frame (view s))) (loadManifest_json pf j path od fl)"
proof -
  have n: "preserves (\<lambda>s. P (frame (view s))) (load_checked pf m path od fl)" for m
    unfolding load_checked_def load_fresh_def sf_getValue_def new_job_def
    by (rule preserves_frame_basic | (simp add: frame_view; fail))+
  show ?thesis
    unfolding loadManifest_json_def
    by (auto intro!: preserves_rules n split: sum.split abrupt.split)
qed

interpretation frame_load: load_invariant "\<lambda>v. P (frame v)" pf for P pf
  by unfold_locales (rule load_json_frame)

lemma preserves_frame_jobs:
  "preserves (\<lambda>s. P (frame (view s))) (startAllJobs pf)"
  "preserves (\<lambda>s. P (frame (view s))) (forceUnloadAllJobs pf)"
  "preserves (\<lambda>s. P (frame (view s))) (on_delete_job l)"
  unfolding startAllJobs_def start_pending_def clear_pending_def forceUnloadAllJobs_def
    on_delete_job_def destroy_job_def
  by (rule preserves_frame_basic | (simp add: frame_view; fail))+

text \<open>\<open>kv\<close>: the state of the manager's machine and the descriptor of the connected client.\<close>

definition kv_of :: "domain \<times> channel \<times> mgr_state \<times> manager_result \<Rightarrow> mgr_state \<times> int" where
  "kv_of = (\<lambda>(d, ch, st, r). (st, ch_peerfd ch))"

definition kv :: "mgr_view \<Rightarrow> mgr_state \<times> int" where
  "kv v = kv_of (frame v)"

lemma kv_view: "kv (view s) = (mstate s, ch_peerfd (chan s))"
  by (simp add: kv_def kv_of_def frame_view)

lemmas preserves_kv_basic = preserves_fs preserves_view_unload preserves_view_ops

lemma load_json_kv: "preserves (\<lambda>s. P (kv (view s))) (loadManifest_json pf j path od fl)"
  unfolding kv_def by (rule load_json_frame)

interpretation kv_load: load_invariant "\<lambda>v. P (kv v)" pf for P pf
  by unfold_locales (rule load_json_kv)

lemma preserves_kv_jobs:
  "preserves (\<lambda>s. P (kv (view s))) (startAllJobs pf)"
  "preserves (\<lambda>s. P (kv (view s))) (forceUnloadAllJobs pf)"
  "preserves (\<lambda>s. P (kv (view s))) (on_delete_job l)"
  unfolding kv_def by (rule preserves_frame_jobs)+

lemma bindAndListen_peer:
  "bindAndListen pf ch p b s = (Inr ch', s') \<Longrightarrow> ch_peerfd ch' = ch_peerfd ch"
  by (auto simp: bindAndListen_def ch_listen_def monad_simps Let_def split: prod.splits if_splits)

lemma unbind_peer: "unbindAndStopListening pf ch s = (Inr ch', s') \<Longrightarrow> ch_peerfd ch' = ch_peerfd ch"
  by (auto simp: unbindAndStopListening_def monad_simps split: if_splits)

lemma set_chan_kv:
  assumes "m s = (r, s1)" and "\<And>Q. preserves (\<lambda>s. Q (kv (view s))) m"
    and "\<And>ch'. r = Inr ch' \<Longrightarrow> ch_peerfd ch' = ch_peerfd (chan s)"
    and "\<And>ch. preserves (\<lambda>s. P (kv (view s))) (f ch)" and "P (kv (view s))"
  shows "P (kv (view (snd (bindM m (\<lambda>ch. thenM (modifyM (\<lambda>s. s\<lparr>chan := ch\<rparr>)) (f ch)) s))))"
proof -
  have k: "kv (view s1) = kv (view s)"
    using preservesE [OF assms(2) [of "\<lambda>v. v = kv (view s)"] assms(1)] by simp
  show ?thesis
  proof (cases r)
    case (Inr ch)
    then have "P (kv (view (s1\<lparr>chan := ch\<rparr>)))"
      using assms(3,5) k by (simp add: kv_view)
    then show ?thesis
      using preservesD [OF assms(4)] assms(1) Inr by (simp add: monad_simps)
  qed (use assms(1,5) k in \<open>simp add: monad_simps\<close>)
qed

lemma preserves_kv_chan:
  "preserves (\<lambda>s. P (kv (view s))) (startRpcServer pf)"
  "preserves (\<lambda>s. P (kv (view s))) (close_listener pf)"
proof -
  have rest: "preserves (\<lambda>s. P (kv (view s)))
      (bindM (getSockFD ch) (\<lambda>fd. addSocketRead pf fd OnRpcReadable))" for ch
    by (rule preserves_channel preserves_kv_basic)+
  have "P (kv (view (snd (startRpcServer pf s))))" if "P (kv (view s))" for s
  proof -
    obtain r s1 where r: "bindAndListen pf (chan s) (path_append (statedir (mdomain s)) ''rpc.sock'') 1024 s = (r, s1)"
      by fastforce
    show ?thesis
      unfolding startRpcServer_def bindM_apply [of "getsM _"] getsM_apply prod.case sum.case
    proof (rule set_chan_kv [where P = P and s = s and r = r and ?s1.0 = s1
          and m = "bindAndListen pf (chan s) (path_append (statedir (mdomain s)) ''rpc.sock'') 1024"])
      show "preserves (\<lambda>s. Q (kv (view s)))
          (bindAndListen pf (chan s) (path_append (statedir (mdomain s)) ''rpc.sock'') 1024)" for Q
        by (rule preserves_channel) (rule sys_indep_view)
      show "ch_peerfd ch' = ch_peerfd (chan s)" if "r = Inr ch'" for ch'
        using bindAndListen_peer r that by blast
    qed (rule r rest that)+
  qed
  then show "preserves (\<lambda>s. P (kv (view s))) (startRpcServer pf)" by (simp add: preserves_def)
  have "P (kv (view (snd (close_listener pf s))))" if "P (kv (view s))" for s
  proof -
    obtain r s1 where r: "unbindAndStopListening pf (chan s) s = (r, s1)" by fastforce
    have k: "kv (view s1) = kv (view s)"
      using preservesE [OF preserves_channel(3) [OF sys_indep_view [of "\<lambda>v. kv v = kv (view s)"]] r] by simp
    have "r = Inr ch' \<Longrightarrow> ch_peerfd ch' = ch_peerfd (chan s)" for ch'
      using unbind_peer r by blast
    then show ?thesis
      using that r k by (cases r) (auto simp: close_listener_def monad_simps kv_view)
  qed
  then show "preserves (\<lambda>s. P (kv (view s))) (close_listener pf)" by (simp add: preserves_def)
qed

lemma mgr_action_kv:
  assumes "t \<in> set (mgr_table c pf)" and "action t = Some a"
  shows "preserves (\<lambda>s. P (kv (view s))) a"
proof -
  have "preserves (\<lambda>s. P (kv (view s))) (setupSignalHandlers pf)"
    unfolding setupSignalHandlers_def by (rule preserves_kv_basic)+
  then show ?thesis
    using assms unfolding mgr_table_def
    by (auto intro!: preserves_kv_chan preserves_thenM preserves_returnM kv_load.load_default
        preserves_kv_jobs preserves_view_unload)
qed

section \<open>The state diagram of the manager\<close>

inductive mgr_edge :: "mgr_state \<Rightarrow> mgr_trigger \<Rightarrow> mgr_state \<Rightarrow> bool" where
  never_started: "mgr_edge Unconfigured MgrStopRequested Finished"
| start_up: "mgr_edge Unconfigured MgrStartRequested MgrRunning"
| start_more: "mgr_edge MgrRunning MgrStartRequested MgrRunning"
| shut_down: "mgr_edge MgrRunning MgrStopRequested GracefulShutdown"
| give_up: "mgr_edge GracefulShutdown MgrStopRequested Finished"
| all_exited: "mgr_edge GracefulShutdown AllJobsExited Finished"

code_pred mgr_edge .

inductive_cases mgr_edge_FinishedE: "mgr_edge Finished tr st"

fun rank :: "mgr_state \<Rightarrow> nat" where
  "rank Unconfigured = 0"
| "rank MgrRunning = 1"
| "rank GracefulShutdown = 2"
| "rank Finished = 3"

text \<open>The states in the order the manager goes through them.\<close>

instantiation mgr_state :: linorder
begin

definition less_eq_mgr_state :: "mgr_state \<Rightarrow> mgr_state \<Rightarrow> bool" where
  "less_eq_mgr_state st st' \<longleftrightarrow> rank st \<le> rank st'"

definition less_mgr_state :: "mgr_state \<Rightarrow> mgr_state \<Rightarrow> bool" where
  "less_mgr_state st st' \<longleftrightarrow> rank st < rank st'"

instance
proof
  show "x \<le> y \<Longrightarrow> y \<le> x \<Longrightarrow> x = y" for x y :: mgr_state
    by (cases x; cases y) (simp_all add: less_eq_mgr_state_def)
qed (auto simp: less_eq_mgr_state_def less_mgr_state_def)

end

lemmas mgr_order = less_eq_mgr_state_def less_mgr_state_def

lemma mgr_edge_rank: "mgr_edge st tr st' \<Longrightarrow> rank st \<le> rank st'"
  by (induction rule: mgr_edge.induct) auto

lemma mgr_table_edge:
  "t \<in> set (mgr_table c pf) \<Longrightarrow> mgr_edge (from_state t) (trigger t) (to_state t)"
  by (auto simp: mgr_table_def intro: mgr_edge.intros)

lemma mgr_candidate_edge:
  "t \<in> set (candidates (mgr_table c pf) st tr) \<Longrightarrow> mgr_edge st tr (to_state t)"
  using mgr_table_edge [of t c pf] by (auto simp: candidates_def)

interpretation mgr_fsm: fsm_owner mstate put_mgr_state "Some (\<lambda>_ _ _. returnM ())"
  "mgr_table c pf" for c pf
  by unfold_locales
    (auto simp: put_mgr_state_def returnM_def mgr_table_def quiet_def getsM_def)

lemma mgr_action_state:
  "t \<in> set (mgr_table c pf) \<Longrightarrow> action t = Some a \<Longrightarrow> a s = (r, s') \<Longrightarrow> mstate s' = mstate s"
  using preservesE [OF mgr_action_kv [where P = "\<lambda>p. fst p = mstate s"], of t c pf a s r s']
  by (simp add: kv_view)

lemma mgr_execute_cases:
  "case mgr_execute c pf tr s of
     (Inr Fsm_Success, s') \<Rightarrow> mgr_edge (mstate s) tr (mstate s')
   | (Inr Fsm_NoMatchingTrigger, s') \<Rightarrow> s' = s
   | (Inr Fsm_BlockedByGuard, s') \<Rightarrow> mstate s' = mstate s
   | (Inl e, s') \<Rightarrow> mstate s' = mstate s"
proof -
  obtain r s' where ex: "mgr_execute c pf tr s = (r, s')" by fastforce
  note out = mgr_fsm.execute_outcome [where c = c and pf = pf and trig = tr and s = s,
      folded mgr_execute_def]
  show ?thesis
  proof (cases r)
    case (Inl e)
    have "mstate s' = mstate s"
    proof (rule mgr_fsm.execute_error)
      show "mstate s' = mstate s" if "t \<in> set (mgr_table c pf)" "action t = Some a" "a s = (Inl e, s')"
        for t a s e s' using that by (rule mgr_action_state)
      show "execute mstate put_mgr_state (Some (\<lambda>_ _ _. returnM ()))
          (add_transitions Map.empty (mgr_table c pf)) tr s = (Inl e, s')"
        using ex Inl by (simp add: mgr_execute_def)
    qed
    then show ?thesis using ex Inl by simp
  next
    case (Inr st)
    then show ?thesis
      using out ex by (cases st) (auto dest: mgr_candidate_edge)
  qed
qed

text \<open>
  C5: the manager's machine moves only along its diagram: it is configured, runs, shuts down and
  finishes, and never goes back; a failing action leaves it in its state.
\<close>

theorem mgr_execute_edges:
  "case mgr_execute c pf tr s of
     (Inr Fsm_Success, s') \<Rightarrow> mgr_edge (mstate s) tr (mstate s')
   | (Inr Fsm_NoMatchingTrigger, s') \<Rightarrow> s' = s
   | (Inr Fsm_BlockedByGuard, s') \<Rightarrow> mstate s' = mstate s
   | (Inl e, s') \<Rightarrow> mstate s' = mstate s"
  by (rule mgr_execute_cases)

lemma mgr_execute_rank: "preserves (\<lambda>s. k \<le> rank (fst (kv (view s)))) (mgr_execute c pf tr)"
proof (unfold preserves_def, intro allI impI)
  fix s assume k: "k \<le> rank (fst (kv (view s)))"
  show "k \<le> rank (fst (kv (view (snd (mgr_execute c pf tr s)))))"
    using k mgr_execute_cases [where c = c and pf = pf and tr = tr and s = s] mgr_edge_rank [of "mstate s" tr]
    by (fastforce simp: kv_view split: prod.splits sum.splits fsm_status.splits)
qed

interpretation rank_daemon: daemon_invariant "\<lambda>v. k \<le> rank (fst (kv v))" pf c "\<lambda>v. k \<le> rank (fst (kv v))" for k pf c
proof unfold_locales
  show "preserves (\<lambda>s. k \<le> rank (fst (kv (view s)))) (mgr_execute c pf MgrStartRequested)"
    by (rule mgr_execute_rank)
  show "preserves (\<lambda>s. k \<le> rank (fst (kv (view s)))) (mgr_execute c pf tr)" for tr
    by (rule mgr_execute_rank)
qed (assumption | rule load_json_kv preserves_kv_jobs [where P = "\<lambda>p. k \<le> rank (fst p)"] | (simp add: kv_view; fail))+

text \<open>
  C7: an event never takes the manager back: a daemon that is shutting down or has finished stays
  so whatever clients ask, signals arrive and processes do.
\<close>

theorem handleEvent_forward:
  "rank (mstate s) \<le> rank (mstate (snd (handleEvent c pf t s)))"
  using preservesD [OF rank_daemon.event [where k = "rank (mstate s)"], of s]
  by (simp add: kv_view)

text \<open>
  C20: a connection is served to its end: the dispatch of a request lets no exception of a method,
  of the parser or of the socket escape, and closes the connection whatever the outcome.
\<close>

theorem rpc_dispatch_disconnects:
  assumes "ch_peerfd (chan s) < 0"
  shows "case rpc_dispatch c pf s of
      (Inr _, s') \<Rightarrow> ch_peerfd (chan s') < 0
    | (Inl e, s') \<Rightarrow> e \<notin> range Throw"
proof -
  let ?body = "bindM (getsM chan) (\<lambda>ch. bindM (readMessage pf ch) (\<lambda>msg.
      bindM (rpc_call c pf msg) (\<lambda>response. bindM (getsM chan) (\<lambda>ch. writeMessage pf ch response))))"
  obtain ch s1 where a: "ch_accept pf (chan s) s = (Inr ch, s1)"
    using assms by (simp add: ch_accept_def monad_simps split_beta)
  let ?s2 = "s1\<lparr>chan := ch\<rparr>"
  obtain r s3 where b: "catchM ?body (\<lambda>_. returnM ()) ?s2 = (r, s3)" by fastforce
  have nt: "r \<noteq> Inl (Throw e)" for e
    using b by (auto simp: catchM_def returnM_def split: prod.splits sum.splits abrupt.splits)
  show ?thesis
    using a b nt
    by (cases r) (auto simp: rpc_dispatch_def ch_disconnect_def monad_simps)
qed

text \<open>A manager that has started keeps its channel while it serves a request.\<close>

definition at_frame :: "domain \<times> channel \<times> mgr_state \<times> manager_result \<Rightarrow> mgr \<Rightarrow> bool" where
  "at_frame x s \<longleftrightarrow> frame (view s) = x \<and> mstate s \<noteq> Unconfigured"

lemma at_frame_eq: "at_frame x = (\<lambda>s. (\<lambda>v. frame v = x \<and> fst (kv v) \<noteq> Unconfigured) (view s))"
  by (rule ext) (simp add: at_frame_def kv_view)

lemma start_more_frame: "preserves (at_frame x) (mgr_execute c pf MgrStartRequested)"
proof (unfold preserves_def, intro allI impI)
  fix s assume s: "at_frame x s"
  obtain r s1 where a: "startAllJobs pf s = (r, s1)" by fastforce
  have f: "frame (view s1) = x"
    using preservesE [OF preserves_frame_jobs(1) [of "\<lambda>y. y = x"] a] s by (simp add: at_frame_def)
  have st: "mstate s1 = mstate s" using f s by (auto simp: at_frame_def frame_view)
  have "put_mgr_state (mstate s1) s1 = s1" by (cases s1) (simp add: put_mgr_state_def)
  then show "at_frame x (snd (mgr_execute c pf MgrStartRequested s))"
    using s a f st unfolding mgr_execute_def execute_candidates
    by (cases "mstate s"; cases r) (auto simp: at_frame_def candidates_def mgr_table_def monad_simps)
qed

interpretation frame_calls: call_keeps "at_frame x" pf c for x pf c
proof unfold_locales
  show "sys_indep (at_frame x)" unfolding at_frame_eq by (rule sys_indep_view)
  show "preserves (at_frame x) (loadManifest_json pf j path od fl)" for j path od fl
    using load_json_frame [of "\<lambda>(d, ch, st, r). (d, ch, st, r) = x \<and> st \<noteq> Unconfigured"]
    by (simp add: at_frame_def [abs_def] frame_view)
qed (rule start_more_frame
    | unfold at_frame_eq | rule preserves_view_unload [where P = "\<lambda>v. frame v = x \<and> fst (kv v) \<noteq> Unconfigured" for x])+

lemma call_frame:
  assumes "rpc_call c pf msg s = (r, s')" and "mstate s \<noteq> Unconfigured"
  shows "frame (view s') = frame (view s)"
  using preservesE [OF frame_calls.call [of "frame (view s)"] assms(1)] assms(2) by (simp add: at_frame_def)

text \<open>
  C21: a request is read once and answered once: when a client is accepted and its request parses,
  the method runs, the text of its response is written to the client, whatever the write reports, and
  the connection is closed; the channel is then as it was before.
\<close>

theorem request_answered:
  assumes "ch_peerfd (chan s) = - 1"
    and "sys_int pf (trace s) (Sock (SysAccept (ch_sockfd (chan s)))) = (fd, e)" and "0 \<le> fd"
    and "h = Sock (SysAccept (ch_sockfd (chan s))) # trace s"
    and "0 \<le> fst (sys_int pf h (Sock (SysRead fd)))" and "j_parse (jlib pf) (sys_read_data pf h fd) = Inr msg"
    and "rpc_call c pf msg (s\<lparr>chan := (chan s)\<lparr>ch_peerfd := fd\<rparr>, trace := Sock (SysRead fd) # h\<rparr>) = (Inr response, s1)"
    and "j_dump (jlib pf) response = Inr text" and "mstate s \<noteq> Unconfigured"
  shows "rpc_dispatch c pf s = (Inr (), s1\<lparr>trace := Proc (SysClose fd) # Sock (SysWrite fd text) # trace s1, chan := chan s\<rparr>)"
proof -
  let ?ch = "(chan s)\<lparr>ch_peerfd := fd\<rparr>"
  have ch: "chan s1 = ?ch"
    using call_frame [OF assms(7)] assms(9) by (simp add: frame_view)
  have b: "?ch\<lparr>ch_peerfd := - 1\<rparr> = chan s" using assms(1) by (cases "chan s") simp
  show ?thesis
    using assms ch b
    by (simp add: rpc_dispatch_def ch_accept_def readMessage_def writeMessage_def ch_sd_def ch_disconnect_def monad_simps Let_def split_beta)
qed

section \<open>Loading a manifest\<close>

definition taken :: "mgr \<Rightarrow> string \<Rightarrow> bool" where
  "taken s l \<longleftrightarrow> map_of (jobs s) l \<noteq> None \<or> map_of (pending_jobs s) l \<noteq> None"

lemma load_checked_eq:
  assumes "label m \<noteq> []"
  shows "load_checked pf m path od fl s =
    (if taken s (label m) then (Inr False, s) else load_fresh pf m path od fl s)"
  using assms
  by (simp add: load_checked_def jobExists_def lift_abrupt_def label_string_def monad_simps taken_def)

text \<open>
  C15: loading a manifest that parses, without \<open>-w\<close>: it is refused while the manager shuts down,
  when its label is taken by a loaded or a pending job, and, unless forced, when the manifest or
  the state file disables it; otherwise exactly one new job is queued under its label.
\<close>

theorem loadManifest_spec:
  assumes "get_manifest pf j = Inr m"
    and "override_enabled (jlib pf) (sf_current s) (label m) = Inr r"
  shows "loadManifest_json pf j path False force s =
    (if mstate s = GracefulShutdown \<or> taken s (label m) \<or>
        \<not> force \<and> (disabled m \<or> r = Some False) then (Inr False, s)
     else (Inr True, s\<lparr>heap := (heap s)(next_id s \<mapsto> mk_job (Some path) m), next_id := next_id s + 1,
       pending_jobs := pending_jobs s @ [(label m, Some (next_id s))]\<rparr>))"
proof -
  have l: "label m \<noteq> []"
    using parsed_manifest_ok [OF assms(1)] by (simp add: manifest_ok_def label_ok_def)
  show ?thesis
    using assms
    by (auto simp: loadManifest_json_def load_checked_eq [OF l] load_fresh_def sf_getValue_def
        new_job_def monad_simps taken_def alist_insert_fresh)
qed

text \<open>
  \<open>-w\<close> does not override the \<open>Disabled\<close> key of the manifest: the override is stored, and the
  load is refused all the same.
\<close>

theorem load_override_refused:
  assumes "get_manifest pf j = Inr m" and "disabled m" and "mstate s \<noteq> GracefulShutdown"
    and "\<not> taken s (label m)" and "override_doc (jlib pf) (sf_current s) (label m) True = Inr doc"
    and "sf_setValue pf doc s = (Inr (), s')"
  shows "loadManifest_json pf j path True False s = (Inr False, s') \<and> sf_current s' = doc \<and>
    pending_jobs s' = pending_jobs s"
proof -
  have l: "label m \<noteq> []"
    using parsed_manifest_ok [OF assms(1)] by (simp add: manifest_ok_def label_ok_def)
  have ov: "overrideJobEnabled pf (label m) True s = (Inr (), s')"
    using l assms(5,6) by (simp add: overrideJobEnabled_def lift_abrupt_def label_string_def
        sf_getValue_def monad_simps)
  have "view s' = view s"
    using preservesE [OF preserves_sf_setValue_sys [OF sys_indep_view [of "\<lambda>v. v = view s"]] assms(6)] by simp
  then have "pending_jobs s' = pending_jobs s" by (simp add: view_def)
  moreover have "sf_current s' = doc"
    by (rule sf_setValue_current [OF assms(6)])
  ultimately show ?thesis
    using assms(1-4) ov
    by (simp add: loadManifest_json_def load_checked_eq [OF l] load_fresh_def monad_simps)
qed

section \<open>Shutting down\<close>

text \<open>Killing a process group ends, which a measure of the group's members gives.\<close>

definition group_kills_end :: "platform \<Rightarrow> bool" where
  "group_kills_end pf \<longleftrightarrow>
     (\<forall>pg (x :: job_ctx). \<exists>b. fst (kill_group_loop (loop_bound pf) pf pg x) = Inr b)"

lemma killProcessGroup_ends:
  assumes "group_kills_end pf"
  shows "\<exists>b k. killProcessGroup pf (s :: job_ctx) = (Inr b, s\<lparr>trace := k @ trace s\<rparr>) \<and> list_all quiet_call k"
proof -
  obtain k where k: "snd (killProcessGroup pf s) = s\<lparr>trace := k @ trace s\<rparr>" "list_all quiet_call k"
    using killProcessGroup_quiet by blast
  have "\<exists>b. fst (killProcessGroup pf s) = Inr b"
    using assms by (auto simp: killProcessGroup_def monad_simps group_kills_end_def)
  then show ?thesis using k by (metis prod.collapse)
qed

lemma forceUnload_no_timer:
  assumes "jb_timer_id (this s) = None" and "group_kills_end pf"
  shows "\<exists>s'. forceUnloadJob pf s = (Inr (), s') \<and> jb_timer_id (this s') = None"
proof (cases "jb_pid (this s) = 0")
  case True
  then show ?thesis
    using assms(1) by (simp add: forceUnloadJob_def cancel_if_set_def fsm_reset_def put_job_state_def monad_simps)
next
  case False
  let ?s = "s\<lparr>trace := Proc (SysWaitpid (jb_pid (this s))) # Proc (SysKill (jb_pid (this s)) SIGKILL) # trace s\<rparr>"
  obtain b h where k: "killProcessGroup pf ?s = (Inr b, ?s\<lparr>trace := h\<rparr>)"
    using killProcessGroup_ends [OF assms(2)] by blast
  show ?thesis
    using False k assms(1)
    by (simp add: forceUnloadJob_def cancel_if_set_def fsm_reset_def put_job_state_def
        deleteProcess_def ignoreChildProcess_def monad_simps)
qed

definition no_timers :: "mgr \<Rightarrow> bool" where
  "no_timers s \<longleftrightarrow> (\<forall>j \<in> ran (heap s). jb_timer_id j = None)"

lemma force_with_job:
  assumes "heap s jid = Some j" and "no_timers s" and "group_kills_end pf"
  shows "\<exists>s'. with_job jid (forceUnloadJob pf) s = (Inr (), s') \<and> no_timers s' \<and> view s' = view s"
proof -
  have "jb_timer_id j = None" using assms(1,2) by (auto simp: no_timers_def ran_def)
  then obtain x where x: "forceUnloadJob pf (job_in s jid j) = (Inr (), x)" "jb_timer_id (this x) = None"
    using forceUnload_no_timer [of "job_in s jid j" pf] assms(3) by auto
  have w: "with_job jid (forceUnloadJob pf) s = (Inr (), job_out s jid x)"
    using assms(1) x by (simp add: with_job_apply)
  have "view (job_out s jid x) = view s"
    using preservesE [OF preserves_with_jobs(3) [of "\<lambda>v. v = view s"] w] by simp
  moreover have "no_timers (job_out s jid x)"
    using assms(2) x by (auto simp: no_timers_def ran_def split: if_splits)
  ultimately show ?thesis using w by blast
qed

lemma force_all:
  assumes "group_kills_end pf"
  shows "snd ` set js \<subseteq> dom (heap s) \<Longrightarrow> no_timers s \<Longrightarrow>
    \<exists>s'. forM js (\<lambda>(l, jid). with_job jid (forceUnloadJob pf)) s = (Inr (), s') \<and> view s' = view s"
proof (induction js arbitrary: s)
  case Nil
  then show ?case by (simp add: monad_simps)
next
  case (Cons p js)
  obtain l jid where p: "p = (l, jid)" by fastforce
  obtain j where "heap s jid = Some j" using Cons.prems(1) p by auto
  then obtain s1 where s1: "with_job jid (forceUnloadJob pf) s = (Inr (), s1)" "no_timers s1" "view s1 = view s"
    using force_with_job Cons.prems(2) assms by blast
  have d: "dom (heap s1) = dom (heap s)"
    using s1(3) by (auto simp: view_def fun_eq_iff dom_def) (metis option.map_disc_iff option.distinct(1) not_None_eq)+
  obtain s2 where "forM js (\<lambda>(l, jid). with_job jid (forceUnloadJob pf)) s1 = (Inr (), s2)" "view s2 = view s1"
    using Cons.IH [of s1] s1(2) d Cons.prems(1) by auto
  then show ?case using s1 p by (simp add: monad_simps)
qed

lemma mgr_all_exited:
  "mstate s = GracefulShutdown \<Longrightarrow>
   mgr_execute c pf AllJobsExited s = (Inr Fsm_Success, s\<lparr>mstate := Finished\<rparr>)"
  unfolding mgr_execute_def execute_candidates
  by (simp add: candidates_def mgr_table_def monad_simps put_mgr_state_def)

text \<open>
  C19: a second shutdown signal ends the daemon: when no job waits for a timer and the kernel lets
  process groups die, every job is unloaded by force, nothing is left, the manager is finished and
  the main loop stops at the next turn.
\<close>

theorem second_signal_finishes:
  assumes "mgr_ok s" and "mstate s = GracefulShutdown" and "no_timers s" and "group_kills_end pf"
  shows "\<exists>s'. handleShutdownSignal c pf s = (Inr (), s') \<and> mstate s' = Finished \<and> jobs s' = [] \<and>
    handleEvent c pf t s' = (Inr False, s')"
proof -
  have "snd ` set (jobs s) \<subseteq> dom (heap s)"
  proof -
    have "dom (map_option jb_manifest \<circ> heap s) = snd ` set (jobs s @ pend_owned (pending_jobs s))"
      using assms(1) by (simp add: mgr_ok_def view_def own_ok_def)
    moreover have "dom (map_option jb_manifest \<circ> heap s) = dom (heap s)" by (auto simp: dom_def)
    ultimately show ?thesis by auto
  qed
  then obtain s1 where s1: "forM (jobs s) (\<lambda>(l, jid). with_job jid (forceUnloadJob pf)) s = (Inr (), s1)"
    and v: "view s1 = view s"
    using force_all [OF assms(4)] assms(3) by blast
  let ?s2 = "s1\<lparr>heap := heap s1 |` (- snd ` set (jobs s)), jobs := []\<rparr>"
  have f: "forceUnloadAllJobs pf s = (Inr (), ?s2)"
    by (simp add: forceUnloadAllJobs_def monad_simps s1 destroy_jobs)
  have "mstate ?s2 = GracefulShutdown" using v assms(2) by (simp add: view_def)
  then show ?thesis
    using f assms(2) by (simp add: handleShutdownSignal_def mgr_all_exited monad_simps handleEvent_def)
qed

text \<open>
  C39: the same signal kills the daemon when a job waits for a timer, such as one restarted by
  \<open>KeepAlive\<close> within its throttle interval: cancelling the timer throws out of a \<open>noexcept\<close>
  function.
\<close>

theorem forced_unload_terminates:
  assumes "epoll_del_documented pf" and "jb_timer_id (this s) = Some t" and "jb_pid (this s) = 0"
    and "map_of (timerfd_map s) t = Some tfd"
    and "\<forall>p. Evt (SysEpollAdd (epfd s) tfd p) \<notin> set (trace s)"
  shows "fst (forceUnloadJob pf s) = Inl (Abort ''std::terminate'')"
  using assms
  by (simp add: forceUnloadJob_def cancel_if_set_def cancelTimer_def opt_value_def deleteTimer_def
      ignoreTimer_def sys_error_def epoll_del_documented_def monad_simps)

end
