(* ===== verification/RequestFacts.thy ===== *)
theory RequestFacts
  imports DaemonFacts
begin

text \<open>
  Properties of the methods of the RPC server, and concrete runs of the manager: the witnesses of
  its properties.
\<close>

section \<open>Requests\<close>

lemma args_1_object:
  assumes "json_documented (jlib pf)"
  shows "args_1 pf (JArray (x # JObject kvs # xs)) s = (Inr (JObject kvs), s)"
  using assms by (simp add: args_1_def documented_array monad_simps)

lemma arg_key_object:
  assumes "json_documented (jlib pf)"
  shows "arg_key pf (JArray (x # JObject kvs # xs)) k s =
    (case map_of kvs k of Some v \<Rightarrow> (Inr v, s)
     | None \<Rightarrow> (Inl (if ndebug pf then Undefined ''args[1][key]''
                     else Abort ''it != m_value.object->end()''), s))"
  using assms
  by (simp add: arg_key_def monad_simps documented_rules args_1_object [OF assms] split: option.split)

text \<open>
  A signal that was delivered is answered as an error, and one that was not as a success: the
  response of \<open>kill\<close> carries the result of \<open>killJob\<close> where the protocol has an error flag.
\<close>

theorem rpc_kill_inverted:
  assumes "json_documented (jlib pf)" and "label_ok l"
    and "map_of kvs ''Label'' = Some (JString l)" and "map_of kvs ''Signal'' = Some (JString sig)"
    and "getSignalByName sig = Some n" and "map_of (jobs s) l = Some jid" and "heap s jid = Some j"
    and "jb_pid j \<noteq> 0"
  shows "fst (rpc_op_kill pf (JArray [JString ''kill'', JObject kvs]) s) =
    Inr (error_response (0 \<le> fst (sys_int pf (trace s) (Proc (SysKill (jb_pid j) n)))))"
proof -
  have t: "trace (job_in s jid j) = trace s"
    by (simp add: job_in_def em_state.defs os_state.defs)
  have lab: "arg_label pf (JArray [JString ''kill'', JObject kvs]) s = (Inr l, s)"
    using assms(1-3) mk_label_iff [of l l]
    by (simp add: arg_label_def arg_string_def arg_key_object monad_simps documented_rules)
  have sg: "arg_string pf (JArray [JString ''kill'', JObject kvs]) ''Signal'' s = (Inr sig, s)"
    using assms(1,4) by (simp add: arg_string_def arg_key_object monad_simps documented_rules)
  have "label_string pf l = Inr l" using assms(2) by (simp add: label_string_def label_ok_def)
  then have "mgr_killJob pf l sig s = with_job jid (job_killJob pf n) s"
    using assms(5,6) by (simp add: mgr_killJob_def jobExists_def getJob_def lift_abrupt_def monad_simps)
  then show ?thesis
    using lab sg assms(7,8) t
    by (simp add: rpc_op_kill_def monad_simps with_job_apply job_killJob_eq Let_def)
qed

text \<open>
  One malformed request takes the daemon down: a request to disable, enable, kill or remove
  whose arguments have no \<open>Label\<close> is not answered with an error, it fails an assertion of the JSON
  library, or is undefined behaviour where assertions are off.
\<close>

theorem missing_label_request_aborts:
  assumes "json_documented (jlib pf)" and "map_of kvs ''Label'' = None"
    and "meth \<in> {''disable'', ''enable'', ''kill'', ''remove''}"
  shows "fst (rpc_call c pf (JArray [JString meth, JObject kvs]) s) =
    Inl (if ndebug pf then Undefined ''args[1][key]'' else Abort ''it != m_value.object->end()'')"
  using assms
  by (auto simp: rpc_call_def monad_simps documented_rules handlers_def rpc_op_disable_def
      rpc_op_enable_def rpc_op_kill_def rpc_op_remove_def arg_label_def arg_string_def arg_key_object)

section \<open>Concrete runs of the manager\<close>

definition job_json :: json where
  "job_json = JObject [(''Label'', JString ''a''), (''Program'', JString ''/p'')]"

definition off_json :: json where
  "off_json = JObject [(''Label'', JString ''a''), (''Program'', JString ''/p''), (''Disabled'', JBool True)]"


lemmas parse_defs = get_manifest_def from_json_def from_json_steps_def job_json_def off_json_def
  default_manifest_def null_platform_def nl_json_def on_key_def unsupported_key_def set_label_def
  mk_label_def set_string_def set_keep_alive_def set_bool_def set_u32_def rectify_def validate_def
  label_string_def

lemma parse_job_json:
  "get_manifest null_platform job_json = Inr (default_manifest\<lparr>
     label := ''a'', program := Some ''/p'', program_arguments := [''/p'']\<rparr>)"
  by (simp add: parse_defs)

lemma parse_off_json:
  "get_manifest null_platform off_json = Inr (default_manifest\<lparr>
     label := ''a'', disabled := True, program := Some ''/p'', program_arguments := [''/p'']\<rparr>)"
  by (simp add: parse_defs)

lemma blank_mgr_simps [simp]:
  "heap blank_mgr = Map.empty" "jobs blank_mgr = []" "pending_jobs blank_mgr = []"
  "mstate blank_mgr = Unconfigured" "chan blank_mgr = \<lparr>ch_path = [], ch_sockfd = 5, ch_peerfd = - 1\<rparr>"
  "next_id blank_mgr = 0" "sf_current blank_mgr = default_state_doc" "trace blank_mgr = []"
  by (simp_all add: blank_mgr_def em_state.defs mgr.defs init_em_def)

theorem loadManifest_spec_witness:
  "loadManifest_json null_platform job_json ''/m'' False False blank_mgr =
     (Inr True, blank_mgr\<lparr>heap := [0 \<mapsto> mk_job (Some ''/m'') (default_manifest\<lparr>
        label := ''a'', program := Some ''/p'', program_arguments := [''/p'']\<rparr>)],
        next_id := 1, pending_jobs := [(''a'', Some 0)]\<rparr>)"
  using loadManifest_spec [OF parse_job_json, of blank_mgr None "''/m''" False] no_override
  by (simp add: taken_def default_manifest_def)

lemma override_default:
  "override_doc (jlib null_platform) default_state_doc l True =
     Inr (JObject [(''SchemaVersion'', JInteger 1),
       (''Overrides'', JObject [(l, JObject [(''Enabled'', JBool True)])])])"
  by (simp add: override_doc_def default_state_doc_def nl_json_def alist_insert_def)

theorem load_override_refused_witness:
  "\<exists>s'. loadManifest_json null_platform off_json ''/m'' True False blank_mgr = (Inr False, s') \<and>
     override_enabled (jlib null_platform) (sf_current s') ''a'' = Inr (Some True)"
proof -
  let ?d = "JObject [(''SchemaVersion'', JInteger 1),
       (''Overrides'', JObject [(''a'', JObject [(''Enabled'', JBool True)])])]"
  obtain s' where "sf_setValue null_platform ?d blank_mgr = (Inr (), s')"
    by (simp add: sf_setValue_def sf_write_tmp_eq sf_commit_eq monad_simps Let_def written_def null_platform_def)
  then have "loadManifest_json null_platform off_json ''/m'' True False blank_mgr = (Inr False, s')"
    and "sf_current s' = ?d"
    using load_override_refused [OF parse_off_json, of blank_mgr ?d s' "''/m''"] override_default
    by (simp_all add: taken_def default_manifest_def)
  then show ?thesis by (auto simp: override_enabled_def nl_json_def)
qed

theorem rpc_dispatch_disconnects_witness:
  "case rpc_dispatch sample_config null_platform blank_mgr of
      (Inr _, s') \<Rightarrow> ch_peerfd (chan s') < 0
    | (Inl e, s') \<Rightarrow> e \<notin> range Throw"
  by (rule rpc_dispatch_disconnects) simp

definition version_platform :: platform where
  "version_platform = null_platform\<lparr>
     jlib := nl_json\<lparr>j_parse := \<lambda>_. Inr (JArray [JString ''version'']), j_dump := \<lambda>_. Inr ''ok''\<rparr>,
     sys_int := \<lambda>_ c. (if c = Sock (SysAccept 5) then 6 else 0, 0)\<rparr>"

theorem request_answered_witness:
  "rpc_dispatch sample_config version_platform (blank_mgr\<lparr>mstate := MgrRunning\<rparr>) =
     (Inr (), blank_mgr\<lparr>mstate := MgrRunning, trace := [Proc (SysClose 6), Sock (SysWrite 6 ''ok''), Sock (SysRead 6), Sock (SysAccept 5)]\<rparr>)"
proof -
  let ?h = "[Sock (SysAccept 5)] :: syscall list"
  let ?v = "JArray [JString ''version'']"
  let ?m = "blank_mgr\<lparr>mstate := MgrRunning\<rparr>"
  let ?s = "?m\<lparr>chan := (chan ?m)\<lparr>ch_peerfd := 6\<rparr>, trace := Sock (SysRead 6) # ?h\<rparr>"
  have m: "map_of (handlers sample_config version_platform) ''version'' = Some (\<lambda>_. rpc_op_version sample_config)"
    by (simp add: handlers_def)
  have c: "\<exists>r. rpc_call sample_config version_platform ?v ?s = (Inr r, ?s)"
    using m by (simp add: rpc_call_def rpc_op_version_def monad_simps version_platform_def nl_json_def)
  then obtain r where r: "rpc_call sample_config version_platform ?v ?s = (Inr r, ?s)" ..
  have p: "sys_int version_platform h (Sock (SysAccept 5)) = (6, 0)" "0 \<le> fst (sys_int version_platform h k)"
    "j_parse (jlib version_platform) t = Inr ?v" "j_dump (jlib version_platform) j = Inr ''ok''" for h k t j
    by (simp_all add: version_platform_def null_platform_def)
  show ?thesis
    using request_answered [of ?m version_platform 6 0 ?h ?v sample_config r ?s "''ok''"] r p
    by simp
qed

definition shutting_mgr :: mgr where
  "shutting_mgr = blank_mgr\<lparr>heap := [0 \<mapsto> running_job], next_id := 1, jobs := [(''a'', 0)],
     mstate := GracefulShutdown\<rparr>"

lemma null_group_kills_end: "group_kills_end null_platform"
  by (auto simp: group_kills_end_def null_platform_def monad_simps eval_nat_numeral)

theorem second_signal_finishes_witness:
  "\<exists>s'. handleShutdownSignal sample_config null_platform shutting_mgr = (Inr (), s') \<and>
     mstate s' = Finished \<and> jobs s' = [] \<and>
     handleEvent sample_config null_platform None s' = (Inr False, s')"
proof (rule second_signal_finishes)
  show "mgr_ok shutting_mgr"
    by (auto simp: mgr_ok_def view_def own_ok_def shutting_mgr_def running_job_def mk_job_def fun_upd_def
        split: if_splits)
  show "no_timers shutting_mgr"
    by (auto simp: no_timers_def shutting_mgr_def running_job_def mk_job_def ran_def split: if_splits)
qed (simp_all add: shutting_mgr_def null_group_kills_end)

theorem forced_unload_terminates_witness:
  "fst (forceUnloadJob linux_platform
      (init_ctx (running_job\<lparr>jb_state := Waiting, jb_pid := 0, jb_timer_id := Some 1\<rparr>)\<lparr>timerfd_map := [(1, 40)]\<rparr>)) =
     Inl (Abort ''std::terminate'')"
  by (rule forced_unload_terminates [OF linux_platform_documented, where t = 1 and tfd = 40])
    (simp_all add: init_ctx_def init_em_def em_state.defs job_ctx.defs)

theorem rpc_kill_inverted_witness:
  "fst (rpc_op_kill null_platform (JArray [JString ''kill'',
      JObject [(''Label'', JString ''a''), (''Signal'', JString ''TERM'')]])
      (blank_mgr\<lparr>heap := [0 \<mapsto> running_job], jobs := [(''a'', 0)]\<rparr>)) = Inr (error_response True)"
proof -
  have n: "getSignalByName ''TERM'' = Some 15" by code_simp
  show ?thesis
    using rpc_kill_inverted [OF _ _ _ _ n, of null_platform "''a''"
        "[(''Label'', JString ''a''), (''Signal'', JString ''TERM'')]"
        "blank_mgr\<lparr>heap := [0 \<mapsto> running_job], jobs := [(''a'', 0)]\<rparr>" 0 running_job]
    by (simp add: nl_json_documented label_ok_def running_job_def null_platform_def)
qed

theorem missing_label_request_aborts_witness:
  "fst (rpc_call sample_config null_platform (JArray [JString ''enable'', JObject []]) blank_mgr) =
     Inl (Abort ''it != m_value.object->end()'')"
  using missing_label_request_aborts [of null_platform "[]" "''enable''" sample_config blank_mgr]
  by (simp add: nl_json_documented null_platform_def)

end
