(* ===== verification/ProgramFacts.thy ===== *)
theory ProgramFacts
  imports Programs RequestFacts
begin

text \<open>
  Properties of the programs: how \<open>launchd\<close> ends, and what \<open>launchctl\<close> sends.
\<close>

section \<open>How the daemon ends\<close>

lemma bindM_InrE:
  assumes "bindM m f s = (Inr x, s')"
  obtains y s1 where "m s = (Inr y, s1)" and "f y s1 = (Inr x, s')"
  using assms by (auto simp: bindM_def split: prod.splits sum.splits)

lemma thenM_InrE:
  assumes "thenM m n s = (Inr x, s')"
  obtains y s1 where "m s = (Inr y, s1)" and "n s1 = (Inr x, s')"
  using assms by (auto simp: thenM_def elim: bindM_InrE)

lemma main_loop_ok: "preserves mgr_ok (main_loop n c pf)"
  by (induction n) (auto intro!: preserves_rules daemon_ok(3))

lemma main_loop_finished: "main_loop n c pf s = (Inr (), s') \<Longrightarrow> mstate s' = Finished"
proof (induction n arbitrary: s)
  case (Suc n)
  obtain go s1 where h: "handleEvent c pf None s = (Inr go, s1)"
    and r: "(if go then main_loop n c pf else returnM ()) s1 = (Inr (), s')"
    using Suc.prems by (auto elim: bindM_InrE)
  have g: "go = (mstate s1 \<noteq> Finished)"
    using h by (auto simp: handleEvent_def elim!: bindM_InrE thenM_InrE simp: getsM_def)
  show ?case using r g Suc.IH by (cases go) (auto simp: returnM_def)
qed (simp add: failM_def)

lemma forceUnloadAllJobs_empties: "forceUnloadAllJobs pf s = (Inr x, s') \<Longrightarrow> jobs s' = []"
  by (auto simp: forceUnloadAllJobs_def monad_simps split: prod.splits sum.splits abrupt.splits)


text \<open>The steps of the destructor, on the fields the properties speak of.\<close>

definition gone :: "(nat \<rightharpoonup> manifest) \<times> nat \<times> (string \<times> nat) list \<times> (string \<times> nat option) list \<times>
    domain \<times> channel \<times> mgr_state \<times> manager_result \<Rightarrow> bool" where
  "gone v = (case v of (h, n, js, ps, d, ch, st, r) \<Rightarrow> js = [] \<and> st = Finished)"

lemma gone_view: "gone (view s) \<longleftrightarrow> jobs s = [] \<and> mstate s = Finished"
  by (simp add: gone_def view_def)

lemma preserves_destroy_epoll: "em_indep I \<Longrightarrow> preserves I (destroy_epoll pf)"
  unfolding destroy_epoll_def unblockAllSignals_def
  by ((assumption | rule preserves_em_basic preserves_em_ops)+, simp)

lemma preserves_ch_destroy: "em_indep I \<Longrightarrow> preserves I (ch_destroy pf ch)"
  unfolding ch_destroy_def by (assumption | rule preserves_em_basic)+

lemma clear_pending_empties: "clear_pending s = (Inr x, s') \<Longrightarrow> pending_jobs s' = [] \<and> jobs s' = jobs s \<and> mstate s' = mstate s"
  by (auto simp: clear_pending_def monad_simps destroy_pending)

lemma runMainLoop_finished:
  assumes "runMainLoop n c pf s = (Inr r, s')"
  shows "mstate s' = Finished"
proof -
  have "thenM (main_loop n c pf) (getsM pending_result) s = (Inr r, s')"
    using assms by (auto simp: runMainLoop_def getsM_def throwM_def failM_def bindM_def split: if_splits)
  then obtain y s1 where "main_loop n c pf s = (Inr y, s1)" "getsM pending_result s1 = (Inr r, s')"
    by (rule thenM_InrE)
  then show ?thesis using main_loop_finished by (auto simp: getsM_def)
qed

lemma runMainLoop_ok: "preserves mgr_ok (runMainLoop n c pf)"
  unfolding runMainLoop_def by (auto intro!: preserves_rules main_loop_ok)

lemma preserves_boot_step: "em_indep I \<Longrightarrow> preserves I (boot_step pf b p)"
  unfolding boot_step_def run_boot_script_def by (assumption | rule preserves_em_basic preserves_prod2)+

lemma owned_nothing: "mgr_ok s \<Longrightarrow> jobs s = [] \<Longrightarrow> pending_jobs s = [] \<Longrightarrow> heap s = Map.empty"
  by (auto simp: mgr_ok_def view_def own_ok_def fun_eq_iff dom_def)

lemma clear_pending_result: "clear_pending s = (Inr x, s') \<Longrightarrow> pending_jobs s' = [] \<and> view s' = view s'"
  by (auto simp: clear_pending_def monad_simps destroy_pending)

lemma destroy_manager_gone:
  assumes "destroy_manager pf s = (Inr x, s')" and "mgr_ok s" and "mstate s = Finished"
  shows "mstate s' = Finished \<and> jobs s' = [] \<and> pending_jobs s' = [] \<and> heap s' = Map.empty"
proof -
  obtain s1 y1 where c1: "close_listener pf s = (Inr y1, s1)"
    and r1: "thenM (forceUnloadAllJobs pf) (destroy_members pf) s1 = (Inr x, s')"
    using assms(1) unfolding destroy_manager_def by (rule thenM_InrE)
  obtain s2 y2 where c2: "forceUnloadAllJobs pf s1 = (Inr y2, s2)" and r2: "destroy_members pf s2 = (Inr x, s')"
    using r1 by (rule thenM_InrE)
  have ok: "mgr_ok s2"
    using preservesE [OF preserves_mgr_actions(3) c1 assms(2)] preservesE [OF forceUnloadAllJobs_ok c2] by blast
  have "mstate s1 = Finished"
    using preservesE [OF preserves_kv_chan(2) [of "\<lambda>p. fst p = Finished"] c1] assms(3) by (simp add: kv_view)
  then have "mstate s2 = Finished"
    using preservesE [OF preserves_kv_jobs(2) [of "\<lambda>p. fst p = Finished"] c2] by (simp add: kv_view)
  then have g2: "gone (view s2)" using forceUnloadAllJobs_empties [OF c2] by (simp add: gone_view)
  obtain s3 y3 where c3: "bindM (getsM chan) (ch_destroy pf) s2 = (Inr y3, s3)"
    and r3: "thenM (destroy_epoll pf) clear_pending s3 = (Inr x, s')"
    using r2 unfolding destroy_members_def by (rule thenM_InrE)
  obtain s4 y4 where c4: "destroy_epoll pf s3 = (Inr y4, s4)" and c5: "clear_pending s4 = (Inr x, s')"
    using r3 by (rule thenM_InrE)
  have ch: "em_indep I \<Longrightarrow> preserves I (bindM (getsM chan) (ch_destroy pf))" for I
    by (intro preserves_bindM preserves_getsM preserves_ch_destroy)
  have g4: "gone (view s4)" and o4: "mgr_ok s4"
    using preservesE [OF ch [OF em_indep_view] c3] preservesE [OF preserves_destroy_epoll [OF em_indep_view] c4]
      preservesE [OF ch [OF em_indep_ok] c3] preservesE [OF preserves_destroy_epoll [OF em_indep_ok] c4] g2 ok
    by blast+
  have o5: "mgr_ok s'" using preservesE [OF clear_pending_ok c5 o4] .
  have "pending_jobs s' = [] \<and> jobs s' = jobs s4 \<and> mstate s' = mstate s4" using clear_pending_empties [OF c5] .
  then show ?thesis using g4 o5 owned_nothing by (simp add: gone_view)
qed

lemma run_manager_clean:
  assumes "run_manager n c pf b s = (Inr st, s')"
  shows "st = 0 \<and> mstate s' = Finished \<and> jobs s' = [] \<and> pending_jobs s' = [] \<and> heap s' = Map.empty"
proof -
  obtain d s1 s2 s3 s4 s5 s6 and y2 y3 y5 y6 :: unit and y4 where
    c2: "mk_manager pf d s1 = (Inr y2, s2)" and c3: "startRunning c pf s2 = (Inr y3, s3)"
    and c4: "runMainLoop n c pf s3 = (Inr y4, s4)"
    and c5: "boot_step pf b ''/lib/relaunchd/bootout'' s4 = (Inr y5, s5)"
    and c6: "destroy_manager pf s5 = (Inr y6, s6)" and c7: "returnM 0 s6 = (Inr st, s')"
    using assms unfolding run_manager_def by (elim bindM_InrE thenM_InrE) (rule that)
  have e: "st = 0" "s6 = s'" using c7 by (simp_all add: returnM_def)
  have "mgr_ok s2" using mk_manager_ok [of pf d s1] c2 by simp
  then have "mgr_ok s3" using preservesE [OF daemon_ok(1) c3] by blast
  then have "mgr_ok s4" using preservesE [OF runMainLoop_ok c4] by blast
  moreover have "view s5 = view s4"
    using preservesE [OF preserves_boot_step [OF em_indep_view [of "\<lambda>v. v = view s4"]] c5] by simp
  moreover have "mstate s4 = Finished" using runMainLoop_finished [OF c4] .
  ultimately have "mgr_ok s5" "mstate s5 = Finished" by (simp_all add: mgr_ok_def view_def)
  then show ?thesis using destroy_manager_gone [OF c6] e by blast
qed

text \<open>
  C8: the daemon exits with status 0 only after its main loop has finished, with every job unloaded
  and every job object destroyed.
\<close>

theorem launchd_exits_clean:
  assumes "launchd_main n c pf args s = (Inr st, s')"
  shows "st = 0 \<and> mstate s' = Finished \<and> jobs s' = [] \<and> pending_jobs s' = [] \<and> heap s' = Map.empty"
proof -
  have "\<exists>b x. run_manager n c pf b x = (Inr st, s')"
    using assms unfolding launchd_main_def Let_def split_beta
    by (elim bindM_InrE thenM_InrE) blast
  then show ?thesis using run_manager_clean by blast
qed

section \<open>A whole run\<close>

text \<open>
  A kernel that lets every call succeed and delivers one \<open>SIGTERM\<close>: the daemon starts, shuts
  down and exits. The lemmas follow its stages.
\<close>

definition term_platform :: platform where
  "term_platform = null_platform\<lparr>sys_int := (\<lambda>h c.
     case c of
       Evt (SysEpollWait _ _) \<Rightarrow> (1, 0)
     | Evt (SysReadSiginfo fd) \<Rightarrow> if c \<in> set h then (- 1, EAGAIN) else (128, 0)
     | _ \<Rightarrow> (0, 0)),
     sys_epoll_event := (\<lambda>_ _. PayU32 1), sys_siginfo := (\<lambda>_ _. 15)\<rparr>"

definition sysdom :: domain where
  "sysdom = \<lparr>dtype = System, statedir = ''/var/db/relaunchd''\<rparr>"

lemma term_platform_simps [simp]:
  "sys_int term_platform h (Proc x) = (0, 0)" "sys_int term_platform h (Acct a) = (0, 0)"
  "sys_int term_platform h (Sock k) = (0, 0)" "sys_int term_platform h (File f) = (0, 0)"
  "sys_int term_platform h (Child d) = (0, 0)"
  "sys_int term_platform h (Evt SysEpollCreate) = (0, 0)"
  "sys_int term_platform h (Evt (SysEpollAdd e g p)) = (0, 0)"
  "sys_int term_platform h (Evt (SysSignalfd i m)) = (0, 0)"
  "sys_int term_platform h (Evt (SysBlock i)) = (0, 0)"
  "sys_int term_platform h (Evt (SysUnblock m)) = (0, 0)"
  "sys_int term_platform h (Evt (SysEpollWait i j)) = (1, 0)"
  "sys_int term_platform h (Evt (SysReadSiginfo fd)) =
     (if Evt (SysReadSiginfo fd) \<in> set h then (- 1, EAGAIN) else (128, 0))"
  "sys_epoll_event term_platform h fd = PayU32 1" "sys_siginfo term_platform h fd = 15"
  "jlib term_platform = nl_json" "ndebug term_platform = False" "loop_bound term_platform = 10"
  by (simp_all add: term_platform_def null_platform_def)

lemma run_domain: "mk_domain sample_config term_platform None None s = (Inr sysdom, s\<lparr>trace := Acct SysGetuid # trace s\<rparr>)"
  by (simp add: mk_domain_def detectDomainType_def detectStateDir_def getuid_def getenv_def monad_simps sysdom_def sample_config_def)


text \<open>What the stages of the run keep.\<close>

definition at_rest :: "mgr \<Rightarrow> mgr_state \<Rightarrow> bool" where
  "at_rest s st \<longleftrightarrow> mstate s = st \<and> jobs s = [] \<and> pending_jobs s = [] \<and>
     ch_sockfd (chan s) = 0 \<and> ch_peerfd (chan s) = - 1 \<and> mdomain s = sysdom \<and>
     pending_events s = [] \<and> child_status s = [] \<and> epfd s = 0 \<and> sigfd s = 0 \<and>
     Evt (SysReadSiginfo 0) \<notin> set (trace s)"

lemma run_constructed:
  assumes "Evt (SysReadSiginfo 0) \<notin> set (trace s)" and "disk s = Map.empty"
  shows "\<exists>s'. mk_manager term_platform sysdom s = (Inr (), s') \<and> at_rest s' Unconfigured \<and>
    signal_callbacks s' = Map.empty"
  using assms
  by (simp add: mk_manager_def mk_event_manager_def mk_epoll_def init_epoll_def epollCreate_def epollAdd_def
    monitorSignal_def add_cleanup_def mk_channel_def createOrOpenStatefile_def sf_open_def sf_clear_def write_file_def
    addIpcMethod_def fs_test_def getuid_def monad_simps at_rest_def)


lemma run_addSignal:
  assumes "at_rest s st"
  obtains s' where "addSignal term_platform n c s = (Inr (), s')" and "at_rest s' st"
    and "signal_callbacks s' = map_insert (signal_callbacks s) n c"
proof -
  have "\<exists>s'. addSignal term_platform n c s = (Inr (), s') \<and> at_rest s' st \<and>
      signal_callbacks s' = map_insert (signal_callbacks s) n c"
    using assms by (simp add: addSignal_def monitorSignal_def monad_simps at_rest_def)
  then show thesis using that by blast
qed

lemma run_handlers:
  assumes "at_rest s st" and "signal_callbacks s = Map.empty"
  shows "\<exists>s'. setupSignalHandlers term_platform s = (Inr (), s') \<and> at_rest s' st \<and>
     signal_callbacks s' SIGTERM = Some OnSigterm"
proof -
  obtain a where a: "addSignal term_platform SIGPIPE OnSigpipe s = (Inr (), a)" "at_rest a st"
    "signal_callbacks a = map_insert (signal_callbacks s) SIGPIPE OnSigpipe" using run_addSignal assms(1) by blast
  obtain b where b: "addSignal term_platform SIGINT OnSigint a = (Inr (), b)" "at_rest b st"
    "signal_callbacks b = map_insert (signal_callbacks a) SIGINT OnSigint" using run_addSignal a(2) by blast
  obtain c where c: "addSignal term_platform SIGUSR1 OnSigusr1 b = (Inr (), c)" "at_rest c st"
    "signal_callbacks c = map_insert (signal_callbacks b) SIGUSR1 OnSigusr1" using run_addSignal b(2) by blast
  obtain d where d: "addSignal term_platform SIGUSR2 OnSigusr2 c = (Inr (), d)" "at_rest d st"
    "signal_callbacks d = map_insert (signal_callbacks c) SIGUSR2 OnSigusr2" using run_addSignal c(2) by blast
  obtain e where e: "addSignal term_platform SIGTERM OnSigterm d = (Inr (), e)" "at_rest e st"
    "signal_callbacks e = map_insert (signal_callbacks d) SIGTERM OnSigterm" using run_addSignal d(2) by blast
  show ?thesis
    using a b c d e assms(2) by (simp add: setupSignalHandlers_def monad_simps map_insert_def signum_defs)
qed

lemma run_started:
  assumes "at_rest s Unconfigured" and "signal_callbacks s = Map.empty"
  shows "\<exists>s'. startRunning sample_config term_platform s = (Inr (), s') \<and> at_rest s' MgrRunning \<and>
     signal_callbacks s' SIGTERM = Some OnSigterm"
proof -
  obtain s1 where s1: "setupSignalHandlers term_platform s = (Inr (), s1)" "at_rest s1 Unconfigured"
     "signal_callbacks s1 SIGTERM = Some OnSigterm" using run_handlers assms by blast
  have "\<exists>s2. startRpcServer term_platform s1 = (Inr (), s2) \<and> at_rest s2 Unconfigured \<and>
     signal_callbacks s2 SIGTERM = Some OnSigterm"
    using s1(2,3) by (simp add: startRpcServer_def bindAndListen_def ch_listen_def getSockFD_def addSocketRead_def
      monitorSocketRead_def monad_simps Let_def at_rest_def)
  then obtain s2 where s2: "startRpcServer term_platform s1 = (Inr (), s2)" "at_rest s2 Unconfigured"
     "signal_callbacks s2 SIGTERM = Some OnSigterm" by blast
  have l: "loadAllManifests term_platform p False False x = (Inr False, x\<lparr>trace := File (SysExists p) # trace x\<rparr>)"
    if "mstate x = Unconfigured" for p x
    using that by (simp add: loadAllManifests_def fs_test_def monad_simps)
  have "\<exists>s3. loadDefaultManifests sample_config term_platform s2 = (Inr (), s3) \<and> at_rest s3 Unconfigured \<and>
     signal_callbacks s3 SIGTERM = Some OnSigterm"
    using s2(2,3) by (simp add: loadDefaultManifests_def getLoadPaths_def monad_simps at_rest_def sysdom_def l)
  then obtain s3 where s3: "loadDefaultManifests sample_config term_platform s2 = (Inr (), s3)" "at_rest s3 Unconfigured"
     "signal_callbacks s3 SIGTERM = Some OnSigterm" by blast
  have s4: "startAllJobs term_platform s3 = (Inr (), s3)"
    using s3(2) by (simp add: startAllJobs_def clear_pending_def monad_simps at_rest_def)
  show ?thesis
    using assms(1) s1(1) s2(1) s3 s4
    unfolding startRunning_def mgr_execute_def thenM_apply [of "execute _ _ _ _ _"] execute_candidates
    by (simp add: candidates_def mgr_table_def monad_simps put_mgr_state_def at_rest_def)
qed


lemma close_listener_result:
  "\<exists>h. close_listener term_platform s = (Inr (), s\<lparr>trace := h, chan := (chan s)\<lparr>ch_sockfd := if 0 \<le> ch_sockfd (chan s) then - 1 else ch_sockfd (chan s)\<rparr>\<rparr>)"
  by (rule exI [of _ "if 0 \<le> ch_sockfd (chan s) then Proc (SysClose (ch_sockfd (chan s))) # trace s else trace s"])
    (simp add: close_listener_def unbindAndStopListening_def monad_simps)

lemma run_signalled:
  assumes "at_rest s MgrRunning" and "signal_callbacks s SIGTERM = Some OnSigterm"
  shows "\<exists>s'. handleEvent sample_config term_platform None s = (Inr True, s') \<and> mstate s' = GracefulShutdown \<and> jobs s' = []"
proof -
  have w: "\<exists>s1. epoll_waitForEvent term_platform None s = (Inr (Some (SignalEvent SIGTERM)), s1) \<and> mstate s1 = MgrRunning
     \<and> jobs s1 = [] \<and> signal_callbacks s1 SIGTERM = Some OnSigterm" 
    using assms unfolding epoll_waitForEvent_def getPendingEvent_def at_rest_def
    by (simp add: monad_simps epollGetOne_def wait_switch_def evtype_defs getSignalEvents_def Let_def
      eval_nat_numeral sizeof_siginfo_def signum_defs addPendingEvent_def)
  then obtain s1 where s1: "epoll_waitForEvent term_platform None s = (Inr (Some (SignalEvent SIGTERM)), s1)" 
    "mstate s1 = MgrRunning" "jobs s1 = []" "signal_callbacks s1 SIGTERM = Some OnSigterm" by blast
  have j: "jobs (s\<lparr>trace := h\<rparr>) = jobs s" for s :: mgr and h by simp
  have e: "\<exists>s2. mgr_execute sample_config term_platform MgrStopRequested (s1\<lparr>pending_result := SingleUserMode\<rparr>) =
       (Inr Fsm_Success, s2) \<and> mstate s2 = GracefulShutdown \<and> jobs s2 = []"
    using s1(2,3) close_listener_result [of "s1\<lparr>pending_result := SingleUserMode\<rparr>"]
    unfolding mgr_execute_def execute_candidates
    by (auto simp: candidates_def mgr_table_def monad_simps put_mgr_state_def unloadAllJobs_def)
  show ?thesis
    using assms s1 e 
    by (auto simp: handleEvent_def em_waitForEvent_def at_rest_def monad_simps callback_of_def on_shutdown_signal_def
       handleShutdownSignal_def)
qed

lemma run_finishes:
  assumes "mstate s = GracefulShutdown" and "jobs s = []"
  shows "handleEvent sample_config term_platform None s = (Inr False, s\<lparr>mstate := Finished\<rparr>)"
  using assms by (simp add: handleEvent_def mgr_all_exited monad_simps)

lemma run_destroyed:
  assumes "jobs s = []"
  shows "\<exists>s'. destroy_manager term_platform s = (Inr (), s')"
proof -
  obtain h where c: "close_listener term_platform s = (Inr (), s\<lparr>trace := h, chan := (chan s)\<lparr>ch_sockfd := if 0 \<le> ch_sockfd (chan s) then - 1 else ch_sockfd (chan s)\<rparr>\<rparr>)" 
    using close_listener_result by blast
  have f: "\<exists>h. forM xs (\<lambda>fd. thenM (callM term_platform (Proc (SysClose fd))) (returnM ())) x = (Inr (), x\<lparr>trace := h\<rparr>)" for xs and x :: mgr
  proof (induction xs arbitrary: x)
    case Nil show ?case by (auto simp: monad_simps intro: exI [of _ "trace x"])
  next
    case (Cons a xs)
    from Cons.IH [of "x\<lparr>trace := Proc (SysClose a) # trace x\<rparr>"] show ?case by (auto simp: monad_simps)
  qed
  have "\<exists>s'. destroy_members term_platform x = (Inr (), s')" for x
  proof -
    obtain s1 where a: "ch_destroy term_platform (chan x) x = (Inr (), s1)"
      by (cases "0 \<le> ch_sockfd (chan x)"; cases "0 \<le> ch_peerfd (chan x)") (auto simp: ch_destroy_def monad_simps)
    obtain h where b: "forM (sorted_list_of_set (cleanup_fds s1)) (\<lambda>fd. thenM (callM term_platform (Proc (SysClose fd))) (returnM ())) s1 = (Inr (), s1\<lparr>trace := h\<rparr>)"
      using f by blast
    show ?thesis using a b
      by (simp add: destroy_members_def destroy_epoll_def unblockAllSignals_def clear_pending_def destroy_pending monad_simps)
  qed
  then show ?thesis using c assms
    by (simp add: destroy_manager_def forceUnloadAllJobs_def monad_simps)
qed

theorem launchd_exits_clean_witness:
  "\<exists>s'. launchd_main 2 sample_config term_platform [] blank_mgr = (Inr 0, s') \<and>
     mstate s' = Finished \<and> heap s' = Map.empty"
proof -
  have p: "launchd_main 2 sample_config term_platform [] blank_mgr =
    run_manager 2 sample_config term_platform False (blank_mgr\<lparr>trace := [Proc SysSetSubreaper, Acct SysGetpid]\<rparr>)" 
    (is "_ = run_manager 2 _ _ _ ?b")
    by (simp add: launchd_main_def monad_simps boot_step_def become_a_subreaper_def Let_def)
  let ?b1 = "?b\<lparr>trace := Acct SysGetuid # trace ?b\<rparr>"
  have "disk ?b1 = Map.empty" by (simp add: blank_mgr_def em_state.defs init_em_def)
  then obtain a where a: "mk_manager term_platform sysdom ?b1 = (Inr (), a)" "at_rest a Unconfigured"
    "signal_callbacks a = Map.empty" using run_constructed [of ?b1] by auto
  obtain b where b: "startRunning sample_config term_platform a = (Inr (), b)" "at_rest b MgrRunning"
    "signal_callbacks b SIGTERM = Some OnSigterm" using run_started a by blast
  obtain c where c: "handleEvent sample_config term_platform None b = (Inr True, c)" "mstate c = GracefulShutdown" "jobs c = []"
    using run_signalled b by blast
  let ?d = "c\<lparr>mstate := Finished\<rparr>"
  obtain e where e: "destroy_manager term_platform ?d = (Inr (), e)" using run_destroyed [of ?d] c by auto
  have r: "runMainLoop 2 sample_config term_platform b = (Inr (pending_result c), ?d)"
    using b(2) c run_finishes [OF c(2,3)] by (simp add: runMainLoop_def monad_simps at_rest_def numeral_2_eq_2)
  have m: "launchd_main 2 sample_config term_platform [] blank_mgr = (Inr 0, e)"
    unfolding p using a b c e r run_domain [of ?b] by (simp add: run_manager_def boot_step_def monad_simps)
  show ?thesis using launchd_exits_clean [OF m] m by blast
qed

end
