(* ===== verification/ClientServer.thy ===== *)
theory ClientServer
  imports RpcClient RequestFacts
begin

text \<open>
  The client and the server of the RPC protocol together: what \<open>launchctl\<close> sends for a command
  line, and what the server makes of it.
\<close>

section \<open>Requests that name a job\<close>

text \<open>What the server does with a method's result: an exception is answered as an error.\<close>

definition answered :: "(mgr, json) M \<Rightarrow> (mgr, json) M" where
  "answered m = catchM m (\<lambda>_. returnM (error_response True))"

lemma rpc_call_eq:
  assumes "json_documented (jlib pf)"
  shows "rpc_call c pf (JArray (JString meth # rest)) s =
    (case map_of (handlers c pf) meth of
       None \<Rightarrow> (Inl (Throw (OutOfRange ''handlers'')), s)
     | Some f \<Rightarrow> answered (f (JArray (JString meth # rest))) s)"
  using assms by (simp add: rpc_call_def documented_rules monad_simps answered_def split: option.split)

lemma arg_label_request:
  assumes "json_documented (jlib pf)" and "map_of kvs ''Label'' = Some (JString l)" and "label_ok l"
  shows "arg_label pf (JArray [JString meth, JObject kvs]) s = (Inr l, s)"
  using assms mk_label_iff [of l l]
  by (simp add: arg_label_def arg_string_def arg_key_object monad_simps documented_rules)

lemma arg_string_request:
  assumes "json_documented (jlib pf)" and "map_of kvs k = Some (JString v)"
  shows "arg_string pf (JArray [JString meth, JObject kvs]) k s = (Inr v, s)"
  using assms by (simp add: arg_string_def arg_key_object monad_simps documented_rules)

lemma answered_cong: "m s = n s \<Longrightarrow> answered m s = answered n s"
  by (simp add: answered_def monad_simps)

lemma label_request_eq: "label_request meth (l # r) s = (Inr (JArray [JString meth, JObject [(''Label'', JString l)]]), s)"
  by (simp add: label_request_def arg_at_def monad_simps)

text \<open>
  C24: client and server agree on the requests that name a job: what \<open>launchctl\<close> sends for
  \<open>disable\<close>, \<open>enable\<close>, \<open>remove\<close> and \<open>kill\<close> makes the server call the manager with exactly the
  arguments of the command line, and answer with the outcome of that call.
\<close>

theorem label_requests_served:
  assumes "json_documented (jlib pf)" and "label_ok l"
  shows "bindM (label_request ''disable'' (l # r)) (rpc_call c pf) s =
      answered (thenM (overrideJobEnabled pf l False) (returnM (error_response False))) s \<and>
    bindM (label_request ''enable'' (l # r)) (rpc_call c pf) s =
      answered (thenM (overrideJobEnabled pf l True) (returnM (error_response False))) s \<and>
    bindM (label_request ''remove'' (l # r)) (rpc_call c pf) s =
      answered (bindM (unloadJob_label pf l False False) (\<lambda>b. returnM (error_response b))) s \<and>
    bindM (kill_request (sig # l # r)) (rpc_call c pf) s =
      answered (bindM (mgr_killJob pf l sig) (\<lambda>b. returnM (error_response b))) s"
  using assms
  by (auto simp: label_request_eq kill_request_def arg_at_def bindM_apply rpc_call_eq handlers_def returnM_apply
      intro!: answered_cong simp: rpc_op_disable_def rpc_op_enable_def rpc_op_remove_def rpc_op_kill_def
        arg_label_request arg_string_request)

text \<open>
  \<open>start\<close> and \<open>stop\<close> are offered by the client and unknown to the server, which closes the
  connection without an answer.
\<close>

theorem start_stop_unanswered:
  assumes "json_documented (jlib pf)" and "meth \<in> {''start'', ''stop''}"
    and "ch_accept pf (chan s) s = (Inr ch, s1)"
    and "readMessage pf ch (s1\<lparr>chan := ch\<rparr>) = (label_request meth (l # r) s2)"
  shows "rpc_dispatch c pf s =
    (case ch_disconnect pf ch s2 of (Inr ch', s3) \<Rightarrow> (Inr (), s3\<lparr>chan := ch'\<rparr>) | (Inl e, s3) \<Rightarrow> (Inl e, s3))"
proof -
  have "chan s2 = ch"
    using preservesE [OF preserves_channel(6) [OF sys_indep_view [of "\<lambda>v. v = view (s1\<lparr>chan := ch\<rparr>)"]]
      assms(4) [unfolded label_request_eq]] by (simp add: view_def)
  let ?body = "bindM (getsM chan) (\<lambda>ch. bindM (readMessage pf ch) (\<lambda>msg.
      bindM (rpc_call c pf msg) (\<lambda>response. bindM (getsM chan) (\<lambda>ch. writeMessage pf ch response))))"
  have "map_of (handlers c pf) meth = None" using assms(2) by (elim insertE) (simp_all add: handlers_def)
  then have "rpc_call c pf (JArray [JString meth, a]) s2 = (Inl (Throw (OutOfRange ''handlers'')), s2)" for a
    using assms(1) by (simp add: rpc_call_eq)
  then have b: "catchM ?body (\<lambda>_. returnM ()) (s1\<lparr>chan := ch\<rparr>) = (Inr (), s2)"
    using assms(4) by (simp add: label_request_eq monad_simps)
  obtain r' s3 where "ch_disconnect pf ch s2 = (r', s3)" by fastforce
  then show ?thesis
    using assms(3) b \<open>chan s2 = ch\<close> by (cases r') (simp_all add: rpc_dispatch_def monad_simps)
qed

section \<open>Requests with paths\<close>

text \<open>The object under construction, after the arguments read so far.\<close>

definition paths_object :: "json \<Rightarrow> bool \<Rightarrow> bool \<Rightarrow> string list \<Rightarrow> bool" where
  "paths_object j od fo ps \<longleftrightarrow> (\<exists>kvs. j = JObject kvs \<and> map_of kvs ''OverrideDisabled'' = Some (JBool od) \<and>
     map_of kvs ''Force'' = Some (JBool fo) \<and> map_of kvs ''Paths'' = Some (JArray (map JString ps)))"

definition is_path :: "string \<Rightarrow> bool" where
  "is_path a \<longleftrightarrow> a \<noteq> ''-w'' \<and> a \<noteq> ''-F''"

definition canonical_for :: "platform \<Rightarrow> string \<Rightarrow> string \<Rightarrow> bool" where
  "canonical_for pf p a \<longleftrightarrow> (\<exists>h. p = sys_canonical pf h a)"

lemma put_object:
  assumes "json_documented J" and "j_put J (JObject kvs) k v = Inr j"
  obtains kvs' where "j = JObject kvs'" and "map_of kvs' = (map_of kvs)(k \<mapsto> v)"
  using assms documented_put [OF assms(1), of kvs k v] by (metis Inr_inject)

lemma liftE_InrE: "liftE r s = (Inr x, s') \<Longrightarrow> r = Inr x \<and> s' = s"
  by (auto simp: liftE_apply split: sum.splits)

lemma paths_step_object:
  assumes "json_documented (jlib pf)" and "paths_object j od fo ps"
    and "paths_step pf j a s = (Inr j', s')"
  shows "\<exists>qs. paths_object j' (od \<or> a = ''-w'') (fo \<or> a = ''-F'') (ps @ qs) \<and>
    list_all2 (canonical_for pf) qs (filter is_path [a])"
proof -
  obtain kvs where j: "j = JObject kvs" "map_of kvs ''OverrideDisabled'' = Some (JBool od)"
    "map_of kvs ''Force'' = Some (JBool fo)" "map_of kvs ''Paths'' = Some (JArray (map JString ps))"
    using assms(2) by (auto simp: paths_object_def)
  consider (w) "a = ''-w''" | (f) "a = ''-F''" | (p) "is_path a" by (auto simp: is_path_def)
  then show ?thesis
  proof cases
    case w
    then have "j_put (jlib pf) (JObject kvs) ''OverrideDisabled'' (JBool True) = Inr j'"
      using assms(3) j by (auto simp: paths_step_def dest: liftE_InrE)
    then obtain kvs' where "j' = JObject kvs'" "map_of kvs' = (map_of kvs)(''OverrideDisabled'' \<mapsto> JBool True)"
      using put_object [OF assms(1)] by blast
    then show ?thesis using j w by (intro exI [of _ "[]"]) (simp add: paths_object_def is_path_def)
  next
    case f
    then have "j_put (jlib pf) (JObject kvs) ''Force'' (JBool True) = Inr j'"
      using assms(3) j by (auto simp: paths_step_def dest: liftE_InrE)
    then obtain kvs' where "j' = JObject kvs'" "map_of kvs' = (map_of kvs)(''Force'' \<mapsto> JBool True)"
      using put_object [OF assms(1)] by blast
    then show ?thesis using j f by (intro exI [of _ "[]"]) (simp add: paths_object_def is_path_def)
  next
    case p
    let ?q = "sys_canonical pf (File (SysExists a) # trace s) a"
    have "j_put (jlib pf) (JObject kvs) ''Paths'' (JArray (map JString (ps @ [?q]))) = Inr j'"
      using assms(1,3) j p documented_array(1) [OF assms(1), of "map JString ps" "JString ?q"]
      by (auto simp: paths_step_def is_path_def canonical_path_def monad_simps documented_rules Let_def
          split: if_splits prod.splits sum.splits)
    then obtain kvs' where "j' = JObject kvs'"
      "map_of kvs' = (map_of kvs)(''Paths'' \<mapsto> JArray (map JString (ps @ [?q])))"
      using put_object [OF assms(1)] by blast
    then show ?thesis
      using j p by (intro exI [of _ "[?q]"]) (auto simp: paths_object_def is_path_def canonical_for_def)
  qed
qed

lemma paths_fold_object:
  assumes "json_documented (jlib pf)"
  shows "paths_object j od fo ps \<Longrightarrow> foldM (paths_step pf) j args s = (Inr j', s') \<Longrightarrow>
    \<exists>qs. paths_object j' (od \<or> ''-w'' \<in> set args) (fo \<or> ''-F'' \<in> set args) (ps @ qs) \<and>
      list_all2 (canonical_for pf) qs (filter is_path args)"
proof (induction args arbitrary: j od fo ps s)
  case Nil
  then show ?case by (auto simp: monad_simps intro: exI [of _ "[]"])
next
  case (Cons a args)
  obtain j1 s1 where st: "paths_step pf j a s = (Inr j1, s1)" and r: "foldM (paths_step pf) j1 args s1 = (Inr j', s')"
    using Cons.prems(2) by (auto simp: monad_simps split: prod.splits sum.splits)
  obtain qs where q: "paths_object j1 (od \<or> a = ''-w'') (fo \<or> a = ''-F'') (ps @ qs)"
    "list_all2 (canonical_for pf) qs (filter is_path [a])"
    using paths_step_object [OF assms Cons.prems(1) st] by blast
  obtain rs where "paths_object j' ((od \<or> a = ''-w'') \<or> ''-w'' \<in> set args) ((fo \<or> a = ''-F'') \<or> ''-F'' \<in> set args) ((ps @ qs) @ rs)"
    "list_all2 (canonical_for pf) rs (filter is_path args)"
    using Cons.IH [OF q(1) r] by blast
  then show ?case
    using q(2) list_all2_appendI [OF q(2), of rs "filter is_path args"]
    by (intro exI [of _ "qs @ rs"]) (auto simp: ac_simps eq_commute [of _ a] split: if_splits)
qed

text \<open>The loading loop of the server over paths that are known.\<close>

definition load_paths :: "platform \<Rightarrow> bool \<Rightarrow> bool \<Rightarrow> string list \<Rightarrow> (mgr, bool) M" where
  "load_paths pf od fo ps =
     foldM (\<lambda>error p. bindM (loadAllManifests pf p od fo) (\<lambda>ok. returnM (error \<or> \<not> ok))) False ps"

lemma foldM_map: "foldM f b (map g xs) = foldM (\<lambda>b x. f b (g x)) b xs"
  by (induction xs arbitrary: b) auto

lemma bindM_pure: "m s = (Inr x, s1) \<Longrightarrow> bindM m f s = f x s1"
  by (simp add: bindM_def)

lemma server_loop:
  assumes "json_documented (jlib pf)"
  shows "foldM (\<lambda>error load_path. bindM (liftE (j_get_string (jlib pf) load_path)) (\<lambda>p.
      bindM (loadAllManifests pf p od fo) (\<lambda>ok. returnM (error \<or> \<not> ok)))) False (map JString ps) =
    load_paths pf od fo ps"
  by (simp add: foldM_map load_paths_def documented_scalar(2) [OF assms] liftE_def bindM_returnM_left)

text \<open>
  C22: client and server agree on \<open>load\<close>: the server loads the canonical form of every path of the
  command line, in order, with the two flags the client read anywhere among the arguments, and then
  starts what was loaded.
\<close>

theorem load_request_served:
  assumes "json_documented (jlib pf)" and "paths_request pf ''load'' args t = (Inr msg, t')"
  shows "\<exists>ps. list_all2 (canonical_for pf) ps (filter is_path args) \<and>
    rpc_call c pf msg s = answered (bindM (load_paths pf (''-w'' \<in> set args) (''-F'' \<in> set args) ps)
      (\<lambda>error. thenM (startRunning c pf) (returnM (error_response error)))) s"
proof -
  let ?j = "JObject [(''OverrideDisabled'', JBool False), (''Force'', JBool False), (''Paths'', JArray [])]"
  obtain kw where f: "foldM (paths_step pf) ?j args t = (Inr kw, t')" and msg: "msg = JArray [JString ''load'', kw]"
    using assms(2) by (auto simp: paths_request_def monad_simps split: prod.splits sum.splits)
  have "paths_object ?j False False []" by (simp add: paths_object_def)
  from paths_fold_object [OF assms(1) this f] obtain ps where
    ps: "paths_object kw (''-w'' \<in> set args) (''-F'' \<in> set args) ps" "list_all2 (canonical_for pf) ps (filter is_path args)"
    by auto
  then obtain kvs where k: "kw = JObject kvs" "map_of kvs ''OverrideDisabled'' = Some (JBool (''-w'' \<in> set args))"
    "map_of kvs ''Force'' = Some (JBool (''-F'' \<in> set args))" "map_of kvs ''Paths'' = Some (JArray (map JString ps))"
    by (auto simp: paths_object_def)
  note J = assms(1)
  have args: "arg_bool pf msg ''Force'' s = (Inr (''-F'' \<in> set args), s)"
    "arg_bool pf msg ''OverrideDisabled'' s = (Inr (''-w'' \<in> set args), s)"
    "arg_key pf msg ''Paths'' s = (Inr (JArray (map JString ps)), s)"
    using J k by (simp_all add: msg arg_bool_def arg_key_object bindM_apply documented_rules liftE_apply)
  have "rpc_call c pf msg s = answered (rpc_op_load c pf msg) s"
    using J by (simp add: msg rpc_call_eq handlers_def)
  also have "rpc_op_load c pf msg s = bindM (load_paths pf (''-w'' \<in> set args) (''-F'' \<in> set args) ps)
      (\<lambda>error. thenM (startRunning c pf) (returnM (error_response error))) s"
    by (simp only: rpc_op_load_def bindM_pure [where m = "arg_bool pf msg ''Force''", OF args(1)]
        bindM_pure [where m = "arg_bool pf msg ''OverrideDisabled''", OF args(2)]
        bindM_pure [where m = "arg_key pf msg ''Paths''", OF args(3)]
        documented_array(2) [OF J] server_loop [OF J])
  then have "answered (rpc_op_load c pf msg) s = answered (bindM (load_paths pf (''-w'' \<in> set args) (''-F'' \<in> set args) ps)
      (\<lambda>error. thenM (startRunning c pf) (returnM (error_response error)))) s"
    by (rule answered_cong)
  finally show ?thesis using ps(2) by blast
qed
section \<open>Submitting a job\<close>

lemma submit_rest:
  assumes "json_documented (jlib pf)"
  shows "map_of kvs ''ProgramArguments'' = Some (JArray (map JString bs)) \<Longrightarrow>
    \<exists>kvs'. submit_loop pf False (JObject kvs) as t = (Inr (JObject kvs'), t) \<and>
      map_of kvs' = (map_of kvs)(''ProgramArguments'' \<mapsto> JArray (map JString (bs @ as)))"
proof (induction as arbitrary: kvs bs)
  case Nil
  then show ?case by (auto simp: monad_simps fun_upd_idem)
next
  case (Cons a as)
  obtain k1 where k1: "j_put (jlib pf) (JObject kvs) ''ProgramArguments'' (JArray (map JString (bs @ [a]))) = Inr (JObject k1)"
    "map_of k1 = (map_of kvs)(''ProgramArguments'' \<mapsto> JArray (map JString (bs @ [a])))"
    using documented_put [OF assms] by blast
  have "map_of k1 ''ProgramArguments'' = Some (JArray (map JString (bs @ [a])))" using k1(2) by simp
  from Cons.IH [OF this] obtain k2 where "submit_loop pf False (JObject k1) as t = (Inr (JObject k2), t)"
    "map_of k2 = (map_of k1)(''ProgramArguments'' \<mapsto> JArray (map JString ((bs @ [a]) @ as)))" by blast
  then show ?case
    using Cons.prems k1 documented_array(1) [OF assms, of "map JString bs" "JString a"]
    by (auto simp: monad_simps documented_at [OF assms])
qed

lemma submit_key_inj: "submit_key a = Some K \<Longrightarrow> submit_key b = Some K \<Longrightarrow> a = b"
  by (auto simp: submit_key_def split: if_splits)

text \<open>The options before \<open>--\<close>, in any order: the last value of each decides.\<close>

lemma submit_opts:
  assumes "json_documented (jlib pf)"
  shows "\<forall>(k, v) \<in> set opts. submit_key k \<noteq> None \<Longrightarrow>
    \<exists>kvs'. (\<forall>rest. submit_loop pf True (JObject kvs) (concat (map (\<lambda>(k, v). [k, v]) opts) @ rest) t =
        submit_loop pf True (JObject kvs') rest t) \<and>
      (\<forall>k K. submit_key k = Some K \<longrightarrow> map_of kvs' K =
        (case map_of (rev opts) k of Some v \<Rightarrow> Some (JString v) | None \<Rightarrow> map_of kvs K)) \<and>
      (\<forall>K. K \<notin> {''Program'', ''Label'', ''StandardOutPath'', ''StandardErrorPath''} \<longrightarrow> map_of kvs' K = map_of kvs K)"
proof (induction opts arbitrary: kvs)
  case (Cons kv opts)
  obtain k v where kv: "kv = (k, v)" by fastforce
  then obtain K where K: "submit_key k = Some K" using Cons.prems by auto
  then have range: "K \<in> {''Program'', ''Label'', ''StandardOutPath'', ''StandardErrorPath''}"
    by (auto simp: submit_key_def split: if_splits)
  have "\<exists>kvs1. (\<forall>rest. submit_loop pf True (JObject kvs) (k # v # rest) t = submit_loop pf True (JObject kvs1) rest t) \<and>
      map_of kvs1 = (map_of kvs)(K \<mapsto> JString v)"
  proof -
    obtain kvs1 where "j_put (jlib pf) (JObject kvs) K (JString v) = Inr (JObject kvs1)"
      and "map_of kvs1 = (map_of kvs)(K \<mapsto> JString v)"
      using documented_put [OF assms] by blast
    then show ?thesis using K by (auto simp: liftE_def bindM_returnM_left intro!: exI [of _ kvs1])
  qed
  then obtain kvs1 where k1: "\<And>rest. submit_loop pf True (JObject kvs) (k # v # rest) t = submit_loop pf True (JObject kvs1) rest t"
    and m1: "map_of kvs1 = (map_of kvs)(K \<mapsto> JString v)" by blast
  have "\<forall>(k, v) \<in> set opts. submit_key k \<noteq> None" using Cons.prems by simp
  from Cons.IH [OF this, of kvs1] obtain kvs2
    where k2: "\<And>rest. submit_loop pf True (JObject kvs1) (concat (map (\<lambda>(k, v). [k, v]) opts) @ rest) t =
        submit_loop pf True (JObject kvs2) rest t"
      and m2: "\<And>k K. submit_key k = Some K \<Longrightarrow> map_of kvs2 K =
        (case map_of (rev opts) k of Some v \<Rightarrow> Some (JString v) | None \<Rightarrow> map_of kvs1 K)"
      and n2: "\<And>K. K \<notin> {''Program'', ''Label'', ''StandardOutPath'', ''StandardErrorPath''} \<Longrightarrow> map_of kvs2 K = map_of kvs1 K"
    by blast
  have "map_of kvs2 L = (case map_of (rev (kv # opts)) l of Some v \<Rightarrow> Some (JString v) | None \<Rightarrow> map_of kvs L)"
    if "submit_key l = Some L" for l L
    using m2 [OF that] submit_key_inj [OF that, of k] K that
    by (auto simp: kv m1 map_add_def split: option.split)
  then show ?case
    using k1 k2 n2 m1 range by (intro exI [of _ kvs2]) (auto simp: kv)
qed auto

text \<open>The manifest a submitted job gets.\<close>

definition submitted :: "string \<Rightarrow> (string \<times> string) list \<Rightarrow> string list \<Rightarrow> manifest" where
  "submitted l opts as = default_manifest\<lparr>
     label := l,
     program := Some (case map_of (rev opts) ''-p'' of Some p \<Rightarrow> p | None \<Rightarrow> hd as),
     program_arguments := (if as = [] then [the (map_of (rev opts) ''-p'')] else as),
     stdout_path := (case map_of (rev opts) ''-o'' of Some p \<Rightarrow> p | None \<Rightarrow> ''/dev/null''),
     stderr_path := (case map_of (rev opts) ''-e'' of Some p \<Rightarrow> p | None \<Rightarrow> ''/dev/null'')\<rparr>"

lemma submitted_parses:
  assumes J: "json_documented (jlib pf)" and l: "label_ok l"
    and kvs: "map_of kvs ''Label'' = Some (JString l)" "map_of kvs ''Program'' = map_option JString (map_of (rev opts) ''-p'')"
      "map_of kvs ''StandardOutPath'' = map_option JString (map_of (rev opts) ''-o'')"
      "map_of kvs ''StandardErrorPath'' = map_option JString (map_of (rev opts) ''-e'')"
      "map_of kvs ''ProgramArguments'' = Some (JArray (map JString as))"
    and other: "\<And>K. K \<notin> {''Program'', ''Label'', ''StandardOutPath'', ''StandardErrorPath'', ''ProgramArguments''} \<Longrightarrow>
      map_of kvs K = None"
    and args: "as \<noteq> [] \<or> map_of (rev opts) ''-p'' \<noteq> None"
  shows "get_manifest pf (JObject kvs) = Inr (submitted l opts as)"
proof -
  have "run_steps (from_json_steps (jlib pf) (JObject kvs)) default_manifest = Inr (default_manifest\<lparr>
      label := l, program := map_of (rev opts) ''-p'', program_arguments := as,
      stdout_path := stdout_path (submitted l opts as), stderr_path := stderr_path (submitted l opts as)\<rparr>)"
    using J l kvs other
    by (cases "map_of (rev opts) ''-p''"; cases "map_of (rev opts) ''-o''"; cases "map_of (rev opts) ''-e''")
      (simp_all add: from_json_steps_def documented_rules on_key_def unsupported_key_def set_label_def mk_label_def
        set_string_def label_ok_def submitted_def default_manifest_def)
  then show ?thesis
    using l args
    by (cases "map_of (rev opts) ''-p''")
      (auto simp: get_manifest_def from_json_def rectify_def validate_def label_string_def label_ok_def
        submitted_def default_manifest_def)
qed

text \<open>
  C23: a job submitted on the command line is the job the server loads. For options \<open>-l\<close>, \<open>-p\<close>,
  \<open>-o\<close> and \<open>-e\<close> in any order and number, the last value of each counting, and an argument vector
  after \<open>--\<close>, the manifest the server parses from the client's request has exactly those and
  defaults elsewhere; without \<open>-l\<close> the client refuses. The defaults include that the job is neither
  kept alive nor run at load, whatever the manual says of \<open>submit\<close>: a job with this manifest that is
  loaded is not started, its \<open>Bootstrap\<close> is blocked and makes no call.
\<close>

theorem submit_roundtrip:
  assumes "json_documented (jlib pf)" and "\<forall>(k, v) \<in> set opts. submit_key k \<noteq> None"
    and "as \<noteq> [] \<or> map_of (rev opts) ''-p'' \<noteq> None"
  shows "case map_of (rev opts) ''-l'' of
      None \<Rightarrow> submit_request pf (concat (map (\<lambda>(k, v). [k, v]) opts) @ ''--'' # as) t =
        (Inl (Throw (RuntimeError ''Label is required'')), t)
    | Some l \<Rightarrow> label_ok l \<longrightarrow>
        (\<exists>kw. submit_request pf (concat (map (\<lambda>(k, v). [k, v]) opts) @ ''--'' # as) t =
            (Inr (JArray [JString ''submit'', kw]), t) \<and>
          get_manifest pf kw = Inr (submitted l opts as)) \<and>
        (\<forall>x r. jb_manifest (this x) = submitted l opts as \<and> get_job_state x = Loaded \<and>
            override_enabled (jlib pf) (sf_current x) l = Inr r \<longrightarrow>
          job_execute pf Bootstrap x = (Inr Fsm_BlockedByGuard, x))"
proof -
  let ?k0 = "[(''ProgramArguments'', JArray [])]"
  note key = submit_key_def
  obtain k1 where k1: "\<And>rest. submit_loop pf True (JObject ?k0) (concat (map (\<lambda>(k, v). [k, v]) opts) @ rest) t =
        submit_loop pf True (JObject k1) rest t"
    and m1: "\<And>k K. submit_key k = Some K \<Longrightarrow> map_of k1 K =
        (case map_of (rev opts) k of Some v \<Rightarrow> Some (JString v) | None \<Rightarrow> map_of ?k0 K)"
    and n1: "\<And>K. K \<notin> {''Program'', ''Label'', ''StandardOutPath'', ''StandardErrorPath''} \<Longrightarrow> map_of k1 K = map_of ?k0 K"
    using submit_opts [OF assms(1,2), of ?k0 t] by blast
  have "map_of k1 ''ProgramArguments'' = Some (JArray (map JString []))" by (simp add: n1)
  from submit_rest [OF assms(1) this, of as t] obtain k2 where
    k2: "submit_loop pf False (JObject k1) as t = (Inr (JObject k2), t)"
    and m2: "map_of k2 = (map_of k1)(''ProgramArguments'' \<mapsto> JArray (map JString as))" by auto
  have opt: "map_of k2 K = map_option JString (map_of (rev opts) k)" if "submit_key k = Some K" for k K
    using m1 [OF that] that by (auto simp: m2 key split: if_splits option.split)
  have lab: "map_of k2 ''Label'' = map_option JString (map_of (rev opts) ''-l'')"
    and rest: "map_of k2 ''Program'' = map_option JString (map_of (rev opts) ''-p'')"
      "map_of k2 ''StandardOutPath'' = map_option JString (map_of (rev opts) ''-o'')"
      "map_of k2 ''StandardErrorPath'' = map_option JString (map_of (rev opts) ''-e'')"
    by (rule opt; simp add: key)+
  have req: "submit_request pf (concat (map (\<lambda>(k, v). [k, v]) opts) @ ''--'' # as) t =
      (if map_of (rev opts) ''-l'' = None then Inl (Throw (RuntimeError ''Label is required''))
       else Inr (JArray [JString ''submit'', JObject k2]), t)"
    using k1 [of "''--'' # as"] k2 lab assms(1)
    by (simp add: submit_request_def bindM_apply key documented_rules returnM_apply throwM_apply)
  show ?thesis
  proof (cases "map_of (rev opts) ''-l''")
    case (Some l)
    have "get_manifest pf (JObject k2) = Inr (submitted l opts as)" if "label_ok l"
      by (rule submitted_parses [OF assms(1) that]) (use assms(3) lab Some rest in \<open>simp_all add: m2 n1\<close>)
    moreover have "job_execute pf Bootstrap x = (Inr Fsm_BlockedByGuard, x)"
      if "jb_manifest (this x) = submitted l opts as" "get_job_state x = Loaded"
        "override_enabled (jlib pf) (sf_current x) l = Inr r" for x r
      by (rule idle_bootstrap) (use that in \<open>simp_all add: submitted_def default_manifest_def\<close>)
    ultimately show ?thesis using Some req by auto
  qed (simp add: req)
qed

section \<open>Listing the jobs\<close>

lemma list_fold:
  "foldM (\<lambda>rows (l, jid). bindM (with_job jid (getJ (\<lambda>j. j))) (\<lambda>j.
      bindM (lift_abrupt (label_string pf (label (jb_manifest j)))) (\<lambda>_. returnM (rows @ [list_row j])))) acc js s =
     (Inr rows, s') \<Longrightarrow>
   s' = s \<and> rows = acc @ map (\<lambda>(l, jid). list_row (the (heap s jid))) js"
proof (induction js arbitrary: acc)
  case Nil
  then show ?case by (simp add: monad_simps)
next
  case (Cons p js)
  obtain l jid where p: "p = (l, jid)" by fastforce
  show ?case
  proof (cases "heap s jid")
    case None
    then show ?thesis using Cons.prems p by (simp add: monad_simps with_job_apply)
  next
    case (Some j)
    have g: "with_job jid (getJ (\<lambda>j. j)) s = (Inr j, s)"
      using Some by (simp add: with_job_apply getJ_def monad_simps job_out_in)
    show ?thesis
    proof (cases "label_string pf (label (jb_manifest j))")
      case (Inl e)
      then show ?thesis
        using Cons.prems by (simp add: p bindM_apply g lift_abrupt_def failM_apply)
    next
      case (Inr x)
      then show ?thesis
        using Cons.prems Cons.IH [of "acc @ [list_row j]"] by (simp add: p bindM_apply g lift_abrupt_def Some returnM_apply)
    qed
  qed
qed

lemma listJobs_rows:
  "listJobs pf s = (Inr rows, s') \<Longrightarrow> s' = s \<and> rows = JArray (map (\<lambda>(l, jid). list_row (the (heap s jid))) (jobs s))"
  by (auto simp: listJobs_def monad_simps split: prod.splits sum.splits dest: list_fold)

text \<open>The line of the table for a job.\<close>

definition job_line :: "job \<Rightarrow> string" where
  "job_line j = print_row (if jb_pid j = 0 then ''-'' else to_string (jb_pid j))
     (to_string (jb_last_exit_status j)) (label (jb_manifest j))"

lemma list_line_row:
  assumes "json_documented (jlib pf)" and "- (2 ^ 31) \<le> jb_last_exit_status j" and "jb_last_exit_status j < 2 ^ 31"
  shows "list_line pf (list_row j) t = (Inr (job_line j), t)"
proof -
  have "sint (word_of_int (jb_last_exit_status j) :: 32 word) = jb_last_exit_status j"
    using assms(2,3) by (simp add: sint_sbintrunc' signed_take_bit_int_eq_self)
  then show ?thesis
    using assms(1) by (simp add: list_line_def list_row_def row_at_def documented_rules monad_simps job_line_def)
qed

text \<open>
  The status of a job whose process was killed by a signal: - 1, whichever signal it was.
\<close>

lemma signalled_line:
  assumes "WIFSIGNALED st"
  shows "job_line (record_status st j) = print_row ''-'' ''-1'' (label (jb_manifest j))"
proof -
  have "\<not> WIFEXITED st" using assms wait_status_exclusive(1) by blast
  moreover have "to_string (- 1) = ''-1''"
    by (simp add: to_string_def show_base.simps digit_char_def) (simp add: char_of_def bit_0)
  ultimately show ?thesis by (simp add: job_line_def record_status_def)
qed

text \<open>
  C25: \<open>launchctl list\<close> prints one line for each loaded job, with its process, its last exit status
  and its label, for whatever the server lists. The status of a job whose process was killed is - 1 for
  every signal; the manual promises the negated number of the signal.
\<close>

theorem list_printed:
  assumes "json_documented (jlib pf)" and "listJobs pf s = (Inr rows, s')"
    and "\<forall>j \<in> ran (heap s). - (2 ^ 31) \<le> jb_last_exit_status j \<and> jb_last_exit_status j < 2 ^ 31"
    and "\<forall>x \<in> set (jobs s). heap s (snd x) \<noteq> None"
  shows "print_rows pf rows t =
    (Inr (list_header @ concat (map (\<lambda>x. job_line (the (heap s (snd x)))) (jobs s))), t) \<and>
    (\<forall>st j. WIFSIGNALED st \<longrightarrow>
      job_line (record_status st j) = print_row ''-'' ''-1'' (label (jb_manifest j)))"
proof -
  have st: "- (2 ^ 31) \<le> jb_last_exit_status (the (heap s (snd x))) \<and> jb_last_exit_status (the (heap s (snd x))) < 2 ^ 31"
    if "x \<in> set (jobs s)" for x
  proof -
    obtain j where j: "heap s (snd x) = Some j" using assms(4) \<open>x \<in> set (jobs s)\<close> by fastforce
    then have "j \<in> ran (heap s)" by (rule ranI)
    then show ?thesis using assms(3) j by simp
  qed
  have l: "foldM (\<lambda>out row. bindM (list_line pf row) (\<lambda>line. returnM (out @ line))) acc
      (map (\<lambda>(l, jid). list_row (the (heap s jid))) xs) t =
    (Inr (acc @ concat (map (\<lambda>x. job_line (the (heap s (snd x)))) xs)), t)" if "set xs \<subseteq> set (jobs s)" for acc xs
    using that
  proof (induction xs arbitrary: acc)
    case (Cons x xs)
    then show ?case
      using list_line_row [OF assms(1), of "the (heap s (snd x))" t] st [of x]
      by (simp add: monad_simps split_beta)
  qed (simp add: monad_simps)
  show ?thesis
    using listJobs_rows [OF assms(2)] l [of "jobs s" list_header]
    by (simp add: print_rows_def documented_array(2) [OF assms(1)] signalled_line)
qed

section \<open>Concrete requests\<close>

lemma ok_a: "label_ok ''a''"
  by (simp add: label_ok_def)

theorem label_requests_served_witness:
  "bindM (kill_request [''TERM'', ''a'']) (rpc_call sample_config null_platform) blank_mgr = 
     (Inr (error_response False), blank_mgr)"
proof -
  have n: "getSignalByName ''TERM'' = Some 15" by code_simp
  have "bindM (kill_request [''TERM'', ''a'']) (rpc_call sample_config null_platform) blank_mgr =
      answered (bindM (mgr_killJob null_platform ''a'' ''TERM'') (\<lambda>b. returnM (error_response b))) blank_mgr"
    using label_requests_served [of null_platform "''a''" "[]" sample_config blank_mgr "''TERM''"]
      nl_json_documented ok_a by simp
  then show ?thesis
    by (simp add: n answered_def mgr_killJob_def jobExists_def label_string_def lift_abrupt_def monad_simps)
qed

definition start_platform :: platform where
  "start_platform = null_platform\<lparr>jlib := nl_json\<lparr>j_parse :=
     \<lambda>_. Inr (JArray [JString ''start'', JObject [(''Label'', JString ''a'')]])\<rparr>\<rparr>"

theorem start_stop_unanswered_witness:
  "rpc_dispatch sample_config start_platform blank_mgr =
     (Inr (), blank_mgr\<lparr>trace := [Proc (SysClose 0), Sock (SysRead 0), Sock (SysAccept 5)],
        chan := \<lparr>ch_path = [], ch_sockfd = 5, ch_peerfd = - 1\<rparr>\<rparr>)"
proof -
  let ?ch = "\<lparr>ch_path = [], ch_sockfd = 5, ch_peerfd = 0\<rparr>"
  let ?s1 = "blank_mgr\<lparr>trace := [Sock (SysAccept 5)]\<rparr>"
  let ?s2 = "blank_mgr\<lparr>trace := [Sock (SysRead 0), Sock (SysAccept 5)], chan := ?ch\<rparr>"
  have j: "json_documented (jlib start_platform)"
    using nl_json_documented by (simp add: start_platform_def json_documented_def)
  have a: "ch_accept start_platform (chan blank_mgr) blank_mgr = (Inr ?ch, ?s1)"
    by (simp add: ch_accept_def monad_simps start_platform_def null_platform_def)
  have r: "readMessage start_platform ?ch (?s1\<lparr>chan := ?ch\<rparr>) = label_request ''start'' (''a'' # []) ?s2"
    by (simp add: readMessage_def ch_sd_def monad_simps label_request_eq start_platform_def null_platform_def Let_def)
  have "rpc_dispatch sample_config start_platform blank_mgr =
      (case ch_disconnect start_platform ?ch ?s2 of (Inr ch', s3) \<Rightarrow> (Inr (), s3\<lparr>chan := ch'\<rparr>) | (Inl e, s3) \<Rightarrow> (Inl e, s3))"
    by (rule start_stop_unanswered [OF j _ a r]) simp
  then show ?thesis by (simp add: ch_disconnect_def monad_simps)
qed

definition file_platform :: platform where
  "file_platform = null_platform\<lparr>sys_int := \<lambda>_ c. (if c = File (SysExists ''/m'') then 1 else 0, 0)\<rparr>"

theorem load_request_served_witness:
  "\<exists>msg t'. paths_request file_platform ''load'' [''-w'', ''/m''] init_os = (Inr msg, t') \<and>
     rpc_call sample_config file_platform msg blank_mgr =
       answered (bindM (load_paths file_platform True False [''/m''])
         (\<lambda>error. thenM (startRunning sample_config file_platform) (returnM (error_response error)))) blank_mgr"
proof -
  let ?msg = "JArray [JString ''load'', JObject [(''OverrideDisabled'', JBool True), (''Force'', JBool False),
      (''Paths'', JArray [JString ''/m''])]]"
  have m: "paths_request file_platform ''load'' [''-w'', ''/m''] init_os =
      (Inr ?msg, init_os\<lparr>trace := [File (SysCanonical ''/m''), File (SysExists ''/m'')]\<rparr>)"
    by (simp add: paths_request_def paths_step_def canonical_path_def monad_simps nl_json_simps file_platform_def null_platform_def
        Let_def init_os_def)
  have "ps = [''/m'']" if "list_all2 (canonical_for file_platform) ps (filter is_path [''-w'', ''/m''])" for ps
    using that by (auto simp: is_path_def canonical_for_def file_platform_def null_platform_def list_all2_Cons2)
  then show ?thesis
    using load_request_served [OF _ m, of sample_config blank_mgr] nl_json_documented m by (auto simp: file_platform_def)
qed

theorem submit_roundtrip_witness:
  "\<exists>kw. submit_request null_platform [''-o'', ''/o'', ''-l'', ''b'', ''-l'', ''a'', ''--'', ''/p'', ''-x''] init_os =
      (Inr (JArray [JString ''submit'', kw]), init_os) \<and>
    get_manifest null_platform kw = Inr (default_manifest\<lparr>label := ''a'', program := Some ''/p'',
      program_arguments := [''/p'', ''-x''], stdout_path := ''/o''\<rparr>) \<and>
    job_execute null_platform Bootstrap (init_ctx (mk_job None (default_manifest\<lparr>label := ''a'', program := Some ''/p'',
      program_arguments := [''/p'', ''-x''], stdout_path := ''/o''\<rparr>))) =
     (Inr Fsm_BlockedByGuard, init_ctx (mk_job None (default_manifest\<lparr>label := ''a'', program := Some ''/p'',
      program_arguments := [''/p'', ''-x''], stdout_path := ''/o''\<rparr>)))"
proof -
  let ?o = "[(''-o'', ''/o''), (''-l'', ''b''), (''-l'', ''a'')]" and ?as = "[''/p'', ''-x'']"
  have m: "submitted ''a'' ?o ?as = default_manifest\<lparr>label := ''a'', program := Some ''/p'',
      program_arguments := [''/p'', ''-x''], stdout_path := ''/o''\<rparr>"
    by (simp add: submitted_def default_manifest_def)
  have "\<forall>(k, v) \<in> set ?o. submit_key k \<noteq> None" by (simp add: submit_key_def)
  from submit_roundtrip [OF nl_json_documented [folded null_platform_jlib] this, of ?as init_os] ok_a
  have "(\<exists>kw. submit_request null_platform [''-o'', ''/o'', ''-l'', ''b'', ''-l'', ''a'', ''--'', ''/p'', ''-x''] init_os =
        (Inr (JArray [JString ''submit'', kw]), init_os) \<and>
      get_manifest null_platform kw = Inr (submitted ''a'' ?o ?as)) \<and>
    (\<forall>x r. jb_manifest (this x) = submitted ''a'' ?o ?as \<and> get_job_state x = Loaded \<and>
        override_enabled (jlib null_platform) (sf_current x) ''a'' = Inr r \<longrightarrow>
      job_execute null_platform Bootstrap x = (Inr Fsm_BlockedByGuard, x))"
    by simp
  moreover have "override_enabled nl_json default_state_doc ''a'' = Inr None"
    by (simp add: override_enabled_def default_state_doc_def nl_json_simps)
  ultimately show ?thesis by (auto simp: m mk_job_def get_job_state_def)
qed

theorem list_printed_witness:
  "\<exists>rows. listJobs null_platform (blank_mgr\<lparr>heap := [0 \<mapsto> running_job], jobs := [(''a'', 0)]\<rparr>) =
      (Inr rows, blank_mgr\<lparr>heap := [0 \<mapsto> running_job], jobs := [(''a'', 0)]\<rparr>) \<and>
    print_rows null_platform rows init_os = (Inr (list_header @ job_line running_job), init_os) \<and>
    job_line (record_status 15 running_job) = print_row ''-'' ''-1'' ''a''"
proof -
  let ?s = "blank_mgr\<lparr>heap := [0 \<mapsto> running_job], jobs := [(''a'', 0)]\<rparr>"
  have "with_job 0 (getJ (\<lambda>j. j)) ?s = (Inr running_job, ?s)"
    by (simp add: with_job_apply getJ_def monad_simps job_out_in)
  then have l: "listJobs null_platform ?s = (Inr (JArray [list_row running_job]), ?s)"
    by (simp add: listJobs_def bindM_apply getsM_apply returnM_apply lift_abrupt_def label_string_def
        running_job_def mk_job_def daemon_manifest_def)
  have r: "\<forall>j \<in> ran (heap ?s). - (2 ^ 31) \<le> jb_last_exit_status j \<and> jb_last_exit_status j < 2 ^ 31"
    by (simp add: running_job_def mk_job_def)
  have "WIFSIGNALED 15" by (simp add: wait_status_defs)
  then show ?thesis
    using list_printed [OF _ l r, of init_os] l nl_json_documented by simp
qed

end
