(* ===== verification/Registry.thy ===== *)
theory Registry
  imports DaemonFacts
begin

text \<open>
  What the manager promises, without objects, pointers, events and clients: a registry of the
  manifests that wait to be started and of those that are loaded, and a state that only advances.
  Every step of the daemon is a sequence of steps of the registry.
\<close>

section \<open>The registry\<close>

record registry =
  phase :: mgr_state
  queued :: "string \<rightharpoonup> manifest"
  loaded :: "string \<rightharpoonup> manifest"

text \<open>
  A manifest is queued before the shutdown, when it is well formed and its label is free; it is
  started before the shutdown, and taken off the queue by that alone; a job leaves at any time; the
  manager moves along its diagram.
\<close>

inductive reg_step :: "registry \<Rightarrow> registry \<Rightarrow> bool" where
  reg_load: "phase a < GracefulShutdown \<Longrightarrow> manifest_ok m \<Longrightarrow> queued a (label m) = None \<Longrightarrow>
    loaded a (label m) = None \<Longrightarrow> reg_step a (a\<lparr>queued := (queued a)(label m \<mapsto> m)\<rparr>)"
| reg_start: "phase a < GracefulShutdown \<Longrightarrow> queued a l = Some m \<Longrightarrow> loaded a l = None \<Longrightarrow>
    reg_step a (a\<lparr>queued := (queued a)(l := None), loaded := (loaded a)(l \<mapsto> m)\<rparr>)"
| reg_leave: "loaded a l = Some m \<Longrightarrow> reg_step a (a\<lparr>loaded := (loaded a)(l := None)\<rparr>)"
| reg_move: "mgr_edge (phase a) tr st \<Longrightarrow> reg_step a (a\<lparr>phase := st\<rparr>)"

definition reg_init :: registry where
  "reg_init = \<lparr>phase = Unconfigured, queued = Map.empty, loaded = Map.empty\<rparr>"

text \<open>What the registry guarantees by itself.\<close>

definition reg_ok :: "registry \<Rightarrow> bool" where
  "reg_ok a \<longleftrightarrow> dom (queued a) \<inter> dom (loaded a) = {} \<and>
     (\<forall>l m. queued a l = Some m \<or> loaded a l = Some m \<longrightarrow> label m = l \<and> manifest_ok m)"

lemma reg_step_ok: "reg_step a b \<Longrightarrow> reg_ok a \<Longrightarrow> reg_ok b"
proof (induction rule: reg_step.induct)
  case (reg_load a m)
  then show ?case by (auto simp: reg_ok_def split: if_splits)
next
  case (reg_start a l m)
  then show ?case by (fastforce simp: reg_ok_def split: if_splits)
next
  case (reg_leave a l m)
  then show ?case by (auto simp: reg_ok_def split: if_splits)
next
  case (reg_move a tr st)
  then show ?case by (simp add: reg_ok_def)
qed

lemma reg_steps_ok: "reg_step\<^sup>*\<^sup>* a b \<Longrightarrow> reg_ok a \<Longrightarrow> reg_ok b"
  by (induction rule: rtranclp_induct) (auto intro: reg_step_ok)

lemma reg_init_ok: "reg_ok reg_init"
  by (simp add: reg_ok_def reg_init_def)

text \<open>Once the shutdown has begun the queue stays as it is, and jobs only leave.\<close>

lemma reg_step_shutdown:
  "reg_step a b \<Longrightarrow> GracefulShutdown \<le> phase a \<Longrightarrow>
   GracefulShutdown \<le> phase b \<and> queued b = queued a \<and> loaded b \<subseteq>\<^sub>m loaded a"
  by (induction rule: reg_step.induct)
    (auto simp: map_le_def mgr_order dest: mgr_edge_rank)

lemma reg_steps_shutdown:
  "reg_step\<^sup>*\<^sup>* a b \<Longrightarrow> GracefulShutdown \<le> phase a \<Longrightarrow>
   GracefulShutdown \<le> phase b \<and> queued b = queued a \<and> loaded b \<subseteq>\<^sub>m loaded a"
  by (induction rule: rtranclp_induct) (auto dest: reg_step_shutdown intro: map_le_trans)

lemma reg_leave_all: "finite D \<Longrightarrow> reg_step\<^sup>*\<^sup>* a (a\<lparr>loaded := loaded a |` (- D)\<rparr>)"
proof (induction D rule: finite_induct)
  case empty
  then show ?case by (simp add: restrict_map_def)
next
  case (insert l D)
  let ?b = "a\<lparr>loaded := loaded a |` (- D)\<rparr>"
  have e: "a\<lparr>loaded := loaded a |` (- insert l D)\<rparr> = ?b\<lparr>loaded := (loaded ?b)(l := None)\<rparr>"
    by (auto simp: restrict_map_def fun_eq_iff)
  show ?case
  proof (cases "loaded ?b l")
    case None
    then have "(loaded ?b)(l := None) = loaded ?b" by (rule fun_upd_idem)
    then have b: "?b\<lparr>loaded := (loaded ?b)(l := None)\<rparr> = ?b" by (simp only:) simp
    show ?thesis unfolding e b by (rule insert.IH)
  next
    case (Some m)
    show ?thesis unfolding e by (rule rtranclp.rtrancl_into_rtrancl [OF insert.IH reg_leave [OF Some]])
  qed
qed

section \<open>The registry of a manager\<close>

text \<open>\<open>held h xs l\<close>: the manifest of the object that the map \<open>xs\<close> owns under the label \<open>l\<close>.\<close>

definition held :: "(nat \<rightharpoonup> manifest) \<Rightarrow> (string \<times> nat) list \<Rightarrow> string \<rightharpoonup> manifest" where
  "held h xs l = Option.bind (map_of xs l) h"

fun reg_of :: "mgr_view \<Rightarrow> registry" where
  "reg_of (h, n, js, ps, d, ch, st, r) =
     \<lparr>phase = st, queued = held h (pend_owned ps), loaded = held h js\<rparr>"

definition registry_of :: "mgr \<Rightarrow> registry" where
  "registry_of s = reg_of (view s)"

lemma registry_of_simps:
  "phase (registry_of s) = mstate s"
  "queued (registry_of s) = held (map_option jb_manifest \<circ> heap s) (pend_owned (pending_jobs s))"
  "loaded (registry_of s) = held (map_option jb_manifest \<circ> heap s) (jobs s)"
  by (simp_all add: registry_of_def view_def)

lemma held_agree: "(\<And>x. x \<in> set xs \<Longrightarrow> h' (snd x) = h (snd x)) \<Longrightarrow> held h' xs = held h xs"
  by (auto simp: held_def fun_eq_iff split: bind_split dest!: map_of_SomeD)

lemma held_Nil: "held h [] = Map.empty"
  by (simp add: held_def fun_eq_iff)

lemma held_append1: "map_of xs l = None \<Longrightarrow> held h (xs @ [(l, i)]) = (held h xs)(l := h i)"
  by (auto simp: held_def fun_eq_iff map_add_def split: option.split)

lemma held_delete: "held h (AList.delete l xs) = (held h xs)(l := None)"
  by (auto simp: held_def fun_eq_iff delete_conv')

section \<open>The operations are steps of the registry\<close>

text \<open>
  \<open>follows a v\<close>: the objects of the manager are owned as they should, and its registry is reached
  from \<open>a\<close>. \<open>follows_in st a v\<close>: it is also in the state \<open>st\<close>.
\<close>

definition follows :: "registry \<Rightarrow> mgr_view \<Rightarrow> bool" where
  "follows a v \<longleftrightarrow> ok_view v \<and> reg_step\<^sup>*\<^sup>* a (reg_of v)"

definition follows_in :: "mgr_state \<Rightarrow> registry \<Rightarrow> mgr_view \<Rightarrow> bool" where
  "follows_in st a v \<longleftrightarrow> follows a v \<and> phase (reg_of v) = st"

lemma phase_reg_of: "phase (reg_of (view s)) = mstate s"
  by (simp add: view_def)

lemma follows_step:
  "follows a (view s) \<Longrightarrow> reg_step\<^sup>*\<^sup>* (registry_of s) (registry_of s') \<Longrightarrow> ok_view (view s') \<Longrightarrow> follows a (view s')"
  by (auto simp: follows_def registry_of_def intro: rtranclp_trans)

lemma owned_below:
  assumes "mgr_ok s" and "x \<in> set (jobs s) \<union> set (pend_owned (pending_jobs s))"
  shows "snd x < next_id s" and "\<exists>m. (map_option jb_manifest \<circ> heap s) (snd x) = Some m \<and> label m = fst x"
proof -
  have x: "x \<in> set (jobs s @ pend_owned (pending_jobs s))" using assms(2) by simp
  have o: "own_ok (map_option jb_manifest \<circ> heap s) (next_id s) (jobs s @ pend_owned (pending_jobs s))"
    using assms(1) by (simp add: mgr_ok_def view_def)
  show "\<exists>m. (map_option jb_manifest \<circ> heap s) (snd x) = Some m \<and> label m = fst x"
    using o x unfolding own_ok_def by blast
  then show "snd x < next_id s"
    using o unfolding own_ok_def by (blast intro: domI)
qed

lemma new_job_registry:
  assumes "fresh_view (label m) (view s)"
  shows "registry_of (snd (new_job path m s)) =
    (registry_of s)\<lparr>queued := (queued (registry_of s))(label m \<mapsto> m)\<rparr>"
proof -
  let ?h = "map_option jb_manifest \<circ> heap s"
  have ok: "mgr_ok s" and fr: "map_of (jobs s) (label m) = None" "map_of (pending_jobs s) (label m) = None"
    using assms by (simp_all add: fresh_view_def mgr_ok_def view_def)
  have h: "map_option jb_manifest \<circ> (heap s)(next_id s \<mapsto> mk_job (Some path) m) = ?h(next_id s \<mapsto> m)"
    by (auto simp: fun_eq_iff mk_job_def)
  have k: "held (?h(next_id s \<mapsto> m)) (jobs s) = held ?h (jobs s)"
    "held (?h(next_id s \<mapsto> m)) (pend_owned (pending_jobs s)) = held ?h (pend_owned (pending_jobs s))"
    by (rule held_agree; use owned_below [OF ok] in force)+
  have "map_of (pend_owned (pending_jobs s)) (label m) = None"
    using fr(2) pend_owned_fst [of "pending_jobs s"] by (auto simp: map_of_eq_None_iff)
  then show ?thesis
    using fr(2) h k
    by (simp add: registry_of_def view_def new_job_def modifyM_def alist_insert_fresh pend_owned_append held_append1)
qed

lemma load_fresh_follows:
  assumes "manifest_ok m" and "st < GracefulShutdown"
  shows "carries (\<lambda>s. follows_in st a (view s) \<and> fresh_view (label m) (view s)) (load_fresh pf m path od fl)
    (\<lambda>s. follows_in st a (view s))"
proof -
  let ?P = "\<lambda>s. follows_in st a (view s) \<and> fresh_view (label m) (view s)"
  have "follows_in st a (view (snd (new_job path m s)))" if p: "?P s" for s
  proof -
    have "reg_step (registry_of s) (registry_of (snd (new_job path m s)))"
      unfolding new_job_registry [OF conjunct2 [OF p]]
    proof (rule reg_load)
      show "phase (registry_of s) < GracefulShutdown"
        using p assms(2) by (simp add: follows_in_def registry_of_def)
      have "map_of (jobs s) (label m) = None" "map_of (pend_owned (pending_jobs s)) (label m) = None"
        using p pend_owned_fst [of "pending_jobs s"] by (auto simp: fresh_view_def view_def map_of_eq_None_iff)
      then show "queued (registry_of s) (label m) = None" "loaded (registry_of s) (label m) = None"
        by (simp_all add: registry_of_simps held_def)
    qed (rule assms)
    moreover have "ok_view (view (snd (new_job path m s)))" using new_job_ok p by blast
    moreover have "mstate (snd (new_job path m s)) = mstate s" by (simp add: new_job_def modifyM_def)
    ultimately show ?thesis
      using p follows_step [OF _ r_into_rtranclp, of a s "snd (new_job path m s)"]
      by (simp add: follows_in_def phase_reg_of)
  qed
  then have n: "carries ?P (thenM (new_job path m) (returnM True)) (\<lambda>s. follows_in st a (view s))"
    by (simp add: carries_def thenM_def bindM_def new_job_def modifyM_def returnM_def)
  have r: "preserves ?P (returnM False :: (mgr, bool) M)" by (rule preserves_returnM)
  show ?thesis
    unfolding load_fresh_def sf_getValue_def
    by (intro carries_thenM carries_bindM carries_if n carries_weaken [OF r] preserves_whenM)
      (auto intro: preserves_getsM preserves_liftE
        preserves_overrideJobEnabled [where P = "\<lambda>v. follows_in st a v \<and> fresh_view (label m) v"])
qed

lemma load_json_follows:
  assumes "st \<noteq> Finished"
  shows "preserves (\<lambda>s. follows_in st a (view s)) (loadManifest_json pf j path od fl)"
proof (unfold preserves_def, intro allI impI)
  fix s assume f: "follows_in st a (view s)"
  have st: "mstate s = st" using f by (simp add: follows_in_def phase_reg_of)
  have "follows_in st a (view (snd (load_checked pf m path od fl s)))"
    if m: "manifest_ok m" and "st \<noteq> GracefulShutdown" for m
  proof -
    have lt: "st < GracefulShutdown" using that(2) assms by (cases st) (simp_all add: mgr_order)
    have "fresh_view (label m) (view s)" if "\<not> taken s (label m)"
    proof -
      have "map_of (jobs s) (label m) = None" "map_of (pending_jobs s) (label m) = None"
        using that by (auto simp: taken_def)
      then show ?thesis using f by (simp add: fresh_view_def follows_in_def follows_def view_def)
    qed
    moreover have "label m \<noteq> []" using m by (simp add: manifest_ok_def label_ok_def)
    ultimately show ?thesis
      using f carriesD [OF load_fresh_follows [OF m lt]] by (auto simp: load_checked_eq)
  qed
  then show "follows_in st a (view (snd (loadManifest_json pf j path od fl s)))"
    using f st parsed_manifest_ok [of pf j]
    by (auto simp: loadManifest_json_def monad_simps split: sum.split abrupt.split)
qed

interpretation load_follows: load_invariant "follows_in Unconfigured a" pf for a pf
  by unfold_locales (rule load_json_follows, simp)

section \<open>Starting what is queued\<close>

lemma pend_owned_clear:
  "distinct (map fst ps) \<Longrightarrow> map_of (pend_owned (AList.update l None ps)) = (map_of (pend_owned ps))(l := None)"
proof (induction ps)
  case (Cons p ps)
  have "l \<notin> fst ` set ps \<Longrightarrow> map_of (pend_owned ps) l = None"
    using pend_owned_fst [of ps] by (auto simp: map_of_eq_None_iff)
  then show ?case
    using Cons by (cases p) (auto split: option.split simp: fun_eq_iff)
qed simp

text \<open>
  The state of the loop over what was queued: \<open>rs\<close> is still to be visited, and nothing else waits.
\<close>

definition starting :: "mgr_state \<Rightarrow> registry \<Rightarrow> (string \<times> nat option) list \<Rightarrow> mgr \<Rightarrow> bool" where
  "starting st a rs s \<longleftrightarrow> follows_in st a (view s) \<and> loop_view rs (view s) \<and>
     (\<forall>x \<in> set (pend_owned (pending_jobs s)). (fst x, Some (snd x)) \<in> set rs)"

lemma move_pending_follows:
  assumes "starting st a ((l, Some jid) # rs) s" and "l \<notin> fst ` set rs" and "st < GracefulShutdown"
  shows "map_of (jobs s) l = None"
    and "starting st a rs (s\<lparr>jobs := jobs s @ [(l, jid)], pending_jobs := AList.update l None (pending_jobs s)\<rparr>)"
proof -
  let ?s = "s\<lparr>jobs := jobs s @ [(l, jid)], pending_jobs := AList.update l None (pending_jobs s)\<rparr>"
  let ?h = "map_option jb_manifest \<circ> heap s"
  have f: "follows a (view s)" and st: "mstate s = st" and lv: "loop_view ((l, Some jid) # rs) (view s)"
    using assms(1) by (simp_all add: starting_def follows_in_def phase_reg_of)
  have d: "distinct (map fst (pending_jobs s))" and i: "(l, Some jid) \<in> set (pending_jobs s)" and ok: "mgr_ok s"
    using lv by (simp_all add: loop_view_def view_def mgr_ok_def)
  have o: "(l, jid) \<in> set (pend_owned (pending_jobs s))"
    using pend_owned_move [OF d i] by (metis union_single_eq_member set_mset_mset)
  have dd: "distinct (map fst (jobs s @ pend_owned (pending_jobs s)))"
    using ok by (simp add: mgr_ok_def view_def own_ok_def)
  then show free: "map_of (jobs s) l = None"
    using o by (auto simp: map_of_eq_None_iff disjoint_iff) (metis fst_conv image_eqI)
  obtain m where m: "?h jid = Some m" using owned_below(2) [OF ok] o by fastforce
  have lv': "loop_view rs (view ?s)" by (rule move_pending_ok [OF lv assms(2)])
  have "map_of (pend_owned (pending_jobs s)) l = Some jid"
    using dd o by (simp add: map_of_eq_Some_iff)
  then have q: "queued (registry_of s) l = Some m" and n: "loaded (registry_of s) l = None"
    using m free by (simp_all add: registry_of_simps held_def)
  have e: "registry_of ?s = (registry_of s)\<lparr>queued := (queued (registry_of s))(l := None),
      loaded := (loaded (registry_of s))(l \<mapsto> m)\<rparr>"
    using held_append1 [OF free] m pend_owned_clear [OF d]
    by (auto simp: registry_of_def view_def held_def fun_eq_iff)
  have "reg_step (registry_of s) (registry_of ?s)"
    unfolding e by (rule reg_start) (use assms(3) st q n in \<open>simp_all add: registry_of_simps\<close>)
  then have "follows a (view ?s)"
    using lv' by (intro follows_step [OF f r_into_rtranclp]) (simp_all add: loop_view_def)
  moreover have "(fst x, Some (snd x)) \<in> set rs" if "x \<in> set (pend_owned (AList.update l None (pending_jobs s)))" for x
  proof -
    have "distinct (map fst (pend_owned (AList.update l None (pending_jobs s))))"
      using lv' by (auto simp: loop_view_def view_def own_ok_def)
    then have "map_of (pend_owned (AList.update l None (pending_jobs s))) (fst x) = Some (snd x)"
      using that by (simp add: map_of_eq_Some_iff)
    then have "fst x \<noteq> l" "(fst x, snd x) \<in> set (pend_owned (pending_jobs s))"
      unfolding pend_owned_clear [OF d] by (auto split: if_splits dest: map_of_SomeD)
    then show ?thesis using assms(1) by (force simp: starting_def)
  qed
  ultimately show "starting st a rs ?s"
    using lv' st by (simp add: starting_def follows_in_def phase_reg_of)
qed

lemma preserves_starting:
  assumes "\<And>P. preserves (\<lambda>s. P (view s)) m"
  shows "preserves (starting st a rs) m"
proof -
  have e: "starting st a rs = (\<lambda>s. (case view s of (h, n, js, ps, x) \<Rightarrow> follows_in st a (h, n, js, ps, x) \<and>
      loop_view rs (h, n, js, ps, x) \<and> (\<forall>x \<in> set (pend_owned ps). (fst x, Some (snd x)) \<in> set rs)))"
    by (auto simp: starting_def view_def fun_eq_iff)
  show ?thesis unfolding e by (rule assms)
qed

lemma start_pending_follows:
  assumes "l \<notin> fst ` set rs" and "st < GracefulShutdown"
  shows "carries (starting st a ((l, o') # rs)) (start_pending pf (l, o')) (starting st a rs)"
proof (cases o')
  case None
  have w: "starting st a ((l, None) # rs) s \<Longrightarrow> starting st a rs s" for s
    by (fastforce simp: starting_def loop_view_def)
  show ?thesis
    unfolding start_pending_def None prod.case option.case using w
    by (auto intro!: carries_bindM preserves_getsM carries_if carries_weaken [OF preserves_failM]
        carries_weaken [OF preserves_c_assert])
next
  case (Some jid)
  have j: "preserves (starting st a rs) (thenM (with_job jid (job_execute pf Bootstrap)) (returnM ()))"
    by (intro preserves_thenM preserves_starting preserves_with_jobs preserves_returnM)
  show ?thesis
    unfolding carries_def
  proof (intro allI impI)
    fix s assume s: "starting st a ((l, o') # rs) s"
    note mv = move_pending_follows [OF s [unfolded Some] assms]
    show "starting st a rs (snd (start_pending pf (l, o') s))"
      using preservesD [OF j mv(2)] mv(1) Some
      by (simp add: start_pending_def bindM_apply getsM_apply thenM_apply [of "modifyM _"] modifyM_apply)
  qed
qed

lemma clear_nothing: "pend_owned (pending_jobs s) = [] \<Longrightarrow> clear_pending s = (Inr (), s\<lparr>pending_jobs := []\<rparr>)"
  by (simp add: clear_pending_def monad_simps destroy_pending restrict_map_def)

lemma start_loop_follows:
  assumes "st < GracefulShutdown"
  shows "distinct (map fst rs) \<Longrightarrow>
    carries (starting st a rs) (thenM (forM rs (start_pending pf)) clear_pending) (\<lambda>s. follows_in st a (view s))"
proof (induction rs)
  case Nil
  have "follows_in st a (view (snd (clear_pending s)))" if s: "starting st a [] s" for s
  proof -
    have "pend_owned (pending_jobs s) = []" using s by (cases "pend_owned (pending_jobs s)") (auto simp: starting_def)
    then show ?thesis
      using s by (auto simp: clear_nothing starting_def follows_in_def follows_def view_def)
  qed
  then show ?case by (simp add: carries_def monad_simps)
next
  case (Cons p rs)
  have "carries (starting st a (p # rs)) (start_pending pf p) (starting st a rs)"
    using start_pending_follows [of "fst p" rs st a "snd p"] Cons.prems assms by simp
  moreover have "carries (starting st a rs) (thenM (forM rs (start_pending pf)) clear_pending) (\<lambda>s. follows_in st a (view s))"
    using Cons by simp
  ultimately have "carries (starting st a (p # rs))
      (thenM (start_pending pf p) (thenM (forM rs (start_pending pf)) clear_pending)) (\<lambda>s. follows_in st a (view s))"
    by (rule carries_seq) (simp add: starting_def)
  then show ?case by (simp add: thenM_def bindM_assoc)
qed

lemma startAllJobs_follows:
  assumes "st < GracefulShutdown"
  shows "preserves (\<lambda>s. follows_in st a (view s)) (startAllJobs pf)"
proof (unfold preserves_def, intro allI impI)
  fix s assume f: "follows_in st a (view s)"
  then have d: "distinct (map fst (pending_jobs s))" and "starting st a (pending_jobs s) s"
    by (simp_all add: starting_def follows_in_def follows_def loop_view_def view_def)
      (auto dest: pend_owned_sub)
  from carriesD [OF start_loop_follows [OF assms d] this(2)]
  show "follows_in st a (view (snd (startAllJobs pf s)))"
    by (simp add: startAllJobs_def bindM_apply getsM_apply)
qed

section \<open>Jobs that leave\<close>

lemma force_unload_follows: "preserves (\<lambda>s. follows_in st a (view s)) (forceUnloadAllJobs pf)"
proof (unfold forceUnloadAllJobs_def, rule preserves_noexceptM, unfold preserves_def, intro allI impI)
  fix s assume f: "follows_in st a (view s)"
  let ?f = "\<lambda>(l, jid). with_job jid (forceUnloadJob pf)"
  have p: "preserves (\<lambda>s. P (view s)) (forM (jobs s) ?f)" for P
    by (rule preserves_view_ops)+
  obtain r s1 where r: "forM (jobs s) ?f s = (r, s1)" by fastforce
  have v: "view s1 = view s" using preservesE [OF p [of "\<lambda>v. v = view s"] r] by simp
  then have j: "jobs s = jobs s1" by (simp add: view_def)
  have f1: "follows a (view s1)" and st: "mstate s1 = st"
    using f v by (simp_all add: follows_in_def phase_reg_of [symmetric])
  then have ok: "mgr_ok s1" by (simp add: follows_def mgr_ok_def)
  let ?h = "map_option jb_manifest \<circ> heap s1"
  let ?s2 = "s1\<lparr>heap := heap s1 |` (- snd ` set (jobs s1)), jobs := []\<rparr>"
  have o: "own_ok ?h (next_id s1) (jobs s1 @ pend_owned (pending_jobs s1))"
    and d: "distinct (map fst (pending_jobs s1))"
    using ok by (simp_all add: mgr_ok_def view_def)
  have "own_ok (?h |` (- snd ` set (jobs s1))) (next_id s1) (pend_owned (pending_jobs s1))"
    using o by (rule own_ok_remove) (use o in \<open>auto simp: own_ok_def\<close>)
  then have ok2: "ok_view (view ?s2)" using d by (simp add: view_def map_option_restrict)
  have "held (?h |` (- snd ` set (jobs s1))) (pend_owned (pending_jobs s1)) = held ?h (pend_owned (pending_jobs s1))"
    by (rule held_agree) (use o in \<open>auto simp: own_ok_def restrict_map_def\<close>)
  moreover have "dom (loaded (registry_of s1)) \<subseteq> fst ` set (jobs s1)"
    by (force simp: registry_of_simps held_def split: bind_splits dest: map_of_SomeD)
  then have "loaded (registry_of s1) |` (- fst ` set (jobs s1)) = Map.empty"
    by (auto simp: restrict_map_def fun_eq_iff)
  ultimately have "registry_of ?s2 = (registry_of s1)\<lparr>loaded := loaded (registry_of s1) |` (- fst ` set (jobs s1))\<rparr>"
    by (simp add: registry_of_def view_def map_option_restrict held_Nil)
  then have "reg_step\<^sup>*\<^sup>* (registry_of s1) (registry_of ?s2)"
    using reg_leave_all [of "fst ` set (jobs s1)" "registry_of s1"] by simp
  then have "follows_in st a (view ?s2)"
    using follows_step [OF f1 _ ok2] st by (simp add: follows_in_def phase_reg_of)
  then show "follows_in st a (view (snd (bindM (getsM jobs) (\<lambda>js. thenM (forM js ?f)
      (thenM (forM js (\<lambda>(l, jid). destroy_job jid)) (modifyM (\<lambda>s. s\<lparr>jobs := []\<rparr>)))) s)))"
    using r f v by (auto simp: monad_simps destroy_jobs j split: sum.split)
qed

lemma on_delete_follows: "preserves (\<lambda>s. follows_in st a (view s)) (on_delete_job l)"
proof (unfold preserves_def, intro allI impI)
  fix s assume f: "follows_in st a (view s)"
  show "follows_in st a (view (snd (on_delete_job l s)))"
  proof (cases "map_of (jobs s) l")
    case None
    then show ?thesis using f by (simp add: on_delete_job_def monad_simps)
  next
    case (Some jid)
    let ?h = "map_option jb_manifest \<circ> heap s"
    let ?s = "s\<lparr>jobs := AList.delete l (jobs s), heap := (heap s)(jid := None)\<rparr>"
    have fa: "follows a (view s)" and st: "mstate s = st" and ok: "mgr_ok s"
      using f by (simp_all add: follows_in_def follows_def mgr_ok_def phase_reg_of)
    have run: "on_delete_job l s = (Inr (), ?s)"
      using Some by (simp add: on_delete_job_def monad_simps destroy_job_def)
    then have ok2: "mgr_ok ?s" using preservesD [OF on_delete_job_ok ok, of l] by simp
    have o: "own_ok ?h (next_id s) (jobs s @ pend_owned (pending_jobs s))"
      using ok by (simp add: mgr_ok_def view_def)
    have d: "distinct (map fst (jobs s))" "distinct (map snd (jobs s @ pend_owned (pending_jobs s)))"
      using o by (simp_all add: own_ok_def)
    have i: "(l, jid) \<in> set (jobs s)" using Some by (rule map_of_SomeD)
    have h: "map_option jb_manifest \<circ> (heap s)(jid := None) = ?h(jid := None)" by (auto simp: fun_eq_iff)
    have "held (?h(jid := None)) (AList.delete l (jobs s)) = held ?h (AList.delete l (jobs s))"
    proof (rule held_agree)
      fix x assume "x \<in> set (AList.delete l (jobs s))"
      then have "x \<in> set (jobs s)" "fst x \<noteq> l" by (auto simp: AList.delete_eq)
      then have "snd x \<noteq> jid"
        using i d(2) by (metis distinct_append distinct_map fst_conv inj_on_def map_append snd_conv)
      then show "(?h(jid := None)) (snd x) = ?h (snd x)" by simp
    qed
    moreover have "held (?h(jid := None)) (pend_owned (pending_jobs s)) = held ?h (pend_owned (pending_jobs s))"
      by (rule held_agree) (use i d(2) in \<open>force\<close>)
    ultimately have e: "registry_of ?s = (registry_of s)\<lparr>loaded := (loaded (registry_of s))(l := None)\<rparr>"
      by (simp add: registry_of_def view_def h held_delete)
    obtain m where "?h jid = Some m" using owned_below(2) [OF ok, of "(l, jid)"] i by auto
    then have "loaded (registry_of s) l = Some m" using Some by (simp add: registry_of_simps held_def)
    then have "reg_step (registry_of s) (registry_of ?s)" unfolding e by (rule reg_leave)
    then have "follows a (view ?s)"
      using ok2 by (intro follows_step [OF fa r_into_rtranclp]) (simp_all add: mgr_ok_def)
    then show ?thesis using run st by (simp add: follows_in_def phase_reg_of)
  qed
qed

section \<open>The machine, and the daemon\<close>

lemma follows_in_weaken: "follows_in st a v \<Longrightarrow> follows a v"
  by (simp add: follows_in_def)

lemma phase_indep: "(\<And>s. view (f s) = view s) \<Longrightarrow> preserves (\<lambda>s. P (view s)) (modifyM f)"
  by (simp add: preserves_def modifyM_def)

lemma reg_of_chan: "follows_in st a (view (s\<lparr>chan := ch\<rparr>)) = follows_in st a (view s)"
  "follows_in st a (view (s\<lparr>pending_result := r\<rparr>)) = follows_in st a (view s)"
  "follows a (view (s\<lparr>chan := ch\<rparr>)) = follows a (view s)"
  "follows a (view (s\<lparr>pending_result := r\<rparr>)) = follows a (view s)"
  by (simp_all add: follows_in_def follows_def view_def)

lemma channel_actions_follow:
  "preserves (\<lambda>s. follows_in st a (view s)) (setupSignalHandlers pf)"
  "preserves (\<lambda>s. follows_in st a (view s)) (startRpcServer pf)"
  "preserves (\<lambda>s. follows_in st a (view s)) (close_listener pf)"
proof -
  have ch: "preserves (\<lambda>s. follows_in st a (view s)) (modifyM (\<lambda>s. s\<lparr>chan := ch\<rparr>))" for ch
    by (simp add: preserves_def modifyM_def reg_of_chan)
  show "preserves (\<lambda>s. follows_in st a (view s)) (setupSignalHandlers pf)"
    "preserves (\<lambda>s. follows_in st a (view s)) (startRpcServer pf)"
    "preserves (\<lambda>s. follows_in st a (view s)) (close_listener pf)"
    unfolding setupSignalHandlers_def startRpcServer_def close_listener_def
    by (rule ch preserves_channel preserves_view_ops)+
qed

lemma mgr_action_follows:
  assumes "t \<in> set (mgr_table c pf)" and "action t = Some f"
  shows "preserves (\<lambda>s. follows_in (from_state t) a (view s)) f"
  using assms unfolding mgr_table_def
  by (auto intro!: preserves_thenM preserves_returnM channel_actions_follow load_follows.load_default
      startAllJobs_follows preserves_view_unload simp: mgr_order)

lemma mgr_execute_follows: "preserves (\<lambda>s. follows a (view s)) (mgr_execute c pf tr)"
  unfolding mgr_execute_def
proof (rule carries_execute [where K = "\<lambda>st s. follows_in st a (view s)"])
  show "preserves (\<lambda>s. follows_in (from_state t) a (view s)) g"
    if "t \<in> set (mgr_table c pf)" "guard t = Some g" for t g
    using that unfolding mgr_table_def by (auto intro: preserves_rules)
  show "follows a (view (put_mgr_state (to_state t) s))"
    if t: "t \<in> set (mgr_table c pf)" "trigger t = tr" and f: "follows_in (from_state t) a (view s)" for t s
  proof -
    have "mgr_edge (phase (registry_of s)) tr (to_state t)"
      using mgr_table_edge [OF t(1)] t(2) f by (simp add: follows_in_def registry_of_def)
    then have "reg_step (registry_of s) ((registry_of s)\<lparr>phase := to_state t\<rparr>)" by (rule reg_move)
    then have st: "reg_step (registry_of s) (registry_of (put_mgr_state (to_state t) s))"
      by (simp add: registry_of_def view_def put_mgr_state_def)
    have ok: "ok_view (view (put_mgr_state (to_state t) s))"
      using f by (simp add: follows_in_def follows_def view_def put_mgr_state_def)
    show ?thesis
      by (rule follows_step [OF follows_in_weaken [OF f] r_into_rtranclp]) (rule st, rule ok)
  qed
qed (assumption | rule mgr_action_follows follows_in_weaken | (simp add: follows_in_def phase_reg_of; fail))+

definition follows_live :: "registry \<Rightarrow> mgr_view \<Rightarrow> bool" where
  "follows_live a v \<longleftrightarrow> follows a v \<and> phase (reg_of v) \<noteq> Finished"

lemma preserves_live:
  assumes "\<And>st. st \<noteq> Finished \<Longrightarrow> preserves (\<lambda>s. follows_in st a (view s)) m"
  shows "preserves (\<lambda>s. follows_live a (view s)) m"
proof (unfold preserves_def, intro allI impI)
  fix s assume s: "follows_live a (view s)"
  then have "follows_in (mstate s) a (view s)" "mstate s \<noteq> Finished"
    by (simp_all add: follows_live_def follows_in_def phase_reg_of)
  then have "follows_in (mstate s) a (view (snd (m s)))" using preservesD [OF assms] by blast
  then show "follows_live a (view (snd (m s)))"
    using \<open>mstate s \<noteq> Finished\<close> by (simp add: follows_live_def follows_in_def)
qed

lemma start_more_follows: "preserves (\<lambda>s. follows_live a (view s)) (mgr_execute c pf MgrStartRequested)"
proof (unfold preserves_def, intro allI impI)
  fix s assume s: "follows_live a (view s)"
  then have "mstate s \<noteq> Finished" by (simp add: follows_live_def phase_reg_of)
  then have "mstate (snd (mgr_execute c pf MgrStartRequested s)) \<noteq> Finished"
    using mgr_execute_cases [where c = c and pf = pf and tr = MgrStartRequested and s = s]
    by (auto split: prod.splits sum.splits fsm_status.splits elim: mgr_edge.cases)
  then show "follows_live a (view (snd (mgr_execute c pf MgrStartRequested s)))"
    using s preservesD [OF mgr_execute_follows, of a s c pf MgrStartRequested] by (simp add: follows_live_def phase_reg_of)
qed

interpretation reg_daemon: daemon_invariant "follows_live a" pf c "follows a" for a pf c
proof unfold_locales
  show "preserves (\<lambda>s. follows_live a (view s)) (mgr_execute c pf MgrStartRequested)"
    by (rule start_more_follows)
  show "preserves (\<lambda>s. follows a (view s)) (mgr_execute c pf tr)" for tr
    by (rule mgr_execute_follows)
  show "follows_live a (view s)" if "follows a (view s)" "mstate s \<in> {MgrRunning, GracefulShutdown}" for s
    using that by (auto simp: follows_live_def phase_reg_of)
qed (rule preserves_live, erule load_json_follows, simp_all add: preserves_live force_unload_follows on_delete_follows
    del: phase_reg_of, simp_all add: follows_live_def reg_of_chan phase_reg_of)

lemma reachable_follows: "reachable c pf d s \<Longrightarrow> follows reg_init (view s)"
proof (induction rule: reachable.induct)
  case (constructed s)
  show ?case
  proof (rule mk_manager_keeps)
    show "em_indep (\<lambda>s. follows reg_init (view s))" by (rule em_indep_view)
  qed (simp_all add: reg_of_chan follows_def view_def own_ok_def reg_init_def held_Nil)
qed (auto intro: reg_daemon.start_running [THEN preservesD] reg_daemon.stop_running [THEN preservesD]
    reg_daemon.event [THEN preservesD])

lemma reachable_reg_ok: "reachable c pf d s \<Longrightarrow> reg_ok (registry_of s)"
  using reachable_follows [of c pf d s] reg_steps_ok reg_init_ok
  by (auto simp: follows_def registry_of_def)

lemma event_follows:
  "mgr_ok s \<Longrightarrow> reg_step\<^sup>*\<^sup>* (registry_of s) (registry_of (snd (handleEvent c pf t s)))"
  using preservesD [OF reg_daemon.event, of "registry_of s" s c pf t]
  by (simp add: follows_def mgr_ok_def registry_of_def)

text \<open>
  C2: the daemon implements the registry: the registry of every state it can reach is a reachable
  registry, and whatever an event brings, a process that ends, a timer, a signal, a client's request
  that succeeds, fails or throws half way, it does to the manager's jobs a sequence of steps of the
  registry: nothing that is queued is dropped, nothing is loaded during the shutdown, no label is
  taken twice.
\<close>

theorem daemon_refines_registry:
  assumes "reachable c pf d s"
  shows "reg_step\<^sup>*\<^sup>* reg_init (registry_of s) \<and>
    reg_step\<^sup>*\<^sup>* (registry_of s) (registry_of (snd (handleEvent c pf t s)))"
proof
  have f: "follows reg_init (view s)" using assms by (rule reachable_follows)
  then show "reg_step\<^sup>*\<^sup>* reg_init (registry_of s)" by (simp add: follows_def registry_of_def)
  show "reg_step\<^sup>*\<^sup>* (registry_of s) (registry_of (snd (handleEvent c pf t s)))"
    using f by (intro event_follows) (simp add: follows_def mgr_ok_def)
qed

text \<open>
  C6: the loaded and the queued jobs of a reachable daemon have distinct labels, the labels of their
  manifests, and well-formed manifests; once the shutdown has begun no event queues or loads
  anything, and jobs only leave.
\<close>

theorem shutdown_only_unloads:
  assumes "reachable c pf d s"
  shows "reg_ok (registry_of s) \<and>
    (GracefulShutdown \<le> mstate s \<longrightarrow>
      queued (registry_of (snd (handleEvent c pf t s))) = queued (registry_of s) \<and>
      loaded (registry_of (snd (handleEvent c pf t s))) \<subseteq>\<^sub>m loaded (registry_of s))"
proof -
  have "mgr_ok s" using reachable_follows [OF assms] by (simp add: follows_def mgr_ok_def)
  from reg_steps_shutdown [OF event_follows [OF this]] show ?thesis
    using reachable_reg_ok [OF assms] by (simp add: registry_of_simps)
qed

end
