(* ===== verification/Kqueue.thy ===== *)
theory Kqueue
  imports Events
begin

text \<open>
  The kqueue implementation of \<open>KernelEventInterface\<close> in \<open>src/event.h\<close>, which the BSD systems
  compile in the place of epoll, and what the event manager relies on in either.
\<close>

section \<open>The kqueue implementation\<close>

text \<open>The numbers of FreeBSD, where \<open>NOTE_EXITSTATUS\<close> is the zero the file defines.\<close>

definition EVFILT_READ :: int where "EVFILT_READ = - 1"
definition EVFILT_PROC :: int where "EVFILT_PROC = - 5"
definition EVFILT_SIGNAL :: int where "EVFILT_SIGNAL = - 6"
definition EVFILT_TIMER :: int where "EVFILT_TIMER = - 7"
definition EV_ADD :: int where "EV_ADD = 1"
definition EV_DELETE :: int where "EV_DELETE = 2"
definition EV_ADD_ONESHOT :: int where "EV_ADD_ONESHOT = 17"
definition NOTE_EXIT :: int where "NOTE_EXIT = 2147483648"
definition NOTE_EXITSTATUS :: int where "NOTE_EXITSTATUS = 0"

lemmas kq_consts =
  EVFILT_READ_def EVFILT_PROC_def EVFILT_SIGNAL_def EVFILT_TIMER_def EV_ADD_def EV_DELETE_def
  EV_ADD_ONESHOT_def NOTE_EXIT_def NOTE_EXITSTATUS_def

definition mk_kqueue :: "platform \<Rightarrow> ('a em_state_scheme, unit) M" where
  "mk_kqueue pf =
     thenM (modifyM (\<lambda>s. s\<lparr>child_status := [], blocked_signals := {}, pending_events := []\<rparr>))
    (bindM (callM pf (Kq SysKqueue)) (\<lambda>(fd, err).
     thenM (modifyM (\<lambda>s. s\<lparr>kqfd := fd\<rparr>))
    (if fd < 0 then sys_error err ''kqueue()''
     else
       bindM (callM pf (Proc (SysFcntlCloexec fd))) (\<lambda>(rv, err).
       if rv < 0 then thenM (callM pf (Proc (SysClose fd))) (sys_error err ''fcntl()'')
       else returnM ()))))"

definition destroy_kqueue :: "platform \<Rightarrow> ('a em_state_scheme, unit) M" where
  "destroy_kqueue pf =
     bindM (getsM kqfd) (\<lambda>fd. thenM (callM pf (Proc (SysClose fd))) (returnM ()))"

definition changeKevent :: "platform \<Rightarrow> int \<Rightarrow> int \<Rightarrow> int \<Rightarrow> int \<Rightarrow> 64 word \<Rightarrow> ('a em_state_scheme, unit) M" where
  "changeKevent pf ident filt flags fflags data =
     bindM (getsM kqfd) (\<lambda>fd.
     bindM (callM pf (Kq (SysKevent fd ident filt flags fflags data))) (\<lambda>(rv, err).
     if rv < 0 then sys_error err ''kevent()'' else returnM ()))"

text \<open>\<open>duration_cast\<close> rounds towards zero.\<close>

definition kq_timespec :: "int \<Rightarrow> int \<times> int" where
  "kq_timespec ms =
     (let secs = (if 0 \<le> ms then ms div 1000 else - ((- ms) div 1000)) in
      (secs, (ms - secs * 1000) * 1000000))"

text \<open>The loop around \<open>kevent\<close>: \<open>None\<close> when the time is over.\<close>

primrec kq_poll :: "nat \<Rightarrow> platform \<Rightarrow> int option \<Rightarrow> ('a em_state_scheme, kevent option) M" where
  "kq_poll 0 pf timeout = failM Hang"
| "kq_poll (Suc n) pf timeout =
     bindM (getsM kqfd) (\<lambda>fd.
     let c = Kq (SysKeventWait fd (map_option kq_timespec timeout)) in
     bindM (sysM c (\<lambda>h. (sys_int pf h c, sys_kevent pf h fd))) (\<lambda>((rv, err), kev).
     if rv > 0 then returnM (Some kev)
     else if rv = 0 then
       (if timeout \<noteq> None then returnM None else kq_poll n pf timeout)
     else if err = EINTR then kq_poll n pf timeout
     else sys_error err ''kevent()''))"

text \<open>\<open>static_cast<int>\<close> of the 64-bit fields keeps their low 32 bits.\<close>

definition kq_int :: "64 word \<Rightarrow> int" where
  "kq_int w = sint (ucast w :: 32 word)"

definition kq_event :: "kevent \<Rightarrow> ('s, event option) M" where
  "kq_event kev =
     (if kev_filter kev = EVFILT_PROC then
        returnM (Some (ProcEvent (kq_int (kev_ident kev)) (kq_int (kev_data kev))))
      else if kev_filter kev = EVFILT_SIGNAL then returnM (Some (SignalEvent (kq_int (kev_ident kev))))
      else if kev_filter kev = EVFILT_READ then returnM (Some (SocketEvent (kq_int (kev_ident kev))))
      else if kev_filter kev = EVFILT_TIMER then returnM (Some (TimerEvent (kq_int (kev_ident kev))))
      else throwM (RangeError ''invalid filter''))"

definition kq_waitForEvent :: "platform \<Rightarrow> int option \<Rightarrow> ('a em_state_scheme, event option) M" where
  "kq_waitForEvent pf timeout =
     bindM getPendingEvent (\<lambda>result.
     case result of
       Some e \<Rightarrow> returnM (Some e)
     | None \<Rightarrow>
         bindM (kq_poll (loop_bound pf) pf timeout) (\<lambda>r.
         case r of None \<Rightarrow> returnM None | Some kev \<Rightarrow> kq_event kev))"

text \<open>\<open>catch (const std::system_error &e)\<close> with a test of the error code.\<close>

definition catch_errno :: "('s, unit) M \<Rightarrow> int \<Rightarrow> ('s, unit) M \<Rightarrow> ('s, unit) M" where
  "catch_errno m code handler =
     catchM m (\<lambda>e. case e of
       SystemError err what \<Rightarrow> if err = code then handler else throwM e
     | _ \<Rightarrow> throwM e)"

definition kq_monitorChildProcess :: "platform \<Rightarrow> int \<Rightarrow> ('a em_state_scheme, unit) M" where
  "kq_monitorChildProcess pf pid =
     catch_errno (changeKevent pf pid EVFILT_PROC EV_ADD_ONESHOT (NOTE_EXIT + NOTE_EXITSTATUS) 0) ESRCH
       (bindM (waitForProcess pf pid) (\<lambda>status.
        modifyM (\<lambda>s. s\<lparr>child_status := alist_insert pid status (child_status s)\<rparr>)))"

definition kq_ignoreChildProcess :: "platform \<Rightarrow> int \<Rightarrow> ('a em_state_scheme, unit) M" where
  "kq_ignoreChildProcess pf pid =
     bindM (getsM (\<lambda>s. map_of (child_status s) pid)) (\<lambda>r.
     if r = None then
       catch_errno (changeKevent pf pid EVFILT_PROC EV_DELETE NOTE_EXIT 0) ENOENT (returnM ())
     else returnM ())"

definition kq_monitorSocketRead :: "platform \<Rightarrow> int \<Rightarrow> ('a em_state_scheme, unit) M" where
  "kq_monitorSocketRead pf sockfd = changeKevent pf sockfd EVFILT_READ EV_ADD NOTE_EXIT 0"

definition kq_ignoreSocketRead :: "platform \<Rightarrow> int \<Rightarrow> ('a em_state_scheme, unit) M" where
  "kq_ignoreSocketRead pf sockfd = changeKevent pf sockfd EVFILT_READ EV_DELETE 0 0"

definition kq_monitorSignal :: "platform \<Rightarrow> int \<Rightarrow> ('a em_state_scheme, unit) M" where
  "kq_monitorSignal pf signum =
     (if signum = SIGCHLD then throwM (RangeError ''SIGCHLD is handled internally to support Linux'')
      else
        bindM (callM pf (Kq (SysSignalIgnore signum))) (\<lambda>(rv, err).
        if rv < 0 then sys_error err ''signal()''
        else
          thenM (modifyM (\<lambda>s. s\<lparr>blocked_signals := insert signum (blocked_signals s)\<rparr>))
                (changeKevent pf signum EVFILT_SIGNAL EV_ADD NOTE_EXIT 0)))"

definition kq_unblockSignal :: "platform \<Rightarrow> int \<Rightarrow> ('a em_state_scheme, unit) M" where
  "kq_unblockSignal pf signum =
     bindM (callM pf (Kq (SysSignalDefault signum))) (\<lambda>(rv, err).
     if rv < 0 then sys_error err ''signal()''
     else modifyM (\<lambda>s. s\<lparr>blocked_signals := blocked_signals s - {signum}\<rparr>))"

text \<open>The set is visited in the order of the numbers.\<close>

definition kq_unblockAllSignals :: "platform \<Rightarrow> ('a em_state_scheme, unit) M" where
  "kq_unblockAllSignals pf =
     bindM (getsM blocked_signals) (\<lambda>sigs.
     thenM (forM (sorted_list_of_set sigs) (\<lambda>signum.
              thenM (callM pf (Kq (SysSignalDefault signum))) (returnM ())))
           (modifyM (\<lambda>s. s\<lparr>blocked_signals := {}\<rparr>)))"

definition kq_ignoreSignal :: "platform \<Rightarrow> int \<Rightarrow> ('a em_state_scheme, unit) M" where
  "kq_ignoreSignal pf signum =
     thenM (kq_unblockSignal pf signum) (changeKevent pf signum EVFILT_SIGNAL EV_DELETE NOTE_EXIT 0)"

definition kq_monitorTimer :: "platform \<Rightarrow> int \<Rightarrow> 64 word \<Rightarrow> ('a em_state_scheme, unit) M" where
  "kq_monitorTimer pf timer_id milliseconds =
     changeKevent pf timer_id EVFILT_TIMER EV_ADD_ONESHOT 0 milliseconds"

definition kq_ignoreTimer :: "platform \<Rightarrow> int \<Rightarrow> ('a em_state_scheme, unit) M" where
  "kq_ignoreTimer pf timer_id = changeKevent pf timer_id EVFILT_TIMER EV_DELETE 0 0"

definition kq_handleFork :: "platform \<Rightarrow> ('a em_state_scheme, unit) M" where
  "kq_handleFork pf = kq_unblockAllSignals pf"

section \<open>What the event manager relies on\<close>

text \<open>
  An implementation leaves the tables of callbacks and the owner's part of the state alone, and hands
  out what is already pending before it waits; on that the event manager rests.
\<close>

lemma preserves_tables_modify:
  "(\<And>s. em_tables (f s) = em_tables s) \<Longrightarrow> preserves (\<lambda>s. P (em_tables s)) (modifyM f)"
  by (simp add: preserves_def modifyM_def)

lemma preserves_tables_sysM: "preserves (\<lambda>s. P (em_tables s)) (sysM c f)"
  by (simp add: preserves_def sysM_def em_tables_def)

lemma preserves_tables_callM: "preserves (\<lambda>s. P (em_tables s)) (callM pf c)"
  by (simp add: callM_def preserves_tables_sysM)

lemma preserves_pair: "(\<And>a b. preserves I (f a b x)) \<Longrightarrow> preserves I ((case p of (a, b) \<Rightarrow> f a b) x)"
  by (cases p) simp

lemma preserves_list:
  "preserves I n \<Longrightarrow> (\<And>x xs. preserves I (f x xs)) \<Longrightarrow> preserves I (case r of [] \<Rightarrow> n | x # xs \<Rightarrow> f x xs)"
  by (cases r) simp_all

lemmas tables_rules = preserves_tables_modify preserves_tables_sysM preserves_tables_callM preserves_sys_error preserves_pair
  preserves_list preserves_rules

lemma tables_kept:
  assumes "\<And>P. preserves (\<lambda>s. P (em_tables s)) m" and "m s = (r, s')"
  shows "em_tables s' = em_tables s"
  using preservesE [OF assms(1) [of "\<lambda>x. x = em_tables s"] assms(2)] by simp

lemma registered:
  assumes "\<And>P. preserves (\<lambda>s. P (em_tables s)) m"
    and "\<And>s s1. em_tables s1 = em_tables s \<Longrightarrow> em_tables (f s1) = em_tables (f s)"
    and "thenM m (modifyM f) s = (r, s')"
  shows "case r of Inr _ \<Rightarrow> em_tables s' = em_tables (f s) | Inl e \<Rightarrow> em_tables s' = em_tables s"
proof -
  obtain r1 s1 where m: "m s = (r1, s1)" by fastforce
  have "em_tables s1 = em_tables s" by (rule tables_kept [OF assms(1) m])
  then have "em_tables (f s1) = em_tables (f s)" by (rule assms(2))
  then show ?thesis
    using assms(3) m \<open>em_tables s1 = em_tables s\<close> by (cases r1) (auto simp: thenM_apply modifyM_apply)
qed

locale kernel_events =
  fixes mon_child mon_signal mon_socket ign_child ign_socket ign_timer :: "platform \<Rightarrow> int \<Rightarrow> ('a em_state_scheme, unit) M"
    and mon_timer :: "platform \<Rightarrow> int \<Rightarrow> 64 word \<Rightarrow> ('a em_state_scheme, unit) M"
    and wait :: "platform \<Rightarrow> int option \<Rightarrow> ('a em_state_scheme, event option) M"
  assumes keeps: "preserves (\<lambda>s. P (em_tables s)) (mon_child pf n)" "preserves (\<lambda>s. P (em_tables s)) (mon_signal pf n)" "preserves (\<lambda>s. P (em_tables s)) (mon_socket pf n)"
      "preserves (\<lambda>s. P (em_tables s)) (ign_child pf n)" "preserves (\<lambda>s. P (em_tables s)) (ign_socket pf n)" "preserves (\<lambda>s. P (em_tables s)) (ign_timer pf n)"
      "preserves (\<lambda>s. P (em_tables s)) (mon_timer pf n ms)" "preserves (\<lambda>s. P (em_tables s)) (wait pf t)"
    and pending_first: "getPendingEvent s = (Inr (Some e), s') \<Longrightarrow> wait pf t s = (Inr (Some e), s')"
begin

text \<open>A callback is registered exactly when the kernel accepts the event.\<close>

lemma add_signal:
  assumes "thenM (mon_signal pf n) (modifyM (\<lambda>s. s\<lparr>signal_callbacks := map_insert (signal_callbacks s) n c\<rparr>)) s = (r, s')"
  shows "case r of
      Inr _ \<Rightarrow> em_tables s' = em_tables (s\<lparr>signal_callbacks := map_insert (signal_callbacks s) n c\<rparr>)
    | Inl e \<Rightarrow> em_tables s' = em_tables s"
  by (rule registered [OF keeps(2) _ assms]) (simp add: em_tables_def)

lemma add_process:
  assumes "thenM (mon_child pf n) (modifyM (\<lambda>s. s\<lparr>process_callbacks := map_insert (process_callbacks s) n c\<rparr>)) s = (r, s')"
  shows "case r of
      Inr _ \<Rightarrow> em_tables s' = em_tables (s\<lparr>process_callbacks := map_insert (process_callbacks s) n c\<rparr>)
    | Inl e \<Rightarrow> em_tables s' = em_tables s"
  by (rule registered [OF keeps(1) _ assms]) (simp add: em_tables_def)

lemma add_socket:
  assumes "thenM (mon_socket pf n) (modifyM (\<lambda>s. s\<lparr>socket_read_callbacks := map_insert (socket_read_callbacks s) n c\<rparr>)) s = (r, s')"
  shows "case r of
      Inr _ \<Rightarrow> em_tables s' = em_tables (s\<lparr>socket_read_callbacks := map_insert (socket_read_callbacks s) n c\<rparr>)
    | Inl e \<Rightarrow> em_tables s' = em_tables s"
  by (rule registered [OF keeps(3) _ assms]) (simp add: em_tables_def)

text \<open>What is pending is dispatched before the kernel is asked.\<close>

lemma dispatch_pending:
  assumes "getPendingEvent s = (Inr (Some e), s1)"
  shows "bindM (wait pf t) (\<lambda>r. case r of None \<Rightarrow> returnM () | Some e \<Rightarrow> dispatch_event run e) s = dispatch_event run e s1"
  using pending_first [OF assms] by (simp add: bindM_apply)

text \<open>Waiting finds the callbacks as they were registered.\<close>

lemma wait_keeps: "wait pf t s = (r, s') \<Longrightarrow> em_tables s' = em_tables s"
  by (rule tables_kept [OF keeps(8)])

end

section \<open>Both implementations provide it\<close>

lemma keeps_getPendingEvent: "preserves (\<lambda>s. P (em_tables s)) getPendingEvent"
  unfolding getPendingEvent_def by (rule tables_rules | simp add: em_tables_def)+

lemma keeps_addPendingEvent: "preserves (\<lambda>s. P (em_tables s)) (addPendingEvent e)"
  unfolding addPendingEvent_def by (rule tables_rules | simp add: em_tables_def)+

lemma keeps_epollGetOne: "preserves (\<lambda>s. P (em_tables s)) (epollGetOne pf fd t)"
  unfolding epollGetOne_def Let_def by (rule tables_rules)+

lemma keeps_read_signals: "preserves (\<lambda>s. P (em_tables s)) (read_signals n pf b)"
  by (induction n arbitrary: b) (simp_all, (assumption | rule tables_rules keeps_addPendingEvent)+)

lemma keeps_reap_children: "preserves (\<lambda>s. P (em_tables s)) (reap_children n pf)"
  by (induction n) (simp_all, (assumption | rule tables_rules keeps_addPendingEvent | (simp add: em_tables_def; fail))+)

lemma keeps_wait_switch: "preserves (\<lambda>s. P (em_tables s)) (wait_switch pf t k)"
  unfolding wait_switch_def wait_timer_def getSignalEvents_def Let_def
  by (rule tables_rules keeps_read_signals keeps_reap_children keeps_epollGetOne | (simp add: em_tables_def; fail))+

lemma keeps_wait_loop: "preserves (\<lambda>s. P (em_tables s)) (wait_loop n pf t)"
  by (induction n) (simp_all only: wait_loop.simps, (assumption | rule tables_rules keeps_epollGetOne keeps_wait_switch)+)

interpretation epoll: kernel_events monitorChildProcess monitorSignal monitorSocketRead
  "\<lambda>pf. ignoreChildProcess" ignoreSocketRead ignoreTimer monitorTimer epoll_waitForEvent
proof unfold_locales
  show "getPendingEvent s = (Inr (Some e), s') \<Longrightarrow> epoll_waitForEvent pf t s = (Inr (Some e), s')"
    for s :: "'a em_state_scheme" and e s' pf t
    by (simp add: epoll_waitForEvent_def monad_simps)
qed (unfold monitorChildProcess_def monitorSignal_def monitorSocketRead_def ignoreChildProcess_def
    ignoreSocketRead_def ignoreTimer_def monitorTimer_def epoll_waitForEvent_def add_cleanup_def,
    (rule tables_rules keeps_getPendingEvent keeps_wait_loop | (simp add: em_tables_def; fail))+)

lemma keeps_changeKevent: "preserves (\<lambda>s. P (em_tables s)) (changeKevent pf i f fl ff d)"
  unfolding changeKevent_def by (rule tables_rules)+

lemma preserves_catch_errno: "preserves I m \<Longrightarrow> preserves I h \<Longrightarrow> preserves I (catch_errno m code h)"
  unfolding catch_errno_def
  by (rule preserves_catchM) (auto split: exn.split intro: preserves_rules)

lemma keeps_kq_poll: "preserves (\<lambda>s. P (em_tables s)) (kq_poll n pf t)"
  by (induction n) (simp_all only: kq_poll.simps Let_def, (assumption | rule tables_rules)+)

lemma keeps_kq_event: "preserves (\<lambda>s. P (em_tables s)) (kq_event k)"
  unfolding kq_event_def by (rule tables_rules)+

interpretation kqueue: kernel_events kq_monitorChildProcess kq_monitorSignal kq_monitorSocketRead
  kq_ignoreChildProcess kq_ignoreSocketRead kq_ignoreTimer kq_monitorTimer kq_waitForEvent
proof unfold_locales
  show "getPendingEvent s = (Inr (Some e), s') \<Longrightarrow> kq_waitForEvent pf t s = (Inr (Some e), s')"
    for s :: "'a em_state_scheme" and e s' pf t
    by (simp add: kq_waitForEvent_def monad_simps)
qed (unfold kq_monitorChildProcess_def kq_monitorSignal_def kq_monitorSocketRead_def kq_ignoreChildProcess_def
    kq_ignoreSocketRead_def kq_ignoreTimer_def kq_monitorTimer_def kq_waitForEvent_def waitForProcess_def,
    (rule tables_rules keeps_changeKevent preserves_catch_errno keeps_getPendingEvent keeps_kq_poll keeps_kq_event
      | (simp add: em_tables_def; fail))+)

section \<open>Callbacks are registered with the kernel's consent\<close>

text \<open>
  A callback for a signal, a process or a socket is in its table exactly when the registration with
  the kernel succeeded; a registration that throws leaves every table as it was.
\<close>

lemma registration_atomic:
  "addSignal pf n c s = (r, s') \<Longrightarrow> case r of
      Inr _ \<Rightarrow> em_tables s' = em_tables (s\<lparr>signal_callbacks := map_insert (signal_callbacks s) n c\<rparr>)
    | Inl e \<Rightarrow> em_tables s' = em_tables s"
  "addProcess pf n c s = (r, s') \<Longrightarrow> case r of
      Inr _ \<Rightarrow> em_tables s' = em_tables (s\<lparr>process_callbacks := map_insert (process_callbacks s) n c\<rparr>)
    | Inl e \<Rightarrow> em_tables s' = em_tables s"
  "addSocketRead pf n c s = (r, s') \<Longrightarrow> case r of
      Inr _ \<Rightarrow> em_tables s' = em_tables (s\<lparr>socket_read_callbacks := map_insert (socket_read_callbacks s) n c\<rparr>)
    | Inl e \<Rightarrow> em_tables s' = em_tables s"
  unfolding addSignal_def addProcess_def addSocketRead_def
  by (rule epoll.add_signal epoll.add_process epoll.add_socket; assumption)+

text \<open>A submitted call is dispatched by the next wait, before the kernel is asked for anything.\<close>

lemma pending_dispatched:
  assumes "getPendingEvent s = (Inr (Some e), s1)"
  shows "em_waitForEvent pf run t s = dispatch_event run e s1"
  unfolding em_waitForEvent_def by (rule epoll.dispatch_pending [OF assms])

section \<open>Timers and processes on kqueue\<close>

text \<open>
  The documented answer of \<open>kevent\<close> to the deletion of an entry right after it was added: it
  succeeds. A one-shot entry is used up only by a call that takes its event.
\<close>

definition kevent_documented :: "platform \<Rightarrow> bool" where
  "kevent_documented pf \<longleftrightarrow>
     (\<forall>h fd i f ff d ff'.
        sys_int pf (Kq (SysKevent fd i f EV_ADD_ONESHOT ff d) # h) (Kq (SysKevent fd i f EV_DELETE ff' 0)) = (0, 0))"

lemma kq_timer_cancelled:
  assumes "kevent_documented pf" and "kq_monitorTimer pf t ms s = (Inr (), s1)"
  shows "\<exists>s2. kq_ignoreTimer pf t s1 = (Inr (), s2) \<and> em_tables s2 = em_tables s1"
proof -
  have "trace s1 = Kq (SysKevent (kqfd s) t EVFILT_TIMER EV_ADD_ONESHOT 0 ms) # trace s" "kqfd s1 = kqfd s"
    using assms(2) by (auto simp: kq_monitorTimer_def changeKevent_def sys_error_def monad_simps split: if_splits prod.splits)
  then have "fst (kq_ignoreTimer pf t s1) = Inr ()"
    using assms(1) by (simp add: kq_ignoreTimer_def changeKevent_def monad_simps kevent_documented_def)
  then show ?thesis
    using kqueue.keeps(6) by (metis prod.collapse tables_kept)
qed

text \<open>
  A process that ends before it is watched is not lost: the registration fails with \<open>ESRCH\<close>, the
  status is fetched at once, and the next wait reports it before the kernel is asked.
\<close>

lemma kq_exit_not_lost:
  assumes "child_status s = []"
    and "sys_int pf (trace s) (Kq (SysKevent (kqfd s) pid EVFILT_PROC EV_ADD_ONESHOT NOTE_EXIT 0)) = (- 1, ESRCH)"
    and "fst (sys_int pf h (Proc (SysWaitpidNohang pid))) = pid"
    and "h = Kq (SysKevent (kqfd s) pid EVFILT_PROC EV_ADD_ONESHOT NOTE_EXIT 0) # trace s" and "0 < pid"
  shows "\<exists>s1. kq_monitorChildProcess pf pid s = (Inr (), s1) \<and>
    kq_waitForEvent pf t s1 = (Inr (Some (ProcEvent pid (sys_wait_status pf h))), s1\<lparr>child_status := []\<rparr>)"
  using assms
  by (simp add: kq_monitorChildProcess_def catch_errno_def changeKevent_def NOTE_EXITSTATUS_def sys_error_def
      waitForProcess_def monad_simps alist_insert_def kq_waitForEvent_def getPendingEvent_def)

text \<open>A timeout is split without loss, rounding towards zero.\<close>

lemma kq_timespec_exact:
  "0 \<le> ms \<Longrightarrow> kq_timespec ms = (ms div 1000, (ms mod 1000) * 1000000)"
  "fst (kq_timespec ms) * 1000000000 + snd (kq_timespec ms) = ms * 1000000"
  by (simp only: kq_timespec_def Let_def if_True minus_div_mult_eq_mod) (simp add: kq_timespec_def Let_def algebra_simps)

text \<open>An interruption is not an event: the wait goes on until the kernel answers something else.\<close>

lemma kq_poll_interrupted:
  assumes "fst (sys_int pf (trace s) (Kq (SysKeventWait (kqfd s) (map_option kq_timespec t)))) < 0"
    and "snd (sys_int pf (trace s) (Kq (SysKeventWait (kqfd s) (map_option kq_timespec t)))) = EINTR"
  shows "kq_poll (Suc n) pf t s =
    kq_poll n pf t (s\<lparr>trace := Kq (SysKeventWait (kqfd s) (map_option kq_timespec t)) # trace s\<rparr>)"
  using assms by (simp add: monad_simps split_beta Let_def)

end
