(* ===== verification/JobCallbacks.thy ===== *)
theory JobCallbacks
  imports JobFacts
begin

text \<open>
  The closures the event manager keeps capture a \<open>Job\<close> by its address. What a call on a job does to
  them: it registers the process it starts, schedules its timers and queues its deletion, each in the
  state of the machine that belongs to it.
\<close>

section \<open>The callbacks of one job\<close>

text \<open>The processes whose exit calls a job.\<close>

definition registered_pids :: "(int \<rightharpoonup> closure) \<Rightarrow> nat \<Rightarrow> int set" where
  "registered_pids cb jid = {p. cb p = Some (OnProcessExit jid)}"

fun closure_job :: "closure \<Rightarrow> nat option" where
  "closure_job (OnProcessExit jid) = Some jid"
| "closure_job (OnThrottleTimer jid) = Some jid"
| "closure_job (OnPeriodicTimer jid) = Some jid"
| "closure_job _ = None"

definition delete_call :: "job_ctx \<Rightarrow> event" where
  "delete_call c = IpcEvent ''delete_job'' (label (jb_manifest (this c)))"

text \<open>
  What a call on a job may do to the tables, seen from the state \<open>a\<close> it started in: only callbacks of
  the job itself are added, and only the deletion of the job is queued.
\<close>

definition job_frame :: "job_ctx \<Rightarrow> job_ctx \<Rightarrow> bool" where
  "job_frame a c \<longleftrightarrow> this_id c = this_id a \<and> jb_manifest (this c) = jb_manifest (this a) \<and>
     (\<forall>p x. process_callbacks c p = Some x \<longrightarrow> process_callbacks a p = Some x \<or> x = OnProcessExit (this_id a)) \<and>
     (\<forall>x \<in> snd ` set (timer_callbacks c). x \<in> snd ` set (timer_callbacks a) \<or>
        x = OnThrottleTimer (this_id a) \<or> x = OnPeriodicTimer (this_id a)) \<and>
     signal_callbacks c = signal_callbacks a \<and> socket_read_callbacks c = socket_read_callbacks a \<and>
     ipc_callbacks c = ipc_callbacks a"

text \<open>
  \<open>at_most X\<close>: but for the processes in \<open>X\<close>, whose exit is being handled, at most one is registered.
\<close>

definition at_most_one :: "int set \<Rightarrow> job_ctx \<Rightarrow> bool" where
  "at_most_one X c \<longleftrightarrow> (\<forall>p \<in> registered_pids (process_callbacks c) (this_id c) - X.
     \<forall>q \<in> registered_pids (process_callbacks c) (this_id c) - X. p = q)"

definition none_registered :: "int set \<Rightarrow> job_ctx \<Rightarrow> bool" where
  "none_registered X c \<longleftrightarrow> registered_pids (process_callbacks c) (this_id c) \<subseteq> X"

text \<open>
  The calls queued on behalf of the job: none, or exactly its deletion; \<open>a\<close> is where it started.
\<close>

definition job_kept :: "int set \<Rightarrow> job_ctx \<Rightarrow> job_ctx \<Rightarrow> bool" where
  "job_kept X a c \<longleftrightarrow> job_frame a c \<and> at_most_one X c \<and>
     (none_registered X c \<or> jb_state (this c) = Running) \<and>
     (queued_calls c = queued_calls a \<and> (jb_state (this a) = Unloaded \<longrightarrow> jb_state (this c) = Unloaded) \<or>
      jb_state (this a) \<noteq> Unloaded \<and> jb_state (this c) = Unloaded \<and>
      queued_calls c = queued_calls a @ [delete_call a])"

text \<open>Nothing registered and nothing queued: any state of the machine will do.\<close>

definition job_clean :: "int set \<Rightarrow> job_ctx \<Rightarrow> job_ctx \<Rightarrow> bool" where
  "job_clean X a c \<longleftrightarrow> job_frame a c \<and> none_registered X c \<and> queued_calls c = queued_calls a \<and>
     jb_state (this a) \<noteq> Unloaded"

lemma job_tables_eq:
  assumes "em_tables c = em_tables d" and "queued_calls c = queued_calls d"
  shows "job_frame a c = job_frame a d" and "at_most_one X c = at_most_one X d"
    and "none_registered X c = none_registered X d" and "job_kept X a c = job_kept X a d"
    and "job_clean X a c = job_clean X a d"
proof -
  have "this_id c = this_id d" "this c = this d" "process_callbacks c = process_callbacks d"
    "timer_callbacks c = timer_callbacks d" "signal_callbacks c = signal_callbacks d"
    "socket_read_callbacks c = socket_read_callbacks d" "ipc_callbacks c = ipc_callbacks d"
    using assms(1) em_more_this [of c d] by (auto simp: em_tables_def)
  note eqs = this assms(2)
  show f: "job_frame a c = job_frame a d" and o: "at_most_one X c = at_most_one X d"
    and n: "none_registered X c = none_registered X d"
    by (simp_all only: eqs job_frame_def at_most_one_def none_registered_def)
  show "job_kept X a c = job_kept X a d" "job_clean X a c = job_clean X a d"
    unfolding job_kept_def job_clean_def f o n using eqs by simp_all
qed

lemma sys_indep_job: "sys_indep (job_kept X a)" "sys_indep (job_clean X a)"
  unfolding sys_indep_def using job_tables_eq(4,5) by blast+

lemma job_indep_job: "job_indep (job_clean X a)" "job_indep (job_kept X a)"
proof -
  have "core (f j) = core j \<Longrightarrow> jb_state (f j) = jb_state j \<and> jb_manifest (f j) = jb_manifest j" for f and j :: job
    by (simp add: core_def)
  then show "job_indep (job_clean X a)" "job_indep (job_kept X a)"
    unfolding job_indep_def using sys_indep_job
    by (auto simp: job_clean_def job_kept_def job_frame_def none_registered_def at_most_one_def queued_calls_def)
qed

lemma clean_kept: "job_clean X a c \<Longrightarrow> job_kept X a c"
  by (auto simp: job_clean_def job_kept_def none_registered_def at_most_one_def)

lemma clean_put: "job_clean X a c \<Longrightarrow> job_kept X a (put_job_state st c)"
  unfolding job_clean_def job_kept_def job_frame_def none_registered_def at_most_one_def
    queued_calls_def put_job_state_def by auto

lemma preserves_clean_updJ:
  "(\<And>j. jb_manifest (f j) = jb_manifest j) \<Longrightarrow> preserves (job_clean X a) (updJ f)"
  by (auto simp: preserves_def updJ_apply job_clean_def job_frame_def none_registered_def queued_calls_def)

text \<open>The timers of the job.\<close>

lemma preserves_clean_timers:
  "preserves (job_clean X a) (deleteTimer pf t)"
  "preserves (\<lambda>c. job_clean X a c \<and> (\<exists>i. cl = OnThrottleTimer i \<or> cl = OnPeriodicTimer i) \<and> closure_job cl = Some (this_id c))
     (addTimer pf ms cl)"
proof -
  let ?T = "\<lambda>c. job_clean X a c \<and> (\<exists>i. cl = OnThrottleTimer i \<or> cl = OnPeriodicTimer i) \<and> closure_job cl = Some (this_id c)"
  have sys: "sys_indep ?T"
    using sys_indep_job(2) [of X a] unfolding sys_indep_def by (metis em_more_tables em_more_this)
  have upd: "job_clean X a c \<Longrightarrow> set (timer_callbacks (f c)) \<subseteq> set (timer_callbacks c) \<Longrightarrow>
      this (f c) = this c \<and> this_id (f c) = this_id c \<and> process_callbacks (f c) = process_callbacks c \<and>
      signal_callbacks (f c) = signal_callbacks c \<and> socket_read_callbacks (f c) = socket_read_callbacks c \<and>
      ipc_callbacks (f c) = ipc_callbacks c \<and> pending_events (f c) = pending_events c \<Longrightarrow> job_clean X a (f c)" for f c
    by (auto simp: job_clean_def job_frame_def none_registered_def queued_calls_def)
  show "preserves (job_clean X a) (deleteTimer pf t)"
    unfolding deleteTimer_def ignoreTimer_def
    by (rule preserves_modifyM, erule upd; auto simp: AList.delete_eq; fail
        | rule sys_indep_job preserves_em_basic preserves_prod2)+
  have ins: "?T c \<Longrightarrow> ?T (c\<lparr>timer_callbacks := alist_insert i cl (timer_callbacks c)\<rparr>)" for i c
    by (auto simp: job_clean_def job_frame_def none_registered_def queued_calls_def alist_insert_def)
  have mx: "?T c \<Longrightarrow> ?T (c\<lparr>timer_id_max := i\<rparr>)" for i c
    by (auto simp: job_clean_def job_frame_def none_registered_def queued_calls_def)
  show "preserves ?T (addTimer pf ms cl)"
    unfolding em_timer_defs
    by (rule preserves_modifyM, erule ins mx
        | (rule preserves_sys_modify [OF sys]; simp add: em_tables_def queued_calls_def; fail)
        | rule sys preserves_em_basic preserves_prod2)+
qed

lemma preserves_clean_actions:
  "preserves (job_clean X a) (cancel_if_set pf)"
  "preserves (job_clean X a) (schedulePeriodicJob pf)"
  "preserves (job_clean X a) (startAfterThrottleInterval pf)"
proof -
  have add_me: "preserves (job_clean X a) (bindM (getsM this_id) (\<lambda>me. bindM (addTimer pf (ms me) (cl me)) f))"
    if cl: "\<And>me. cl me = OnThrottleTimer me \<or> cl me = OnPeriodicTimer me" and f: "\<And>x. preserves (job_clean X a) (f x)" for ms cl f
  proof (unfold preserves_def, intro allI impI)
    fix c assume c: "job_clean X a c"
    obtain r d where m: "addTimer pf (ms (this_id c)) (cl (this_id c)) c = (r, d)" by fastforce
    have "closure_job (cl (this_id c)) = Some (this_id c)" using cl [of "this_id c"] by auto
    then have "job_clean X a d"
      using preservesE [OF preserves_clean_timers(2) m] c cl [of "this_id c"] by blast
    then show "job_clean X a (snd (bindM (getsM this_id) (\<lambda>me. bindM (addTimer pf (ms me) (cl me)) f) c))"
      using m preservesD [OF f] by (cases r) (simp_all add: monad_simps)
  qed
  note ops = preserves_getJ preserves_opt_value preserves_c_assert preserves_bindM preserves_thenM preserves_whenM
    preserves_sys_time preserves_failM preserves_returnM preserves_option
  have upd: "preserves (job_clean X a) (updJ (jb_timer_id_update f))" for f
    by (rule preserves_clean_updJ) simp
  show "preserves (job_clean X a) (cancel_if_set pf)"
    unfolding cancel_if_set_def cancelTimer_def by (rule upd preserves_clean_timers(1) ops)+
  show "preserves (job_clean X a) (schedulePeriodicJob pf)"
    unfolding schedulePeriodicJob_def
    by (rule add_me | rule upd ops sys_indep_job | simp)+
  show "preserves (job_clean X a) (startAfterThrottleInterval pf)"
    unfolding startAfterThrottleInterval_def started_time_def Let_def
    by (rule add_me | rule upd ops sys_indep_job | simp)+
qed

text \<open>The actions that end with a registration or a queued deletion, and the move that follows them.\<close>

lemma start_and_move: "carries (job_clean X a) (thenM (job_startJob pf) (modifyM (put_job_state Running))) (job_kept X a)"
proof -
  have put: "carries (job_clean X a) (modifyM (put_job_state Running)) (job_kept X a)"
    by (rule carries_modifyM) (rule clean_put)
  have reg: "job_clean X a c \<Longrightarrow> job_kept X a (put_job_state Running
      (c\<lparr>process_callbacks := map_insert (process_callbacks c) p (OnProcessExit (this_id c))\<rparr>))" for p c
    unfolding job_clean_def job_kept_def job_frame_def none_registered_def at_most_one_def registered_pids_def
      queued_calls_def put_job_state_def map_insert_def by (auto split: if_splits)
  have last: "carries (job_clean X a) (bindM (getsM this_id) (\<lambda>me. thenM (addProcess pf p (OnProcessExit me))
      (modifyM (put_job_state Running)))) (job_kept X a)" for p
  proof -
    have mon: "preserves (job_clean X a) (monitorChildProcess pf p)"
      unfolding monitorChildProcess_def
      by ((rule preserves_sys_modify [OF sys_indep_job(2)]; simp add: em_tables_def queued_calls_def; fail)
        | rule sys_indep_job preserves_em_basic preserves_prod2)+
    have "job_clean X a c \<Longrightarrow> job_kept X a (snd (thenM (addProcess pf p (OnProcessExit (this_id c)))
      (modifyM (put_job_state Running)) c))" for c
    proof -
      assume c: "job_clean X a c"
      obtain r d where m: "monitorChildProcess pf p c = (r, d)" by fastforce
      have d: "job_clean X a d" using preservesE [OF mon m c] .
      then have "this_id d = this_id c" using c by (simp add: job_clean_def job_frame_def)
      then show ?thesis
        using m d reg [OF d, of p] clean_kept [OF d] by (cases r) (simp_all add: addProcess_def monad_simps)
    qed
    then show ?thesis by (simp add: carries_def bindM_apply [of "getsM _"] getsM_apply)
  qed
  have fork: "preserves (job_clean X a) (handleFork pf)"
    by (rule preserves_handleFork) (rule sys_indep_job)
  have run: "preserves (job_clean X a) (job_run pf (handleFork pf))"
    by (rule preserves_job_run [OF job_indep_job(1) fork])
  have upd: "preserves (job_clean X a) (updJ (jb_started_at_update f))" for f
    by (rule preserves_clean_updJ) simp
  show ?thesis
    unfolding job_startJob_def thenM_distrib
    by (rule carries_bindM carries_thenM carries_if last put run upd preserves_sys_time sys_indep_job preserves_getJ
        clean_kept | assumption)+
qed

lemma delete_and_move: "carries (job_clean X a) (thenM submit_delete (modifyM (put_job_state Unloaded))) (job_kept X a)"
proof -
  have "job_clean X a c \<Longrightarrow> job_kept X a (put_job_state Unloaded (c\<lparr>pending_events := pending_events c @ [delete_call c]\<rparr>))" for c
    unfolding job_clean_def job_kept_def job_frame_def none_registered_def at_most_one_def
      queued_calls_def put_job_state_def delete_call_def by auto
  then show ?thesis
    by (simp add: carries_def submit_delete_def submitIpcCallback_def addPendingEvent_def monad_simps delete_call_def)
qed

lemma keep_and_move: "preserves (job_clean X a) m \<Longrightarrow> carries (job_clean X a) (thenM m (modifyM (put_job_state st))) (job_kept X a)"
  by (rule carries_thenM) (auto intro: carries_modifyM clean_put clean_kept)

lemma kept_clean:
  "job_kept X a c \<Longrightarrow> jb_state (this c) \<noteq> Unloaded \<Longrightarrow> none_registered X c \<Longrightarrow> job_clean X a c"
  by (auto simp: job_kept_def job_clean_def)

lemma kept_idle: "job_kept X a c \<Longrightarrow> jb_state (this c) \<in> {Loaded, Waiting, Exited} \<Longrightarrow> job_clean X a c"
  by (auto simp: job_kept_def job_clean_def)

lemma carries_strengthen: "carries P m Q \<Longrightarrow> (\<And>s. P' s \<Longrightarrow> P s) \<Longrightarrow> carries P' m Q"
  by (auto simp: carries_def)

lemma kept_stop: "preserves (job_kept X a) (job_killJob pf sig)"
  by (rule preserves_job_killJob) (rule sys_indep_job)

lemma kept_put_same: "job_kept X a c \<Longrightarrow> jb_state (this c) \<noteq> Unloaded \<Longrightarrow> job_kept X a (put_job_state Running c)"
  unfolding job_kept_def job_frame_def none_registered_def at_most_one_def queued_calls_def put_job_state_def by auto

lemma cancel_and_move:
  "carries (job_clean X a) (thenM (cancel_if_set pf) (thenM (job_startJob pf) (modifyM (put_job_state Running)))) (job_kept X a)"
  "carries (job_clean X a) (thenM (cancel_if_set pf) (thenM submit_delete (modifyM (put_job_state Unloaded)))) (job_kept X a)"
  by (rule carries_thenM [OF preserves_clean_actions(1)] start_and_move delete_and_move clean_kept | assumption)+

text \<open>
  A trigger keeps the callbacks of a job in order; \<open>ProcessExited\<close> when no other process of the job is
  registered.
\<close>

lemma job_guards_kept:
  assumes "t \<in> set (job_table pf exec)" and "guard t = Some g"
  shows "preserves (\<lambda>c. (job_kept X a c \<and> (b \<longrightarrow> none_registered X c)) \<and> get_job_state c = st) g"
proof -
  have "sys_indep (\<lambda>c. (job_kept X a c \<and> (b \<longrightarrow> none_registered X c)) \<and> get_job_state c = st)"
    unfolding sys_indep_def get_job_state_def
    by (metis em_more_tables em_more_this job_tables_eq(3) job_tables_eq(4))
  then show ?thesis
    using assms unfolding job_table_def by (auto intro!: preserves_guards)
qed

lemma execute_unnested_kept:
  assumes "tr \<noteq> Bootstrap"
  shows "carries (\<lambda>c. job_kept X a c \<and> (tr = ProcessExited \<longrightarrow> none_registered X c)) (job_execute_n (Suc n) pf tr) (job_kept X a)"
  unfolding job_execute_n.simps
proof (rule carries_execute_rows)
  let ?K = "\<lambda>c. job_kept X a c \<and> (tr = ProcessExited \<longrightarrow> none_registered X c)"
  fix t assume t: "t \<in> set (job_table pf (job_execute_n n pf))"
  show "preserves (\<lambda>c. ?K c \<and> get_job_state c = from_state t) g" if "guard t = Some g" for g
    by (rule job_guards_kept [OF t that])
  assume tr: "trigger t = tr"
  let ?m = "thenM (case action t of None \<Rightarrow> returnM () | Some a \<Rightarrow> a) (modifyM (put_job_state (to_state t)))"
  show "carries (\<lambda>c. ?K c \<and> get_job_state c = from_state t) ?m (job_kept X a)"
  proof (cases "tr = StopRequested")
    case True
    then have m: "?m = thenM (job_killJob pf SIGTERM) (modifyM (put_job_state Running))" and f: "from_state t = Running"
      using t tr by (auto simp: job_table_def thenM_distrib)
    have k: "preserves (\<lambda>c. job_kept X a c \<and> get_job_state c = Running) (job_killJob pf SIGTERM)"
      by (rule preserves_conj [OF kept_stop]) (simp only: get_job_state_def, rule preserves_job_killJob, rule sys_indep_this)
    show ?thesis
      unfolding m f
      by (rule carries_strengthen [OF carries_thenM [OF k carries_modifyM]])
        (auto simp: get_job_state_def intro: kept_put_same)
  next
    case False
    have "carries (job_clean X a) ?m (job_kept X a)"
      using t tr assms False cancel_and_move start_and_move [of X a pf] delete_and_move [of X a]
        keep_and_move [OF preserves_clean_actions(3), of X a pf] keep_and_move [OF preserves_returnM, of X a "()"]
      by (auto simp: job_table_def thenM_distrib)
    moreover have "job_clean X a c" if "?K c \<and> get_job_state c = from_state t" for c
      using that t tr assms False kept_idle [of X a c] kept_clean [of X a c]
      by (auto simp: job_table_def get_job_state_def)
    ultimately show ?thesis by (rule carries_strengthen)
  qed
qed simp

lemma start_requested_kept: "preserves (\<lambda>c. job_kept X a c \<and> jb_state (this c) \<noteq> Unloaded) (job_execute_n 1 pf StartRequested)"
proof (unfold preserves_def, intro allI impI)
  fix c assume c: "job_kept X a c \<and> jb_state (this c) \<noteq> Unloaded"
  obtain r d where m: "job_execute_n 1 pf StartRequested c = (r, d)" by fastforce
  have "job_kept X a d"
    using carriesD [OF execute_unnested_kept [of StartRequested X a 0 pf]] c m by force
  moreover have "job_execute pf StartRequested c = (r, d)"
    using m job_execute_n_unnested [of StartRequested 1 pf c 0] by (simp add: job_execute_def numeral_2_eq_2)
  then have "get_job_state d \<noteq> Unloaded"
    using job_execute_cases [where pf = pf and tr = StartRequested and s = c] c
    by (cases r) (auto simp: get_job_state_def split: fsm_status.splits elim: job_edge.cases)
  ultimately show "job_kept X a (snd (job_execute_n 1 pf StartRequested c)) \<and>
      jb_state (this (snd (job_execute_n 1 pf StartRequested c))) \<noteq> Unloaded"
    using m by (simp add: get_job_state_def)
qed

lemma execute_kept:
  "carries (\<lambda>c. job_kept X a c \<and> (tr = ProcessExited \<longrightarrow> none_registered X c)) (job_execute pf tr) (job_kept X a)"
proof (cases "tr = Bootstrap")
  case False
  then show ?thesis using execute_unnested_kept [of tr X a 1 pf] by (simp add: job_execute_def numeral_2_eq_2)
next
  case True
  have "carries (job_kept X a) (job_execute_n (Suc 1) pf Bootstrap) (job_kept X a)"
    unfolding job_execute_n.simps
  proof (rule carries_execute_rows)
    fix t assume t: "t \<in> set (job_table pf (job_execute_n 1 pf))"
    show "preserves (\<lambda>c. job_kept X a c \<and> get_job_state c = from_state t) g" if "guard t = Some g" for g
      using job_guards_kept [OF t that, of X a False] by simp
    assume tr: "trigger t = Bootstrap"
    let ?m = "thenM (case action t of None \<Rightarrow> returnM () | Some a \<Rightarrow> a) (modifyM (put_job_state (to_state t)))"
    have "carries (\<lambda>c. job_kept X a c \<and> jb_state (this c) \<noteq> Unloaded)
        (thenM (job_execute_n 1 pf StartRequested) (modifyM (put_job_state Running))) (job_kept X a)"
      by (rule carries_thenM [OF start_requested_kept carries_modifyM]) (auto intro: kept_put_same)
    moreover have "carries (job_clean X a) (thenM (schedulePeriodicJob pf) (modifyM (put_job_state Waiting))) (job_kept X a)"
      by (rule keep_and_move) (rule preserves_clean_actions)
    ultimately show "carries (\<lambda>c. job_kept X a c \<and> get_job_state c = from_state t) ?m (job_kept X a)"
      using t tr by (auto simp: job_table_def thenM_distrib get_job_state_def
          simp del: job_execute_n.simps elim!: carries_strengthen intro: kept_idle)
  qed simp
  then show ?thesis using True by (simp add: job_execute_def numeral_2_eq_2)
qed

text \<open>What the manager and the event loop call.\<close>

lemma execute_kept_any: "tr \<noteq> ProcessExited \<Longrightarrow> preserves (job_kept X a) (job_execute pf tr)"
  using execute_kept [of X a tr pf] by (simp add: preserves_carries)

lemma preserves_kept_updJ:
  "(\<And>j. jb_manifest (f j) = jb_manifest j \<and> jb_state (f j) = jb_state j) \<Longrightarrow> preserves (job_kept X a) (updJ f)"
  unfolding preserves_def updJ_apply job_kept_def job_frame_def none_registered_def at_most_one_def
    queued_calls_def by auto

lemma unload_kept: "preserves (job_kept X a) (job_unloadJob pf force)"
  unfolding job_unloadJob_def
  by (rule execute_kept_any preserves_kept_updJ preserves_isDisabled sys_indep_job preserves_getsM preserves_getJ
      preserves_bindM preserves_thenM preserves_if preserves_returnM | (simp; fail))+

lemma throttle_kept: "preserves (job_kept X a) (on_throttle_timer pf)"
  unfolding on_throttle_timer_def
  by (rule execute_kept_any preserves_kept_updJ preserves_thenM preserves_returnM | (simp; fail))+

lemma exit_kept: "carries (\<lambda>c. job_kept X a c \<and> none_registered X c) (on_process_exit pf status) (job_kept X a)"
proof -
  let ?K = "\<lambda>c. job_kept X a c \<and> none_registered X c"
  have sys: "sys_indep ?K"
    unfolding sys_indep_def by (metis job_tables_eq(3,4))
  have upd: "(\<And>j. jb_manifest (f j) = jb_manifest j \<and> jb_state (f j) = jb_state j) \<Longrightarrow> preserves ?K (updJ f)" for f
    by (rule preserves_conj, erule preserves_kept_updJ) (simp add: preserves_def updJ_apply none_registered_def)
  have reap: "preserves ?K (reapChildProcess pf status)"
    unfolding reapChildProcess_def
    by (rule upd sys preserves_killProcessGroup preserves_thenM preserves_if preserves_returnM preserves_throwM | (simp; fail))+
  have "carries ?K (job_execute pf ProcessExited) (job_kept X a)"
    using execute_kept [of X a ProcessExited pf] by simp
  then have "carries ?K (thenM (job_execute pf ProcessExited) (returnM ())) (job_kept X a)"
    by (rule carries_then) (rule preserves_returnM)
  then show ?thesis
    unfolding on_process_exit_def
    by (intro carries_if carries_returnM carries_thenM [OF reap]) auto
qed

lemma job_start_kept: "(none_registered X a \<or> jb_state (this a) = Running) \<Longrightarrow> at_most_one X a \<Longrightarrow> job_kept X a a"
  by (auto simp: job_kept_def job_frame_def)

end
