(* ===== verification/Callbacks.thy ===== *)
theory Callbacks
  imports JobCallbacks DaemonFacts Kqueue
begin

text \<open>
  The callbacks of the daemon: which closures its tables hold, and that requests, loading, starting,
  unloading and the machine of the manager keep them in order.
\<close>

section \<open>The callbacks of the daemon\<close>

text \<open>
  \<open>calls_ok X\<close>: the tables hold closures of the right kind; a process that is registered, unless its
  exit is being handled, belongs to a job that is alive and running, and no other process of that job
  is registered; no queued job was started; and every queued deletion is that of a job in the table
  that is unloaded.
\<close>

definition started :: "mgr \<Rightarrow> nat set" where
  "started s = {i. (\<exists>p. process_callbacks s p = Some (OnProcessExit i)) \<or>
     (\<exists>x \<in> snd ` set (timer_callbacks s). closure_job x = Some i)}"

definition tables_ok :: "mgr \<Rightarrow> bool" where
  "tables_ok s \<longleftrightarrow>
     ran (signal_callbacks s) \<subseteq> {OnSigpipe, OnSigint, OnSigusr1, OnSigusr2, OnSigterm} \<and>
     ran (socket_read_callbacks s) \<subseteq> {OnRpcReadable} \<and> ran (ipc_callbacks s) \<subseteq> {OnDeleteJob} \<and>
     ran (process_callbacks s) \<subseteq> range OnProcessExit \<and>
     snd ` set (timer_callbacks s) \<subseteq> range OnThrottleTimer \<union> range OnPeriodicTimer"

definition calls_ok :: "int set \<Rightarrow> mgr \<Rightarrow> bool" where
  "calls_ok X s \<longleftrightarrow> tables_ok s \<and>
     (\<forall>i. registered_pids (process_callbacks s) i - X \<noteq> {} \<longrightarrow>
        (\<exists>j. heap s i = Some j \<and> jb_state j = Running)) \<and>
     (\<forall>i. \<forall>p \<in> registered_pids (process_callbacks s) i - X. \<forall>q \<in> registered_pids (process_callbacks s) i - X. p = q) \<and>
     (\<forall>i \<in> started s. i < next_id s \<and> (\<forall>l. (l, Some i) \<notin> set (pending_jobs s))) \<and>
     distinct (queued_calls s) \<and>
     (\<forall>e \<in> set (queued_calls s). \<exists>l i j. e = IpcEvent ''delete_job'' l \<and> (l, i) \<in> set (jobs s) \<and>
        heap s i = Some j \<and> jb_state j = Unloaded)"

lemma calls_okD:
  assumes "calls_ok X s"
  shows "tables_ok s"
    and "registered_pids (process_callbacks s) i - X \<noteq> {} \<Longrightarrow> \<exists>j. heap s i = Some j \<and> jb_state j = Running"
    and "p \<in> registered_pids (process_callbacks s) i - X \<Longrightarrow> q \<in> registered_pids (process_callbacks s) i - X \<Longrightarrow> p = q"
    and "i \<in> started s \<Longrightarrow> i < next_id s" and "i \<in> started s \<Longrightarrow> (l, Some i) \<notin> set (pending_jobs s)"
    and "distinct (queued_calls s)"
    and "e \<in> set (queued_calls s) \<Longrightarrow> \<exists>l i j. e = IpcEvent ''delete_job'' l \<and> (l, i) \<in> set (jobs s) \<and>
        heap s i = Some j \<and> jb_state j = Unloaded"
proof -
  note c = assms [unfolded calls_ok_def]
  show "tables_ok s" by (rule conjunct1 [OF c])
  note c1 = conjunct2 [OF c] and c2 = conjunct2 [OF conjunct2 [OF c]]
  show "registered_pids (process_callbacks s) i - X \<noteq> {} \<Longrightarrow> \<exists>j. heap s i = Some j \<and> jb_state j = Running"
    by (rule conjunct1 [OF c1, rule_format])
  show "p \<in> registered_pids (process_callbacks s) i - X \<Longrightarrow> q \<in> registered_pids (process_callbacks s) i - X \<Longrightarrow> p = q"
    by (rule conjunct1 [OF c2, rule_format])
  note c3 = conjunct2 [OF c2]
  show "i \<in> started s \<Longrightarrow> i < next_id s" "i \<in> started s \<Longrightarrow> (l, Some i) \<notin> set (pending_jobs s)"
    using conjunct1 [OF c3] by blast+
  show "distinct (queued_calls s)" by (rule conjunct1 [OF conjunct2 [OF c3]])
  show "e \<in> set (queued_calls s) \<Longrightarrow> \<exists>l i j. e = IpcEvent ''delete_job'' l \<and> (l, i) \<in> set (jobs s) \<and>
        heap s i = Some j \<and> jb_state j = Unloaded"
    by (rule conjunct2 [OF conjunct2 [OF c3], rule_format])
qed

lemma calls_okI:
  assumes "tables_ok s"
    and "\<And>i. registered_pids (process_callbacks s) i - X \<noteq> {} \<Longrightarrow> \<exists>j. heap s i = Some j \<and> jb_state j = Running"
    and "\<And>i p q. p \<in> registered_pids (process_callbacks s) i - X \<Longrightarrow> q \<in> registered_pids (process_callbacks s) i - X \<Longrightarrow> p = q"
    and "\<And>i. i \<in> started s \<Longrightarrow> i < next_id s \<and> (\<forall>l. (l, Some i) \<notin> set (pending_jobs s))"
    and "distinct (queued_calls s)"
    and "\<And>e. e \<in> set (queued_calls s) \<Longrightarrow> \<exists>l i j. e = IpcEvent ''delete_job'' l \<and> (l, i) \<in> set (jobs s) \<and>
        heap s i = Some j \<and> jb_state j = Unloaded"
  shows "calls_ok X s"
  unfolding calls_ok_def using assms(1,5)
  by (intro conjI allI ballI impI assms(2) assms(3) assms(6) conjunct1 [OF assms(4)]
      conjunct2 [OF assms(4), THEN spec]) assumption+

definition daemon_calls :: "int set \<Rightarrow> mgr \<Rightarrow> bool" where
  "daemon_calls X s \<longleftrightarrow> mgr_ok s \<and> calls_ok X s"

text \<open>The part of the manager these predicates look at.\<close>

lemma calls_ok_fields:
  assumes "calls_ok X s" and "signal_callbacks t = signal_callbacks s" "process_callbacks t = process_callbacks s"
    "socket_read_callbacks t = socket_read_callbacks s" "timer_callbacks t = timer_callbacks s"
    "ipc_callbacks t = ipc_callbacks s" "queued_calls t = queued_calls s" "heap t = heap s" "next_id t = next_id s"
    "jobs t = jobs s" "pending_jobs t = pending_jobs s"
  shows "calls_ok X t"
  using assms(1) unfolding calls_ok_def tables_ok_def started_def assms(2-) by assumption

lemma em_tables_more: "em_tables (s :: mgr) = em_tables t \<Longrightarrow>
  signal_callbacks s = signal_callbacks t \<and> process_callbacks s = process_callbacks t \<and>
  socket_read_callbacks s = socket_read_callbacks t \<and> timer_callbacks s = timer_callbacks t \<and>
  ipc_callbacks s = ipc_callbacks t \<and> heap s = heap t \<and> next_id s = next_id t \<and> jobs s = jobs t \<and>
  pending_jobs s = pending_jobs t \<and> mstate s = mstate t \<and> chan s = chan t \<and> mdomain s = mdomain t \<and>
  pending_result s = pending_result t"
  by (cases s, cases t) (simp add: em_tables_def)

lemma sys_indep_calls: "sys_indep (calls_ok X)" "sys_indep (daemon_calls X)"
proof -
  show "sys_indep (calls_ok X)"
    unfolding sys_indep_def using em_tables_more by (metis calls_ok_fields)
  moreover have "sys_indep mgr_ok" by (rule sys_indep_em) (rule em_indep_ok)
  ultimately show "sys_indep (daemon_calls X)"
    unfolding daemon_calls_def sys_indep_def by blast
qed

lemma job_in_em [simp]:
  "process_callbacks (job_in s i j) = process_callbacks s" "timer_callbacks (job_in s i j) = timer_callbacks s"
  "signal_callbacks (job_in s i j) = signal_callbacks s" "ipc_callbacks (job_in s i j) = ipc_callbacks s"
  "socket_read_callbacks (job_in s i j) = socket_read_callbacks s" "queued_calls (job_in s i j) = queued_calls s"
  "pending_events (job_in s i j) = pending_events s" "child_status (job_in s i j) = child_status s" "sf_current (job_in s i j) = sf_current s"
  by (simp_all add: job_in_def em_state.defs job_ctx.defs queued_calls_def)

lemma job_out_em [simp]:
  "process_callbacks (job_out s i c) = process_callbacks c" "timer_callbacks (job_out s i c) = timer_callbacks c"
  "signal_callbacks (job_out s i c) = signal_callbacks c" "ipc_callbacks (job_out s i c) = ipc_callbacks c"
  "socket_read_callbacks (job_out s i c) = socket_read_callbacks c" "queued_calls (job_out s i c) = queued_calls c"
  "pending_events (job_out s i c) = pending_events c" "child_status (job_out s i c) = child_status c" "sf_current (job_out s i c) = sf_current c"
  by (simp_all add: job_out_def em_state.defs queued_calls_def)

text \<open>A job that is alive and not queued is in the table, under its label.\<close>

lemma owned_facts:
  assumes "mgr_ok s"
  shows "heap s i = Some j \<Longrightarrow> (\<forall>l. (l, Some i) \<notin> set (pending_jobs s)) \<Longrightarrow> (label (jb_manifest j), i) \<in> set (jobs s)"
    and "heap s i = Some j \<Longrightarrow> i < next_id s" and "(l, i) \<in> set (jobs s) \<Longrightarrow> (l, Some i) \<notin> set (pending_jobs s)"
    and "(l, i) \<in> set (jobs s) \<Longrightarrow> (l, k) \<in> set (jobs s) \<Longrightarrow> i = k"
    and "(l, i) \<in> set (jobs s) \<Longrightarrow> \<exists>j. heap s i = Some j \<and> label (jb_manifest j) = l"
    and "(l, i) \<in> set (jobs s) \<Longrightarrow> (l', Some i) \<notin> set (pending_jobs s)"
    and "(l, i) \<in> set (jobs s) \<Longrightarrow> (l', i) \<in> set (jobs s) \<Longrightarrow> l = l'"
proof -
  let ?h = "map_option jb_manifest \<circ> heap s" and ?xs = "jobs s @ pend_owned (pending_jobs s)"
  have o: "own_ok ?h (next_id s) ?xs" and d: "distinct (map fst (pending_jobs s))"
    using assms by (simp_all add: mgr_ok_def view_def)
  have dom: "dom ?h = snd ` set ?xs" and own: "\<forall>x \<in> set ?xs. \<exists>m. ?h (snd x) = Some m \<and> label m = fst x"
    and lt: "\<forall>i \<in> dom ?h. i < next_id s" and df: "distinct (map fst ?xs)" and ds: "distinct (map snd ?xs)"
    using o by (simp_all add: own_ok_def)
  show inj: "heap s i = Some j \<Longrightarrow> (\<forall>l. (l, Some i) \<notin> set (pending_jobs s)) \<Longrightarrow> (label (jb_manifest j), i) \<in> set (jobs s)"
  proof -
    assume h: "heap s i = Some j" and n: "\<forall>l. (l, Some i) \<notin> set (pending_jobs s)"
    have "i \<in> dom ?h" using h by (simp add: domIff)
    then obtain x where x: "x \<in> set ?xs" "snd x = i" unfolding dom by force
    then have "x \<in> set (jobs s)"
      using n pend_owned_sub [of "fst x" "snd x" "pending_jobs s"] by auto
    moreover have "fst x = label (jb_manifest j)" using own x h by fastforce
    ultimately show ?thesis using x(2) by (metis prod.collapse)
  qed
  show "heap s i = Some j \<Longrightarrow> i < next_id s" using lt by (auto simp: domIff)
  have pend: "(l, Some i) \<in> set ps \<Longrightarrow> (l, i) \<in> set (pend_owned ps)" for l i ps
    by (induction ps) (auto split: option.splits)
  show "(l, i) \<in> set (jobs s) \<Longrightarrow> (l, Some i) \<notin> set (pending_jobs s)"
    using df pend by (fastforce simp: image_iff)
  show "(l, i) \<in> set (jobs s) \<Longrightarrow> (l, k) \<in> set (jobs s) \<Longrightarrow> i = k"
    using df by (auto dest: eq_key_imp_eq_value)
  show "(l, i) \<in> set (jobs s) \<Longrightarrow> \<exists>j. heap s i = Some j \<and> label (jb_manifest j) = l"
    using own by (auto dest!: bspec [where x = "(l, i)"])
  show "(l, i) \<in> set (jobs s) \<Longrightarrow> (l', Some i) \<notin> set (pending_jobs s)"
  proof
    assume a: "(l, i) \<in> set (jobs s)" "(l', Some i) \<in> set (pending_jobs s)"
    then have "i \<in> snd ` set (jobs s) \<inter> snd ` set (pend_owned (pending_jobs s))" using pend by force
    then show False using ds by auto
  qed
  show "(l, i) \<in> set (jobs s) \<Longrightarrow> (l', i) \<in> set (jobs s) \<Longrightarrow> l = l'"
    using ds by (metis distinct_append distinct_map inj_onD map_append prod.inject snd_conv)
qed

lemma job_out_calls:
  assumes ok: "daemon_calls X s" and j: "heap s i = Some j" and np: "\<forall>l. (l, Some i) \<notin> set (pending_jobs s)"
    and kept: "job_kept X (job_in s i j) c"
  shows "calls_ok X (job_out s i c)"
proof -
  let ?a = "job_in s i j"
  have m: "mgr_ok s" and o: "calls_ok X s" using ok by (simp_all add: daemon_calls_def)
  have fr: "this_id c = i" "jb_manifest (this c) = jb_manifest j"
    "\<And>p x. process_callbacks c p = Some x \<Longrightarrow> process_callbacks s p = Some x \<or> x = OnProcessExit i"
    "\<And>x. x \<in> snd ` set (timer_callbacks c) \<Longrightarrow> x \<in> snd ` set (timer_callbacks s) \<or> x = OnThrottleTimer i \<or> x = OnPeriodicTimer i"
    "signal_callbacks c = signal_callbacks s" "socket_read_callbacks c = socket_read_callbacks s" "ipc_callbacks c = ipc_callbacks s"
    using kept by (auto simp: job_kept_def job_frame_def)
  have sub: "k \<noteq> i \<Longrightarrow> registered_pids (process_callbacks c) k \<subseteq> registered_pids (process_callbacks s) k" for k
    using fr(3) by (auto simp: registered_pids_def)
  have tab: "tables_ok (job_out s i c)"
  proof -
    have t: "tables_ok s" by (rule calls_okD [OF o])
    have "ran (process_callbacks c) \<subseteq> range OnProcessExit"
    proof
      fix x assume "x \<in> ran (process_callbacks c)"
      then obtain p where "process_callbacks c p = Some x" by (auto simp: ran_def)
      then have "x \<in> ran (process_callbacks s) \<or> x = OnProcessExit i" using fr(3) [of p x] by (auto intro: ranI)
      then show "x \<in> range OnProcessExit" using t unfolding tables_ok_def by blast
    qed
    moreover have "snd ` set (timer_callbacks c) \<subseteq> range OnThrottleTimer \<union> range OnPeriodicTimer"
    proof
      fix x assume "x \<in> snd ` set (timer_callbacks c)"
      then have "x \<in> snd ` set (timer_callbacks s) \<or> x = OnThrottleTimer i \<or> x = OnPeriodicTimer i" by (rule fr(4))
      moreover have "snd ` set (timer_callbacks s) \<subseteq> range OnThrottleTimer \<union> range OnPeriodicTimer"
        using t unfolding tables_ok_def by blast
      ultimately show "x \<in> range OnThrottleTimer \<union> range OnPeriodicTimer" by blast
    qed
    ultimately show ?thesis using t fr by (simp add: tables_ok_def)
  qed
  have reg: "\<exists>j'. (heap (job_out s i c)) k = Some j' \<and> jb_state j' = Running"
    if "registered_pids (process_callbacks c) k - X \<noteq> {}" for k
  proof (cases "k = i")
    case True
    then show ?thesis using that kept fr(1) by (auto simp: job_kept_def none_registered_def)
  next
    case False
    then show ?thesis using that sub [OF False] calls_okD(2) [OF o, of k] by auto
  qed
  have one: "p = q" if "p \<in> registered_pids (process_callbacks c) k - X" "q \<in> registered_pids (process_callbacks c) k - X" for k p q
  proof (cases "k = i")
    case True
    then show ?thesis using that kept fr(1) by (auto simp: job_kept_def at_most_one_def)
  next
    case False
    then show ?thesis using that sub [OF False] calls_okD(3) [OF o, of p k q] by blast
  qed
  have st: "k < next_id s \<and> (\<forall>l. (l, Some k) \<notin> set (pending_jobs s))" if "k \<in> started (job_out s i c)" for k
  proof (cases "k = i")
    case True
    then show ?thesis using np owned_facts(2) [OF m j] by simp
  next
    case False
    have "(\<exists>p. process_callbacks c p = Some (OnProcessExit k)) \<or> (\<exists>x \<in> snd ` set (timer_callbacks c). closure_job x = Some k)"
      using that by (simp add: started_def)
    then have "k \<in> started s"
    proof
      assume "\<exists>p. process_callbacks c p = Some (OnProcessExit k)"
      then obtain p where "process_callbacks c p = Some (OnProcessExit k)" by blast
      then have "process_callbacks s p = Some (OnProcessExit k)" using fr(3) [of p] False by auto
      then show ?thesis unfolding started_def by blast
    next
      assume "\<exists>x \<in> snd ` set (timer_callbacks c). closure_job x = Some k"
      then obtain x where x: "x \<in> snd ` set (timer_callbacks c)" "closure_job x = Some k" by blast
      then have "x \<in> snd ` set (timer_callbacks s)" using fr(4) [of x] False by auto
      then show ?thesis using x(2) unfolding started_def by blast
    qed
    then show ?thesis using calls_okD(4,5) [OF o] by blast
  qed
  have queue: "distinct (queued_calls c) \<and> (\<forall>e \<in> set (queued_calls c). \<exists>l k j'. e = IpcEvent ''delete_job'' l \<and>
      (l, k) \<in> set (jobs s) \<and> (heap (job_out s i c)) k = Some j' \<and> jb_state j' = Unloaded)"
  proof -
    have old: "distinct (queued_calls s)"
      "\<And>e. e \<in> set (queued_calls s) \<Longrightarrow> \<exists>l k j'. e = IpcEvent ''delete_job'' l \<and> (l, k) \<in> set (jobs s) \<and> heap s k = Some j' \<and> jb_state j' = Unloaded"
      by (rule calls_okD [OF o], assumption?)+
    have mine: "(label (jb_manifest j), i) \<in> set (jobs s)" using owned_facts(1) [OF m j np] .
    have stay: "\<exists>l k j'. e = IpcEvent ''delete_job'' l \<and> (l, k) \<in> set (jobs s) \<and> (heap (job_out s i c)) k = Some j' \<and> jb_state j' = Unloaded"
      if "e \<in> set (queued_calls s)" "jb_state j = Unloaded \<longrightarrow> jb_state (this c) = Unloaded" for e
      using old(2) [OF that(1)] that(2) j by fastforce
    consider "queued_calls c = queued_calls s" "jb_state j = Unloaded \<longrightarrow> jb_state (this c) = Unloaded"
      | "jb_state j \<noteq> Unloaded" "jb_state (this c) = Unloaded"
        "queued_calls c = queued_calls s @ [IpcEvent ''delete_job'' (label (jb_manifest j))]"
      using kept unfolding job_kept_def by (auto simp: delete_call_def)
    then show ?thesis
    proof cases
      case 1
      then show ?thesis using old(1) stay by simp
    next
      case 2
      have "IpcEvent ''delete_job'' (label (jb_manifest j)) \<notin> set (queued_calls s)"
        using old(2) owned_facts(4) [OF m mine] j 2(1) by fastforce
      then show ?thesis using 2 old(1) stay mine by auto
    qed
  qed
  show ?thesis
    by (rule calls_okI, unfold job_out_em job_out_fields)
      (rule tab conjunct1 [OF queue] reg [unfolded job_out_fields] bspec [OF conjunct2 [OF queue [unfolded job_out_fields]]]
        | erule one st | assumption)+
qed

section \<open>Calls on jobs of the table\<close>

definition unqueued :: "nat \<Rightarrow> mgr \<Rightarrow> bool" where
  "unqueued i s \<longleftrightarrow> (\<forall>l. (l, Some i) \<notin> set (pending_jobs s))"

text \<open>\<open>calls_on A\<close>: moreover none of the jobs in \<open>A\<close> is queued.\<close>

definition calls_on :: "nat set \<Rightarrow> int set \<Rightarrow> mgr \<Rightarrow> bool" where
  "calls_on A X s \<longleftrightarrow> daemon_calls X s \<and> (\<forall>i \<in> A. unqueued i s)"

lemma calls_on_empty: "calls_on {} X = daemon_calls X"
  by (rule ext) (simp add: calls_on_def)

lemma sys_indep_calls_on: "sys_indep (calls_on A X)"
proof -
  have u: "em_tables s = em_tables t \<Longrightarrow> unqueued i s = unqueued i t" for s t :: mgr and i
    using em_tables_more [of s t] by (simp add: unqueued_def)
  show ?thesis
    unfolding sys_indep_def calls_on_def
    using sys_indep_calls(2) [of X, unfolded sys_indep_def] u by blast
qed

lemma preserves_view_conj:
  assumes "\<And>P. preserves (\<lambda>s. P (view s)) m" and "preserves (daemon_calls X) m"
  shows "preserves (calls_on A X) m"
proof -
  have "preserves (\<lambda>s. \<forall>i \<in> A. unqueued i s) m"
    using assms(1) [of "\<lambda>(h, n, js, ps, r). \<forall>i \<in> A. \<forall>l. (l, Some i) \<notin> set ps"] by (simp add: view_def unqueued_def)
  then show ?thesis
    using assms(2) by (simp add: calls_on_def preserves_def)
qed

lemma with_job_calls:
  assumes "\<And>a. preserves (job_kept X a) m" and "\<And>P. preserves (\<lambda>s. P (view s)) (with_job i m)" and "i \<in> A"
  shows "preserves (calls_on A X) (with_job i m)"
proof (unfold preserves_def, intro allI impI)
  fix s assume s: "calls_on A X s"
  have d: "daemon_calls X s" and u: "unqueued i s" using s assms(3) by (simp_all add: calls_on_def)
  show "calls_on A X (snd (with_job i m s))"
  proof (cases "heap s i")
    case None
    then show ?thesis using s by (simp add: with_job_apply)
  next
    case (Some j)
    obtain r c where m: "m (job_in s i j) = (r, c)" by fastforce
    have o: "calls_ok X s" using d by (simp add: daemon_calls_def)
    have "job_kept X (job_in s i j) (job_in s i j)"
    proof (rule job_start_kept)
      show "none_registered X (job_in s i j) \<or> jb_state (this (job_in s i j)) = Running"
        using calls_okD(2) [OF o, of i] Some by (auto simp: none_registered_def)
      show "at_most_one X (job_in s i j)"
        unfolding at_most_one_def job_in_em this_job_in using calls_okD(3) [OF o, of _ i] by blast
    qed
    then have "job_kept X (job_in s i j) c" using preservesE [OF assms(1) m] by blast
    then have "calls_ok X (job_out s i c)" using job_out_calls [OF d Some] u by (simp add: unqueued_def)
    moreover have "mgr_ok (job_out s i c)"
    proof -
      have "mgr_ok (snd (with_job i m s))"
        using preservesD [OF preserves_okI [OF assms(2)]] d by (simp add: daemon_calls_def)
      then show ?thesis using m Some by (simp add: with_job_apply)
    qed
    moreover have "\<forall>k \<in> A. unqueued k (job_out s i c)" using s by (simp add: calls_on_def unqueued_def)
    ultimately show ?thesis using Some m by (simp add: with_job_apply calls_on_def daemon_calls_def)
  qed
qed

lemma preserves_with_getJ: "preserves I (with_job i (getJ f))"
  by (simp add: preserves_def with_job_apply getJ_apply job_out_in split: option.split)

lemma listJobs_keeps: "preserves I (listJobs pf)"
  unfolding listJobs_def
  by (rule preserves_getsM preserves_bindM preserves_foldM preserves_prod preserves_with_getJ preserves_lift_abrupt preserves_returnM)+

lemmas job_calls = with_job_calls [OF unload_kept preserves_with_jobs(2)] with_job_calls [OF throttle_kept preserves_with_jobs(5)]
  with_job_calls [OF kept_stop preserves_with_jobs(7)] with_job_calls [OF execute_kept_any preserves_with_jobs(1)]

lemma override_calls: "preserves (calls_on A X) (overrideJobEnabled pf l b)"
  unfolding overrideJobEnabled_def sf_getValue_def by (rule sys_indep_calls_on preserves_view_basic)+

lemma unload_ref_calls: "i \<in> A \<Longrightarrow> preserves (calls_on A X) (unloadJob_ref pf i od fu)"
  unfolding unloadJob_ref_def
  by (rule preserves_bindM preserves_thenM preserves_whenM preserves_if preserves_returnM preserves_with_getJ
      preserves_reads override_calls job_calls(1) | assumption)+

lemma getJob_unqueued:
  assumes "daemon_calls X s" and "getJob pf l s = (r, s')"
  shows "s' = s \<and> (\<forall>i. r = Inr i \<longrightarrow> calls_on {i} X s)"
proof -
  have s: "s' = s" and m: "r = Inr i \<Longrightarrow> \<exists>l. map_of (jobs s) l = Some i" for i
    using assms(2) by (auto simp: getJob_def lift_abrupt_def monad_simps split: sum.splits option.splits)
  have "r = Inr i \<Longrightarrow> calls_on {i} X s" for i
    using m [of i] assms(1) owned_facts(6) [of s _ i]
    by (auto simp: calls_on_def unqueued_def daemon_calls_def dest!: map_of_SomeD)
  then show ?thesis using s by blast
qed

lemma getJob_then:
  assumes "\<And>i. preserves (calls_on {i} X) (f i)"
  shows "preserves (daemon_calls X) (bindM (getJob pf l) f)"
proof (unfold preserves_def, intro allI impI)
  fix s assume d: "daemon_calls X s"
  obtain r s' where g: "getJob pf l s = (r, s')" by fastforce
  note u = getJob_unqueued [OF d g]
  show "daemon_calls X (snd (bindM (getJob pf l) f s))"
  proof (cases r)
    case (Inl e)
    then show ?thesis using g u d by (simp add: monad_simps)
  next
    case (Inr i)
    then have "calls_on {i} X (snd (f i s))" using u preservesD [OF assms] by blast
    then show ?thesis using g u Inr by (simp add: monad_simps calls_on_def)
  qed
qed

lemma unload_label_calls: "preserves (daemon_calls X) (unloadJob_label pf l od fu)"
  unfolding unloadJob_label_def
  by (rule preserves_bindM preserves_if preserves_returnM preserves_reads getJob_then unload_ref_calls singletonI)+

lemma kill_calls: "preserves (daemon_calls X) (mgr_killJob pf l sig)"
  unfolding mgr_killJob_def
  by (rule getJob_then preserves_option preserves_bindM preserves_if preserves_returnM preserves_reads job_calls(3) singletonI)+

lemma unload_all_calls: "preserves (daemon_calls X) (unloadAllJobs pf)"
proof -
  have loop: "preserves (calls_on (snd ` set js) X) (foldM (\<lambda>success (l, i). bindM (unload_one pf i) (\<lambda>ok. returnM (success \<and> ok))) b js)" for js b
  proof (rule preserves_foldM)
    fix b p assume p: "p \<in> set js"
    obtain l i where li: "p = (l, i)" by fastforce
    have i: "i \<in> snd ` set js" using p li by force
    show "preserves (calls_on (snd ` set js) X) (case p of (l, i) \<Rightarrow> bindM (unload_one pf i) (\<lambda>ok. returnM (b \<and> ok)))"
      unfolding li prod.case unload_one_def
      by (rule preserves_bindM preserves_if preserves_catchM preserves_returnM preserves_with_getJ job_calls(1) i)+
  qed
  have "daemon_calls X s \<Longrightarrow> daemon_calls X (snd (bindM (getsM jobs) (\<lambda>js.
      foldM (\<lambda>success (l, i). bindM (unload_one pf i) (\<lambda>ok. returnM (success \<and> ok))) True js) s))" for s
  proof -
    assume d: "daemon_calls X s"
    then have "calls_on (snd ` set (jobs s)) X s"
      using owned_facts(6) [of s] by (auto simp: calls_on_def unqueued_def daemon_calls_def)
    then show ?thesis using preservesD [OF loop [of "jobs s" True]] by (simp add: monad_simps calls_on_def)
  qed
  then show ?thesis
    unfolding unloadAllJobs_def by (intro preserves_noexceptM) (simp add: preserves_def)
qed

section \<open>Loading and starting\<close>

text \<open>\<open>calls_below\<close>: every job of the table was made before the next one.\<close>

definition calls_below :: "int set \<Rightarrow> mgr \<Rightarrow> bool" where
  "calls_below X s \<longleftrightarrow> calls_ok X s \<and> (\<forall>p \<in> set (jobs s). snd p < next_id s)"

lemma daemon_below: "daemon_calls X s \<longleftrightarrow> mgr_ok s \<and> calls_below X s"
proof -
  have "mgr_ok s \<Longrightarrow> p \<in> set (jobs s) \<Longrightarrow> snd p < next_id s" for p
    using owned_facts(2,5) [of s] by (cases p) (metis snd_conv)
  then show ?thesis by (auto simp: daemon_calls_def calls_below_def)
qed

lemma new_job_calls: "preserves (calls_below X) (new_job path m)"
proof (unfold preserves_def, intro allI impI)
  fix s assume s: "calls_below X s"
  let ?t = "snd (new_job path m s)"
  have o: "calls_ok X s" using s by (simp add: calls_below_def)
  have fields: "process_callbacks ?t = process_callbacks s" "queued_calls ?t = queued_calls s" "jobs ?t = jobs s"
    "next_id ?t = next_id s + 1" "heap ?t = (heap s)(next_id s \<mapsto> mk_job (Some path) m)" "started ?t = started s"
    "pending_jobs ?t = alist_insert (label m) (Some (next_id s)) (pending_jobs s)" "tables_ok ?t = tables_ok s"
    by (simp_all add: new_job_def modifyM_apply queued_calls_def started_def tables_ok_def)
  have old: "registered_pids (process_callbacks s) i - X \<noteq> {} \<Longrightarrow> i \<noteq> next_id s" for i
    using calls_okD(4) [OF o, of i] by (auto simp: registered_pids_def started_def)
  have "calls_ok X ?t"
  proof (rule calls_okI, unfold fields)
    show "\<exists>j. ((heap s)(next_id s \<mapsto> mk_job (Some path) m)) i = Some j \<and> jb_state j = Running"
      if "registered_pids (process_callbacks s) i - X \<noteq> {}" for i
      using calls_okD(2) [OF o that] old [OF that] by simp
    show "i < next_id s + 1 \<and> (\<forall>l. (l, Some i) \<notin> set (alist_insert (label m) (Some (next_id s)) (pending_jobs s)))"
      if "i \<in> started s" for i
      using calls_okD(4,5) [OF o that] by (auto simp: alist_insert_def split: if_splits)
    show "\<exists>l i j. e = IpcEvent ''delete_job'' l \<and> (l, i) \<in> set (jobs s) \<and>
        ((heap s)(next_id s \<mapsto> mk_job (Some path) m)) i = Some j \<and> jb_state j = Unloaded"
      if in_queue: "e \<in> set (queued_calls s)" for e
    proof -
      obtain l i j where e: "e = IpcEvent ''delete_job'' l" "(l, i) \<in> set (jobs s)" "heap s i = Some j" "jb_state j = Unloaded"
        using calls_okD(7) [OF o in_queue] by blast
      moreover have "i < next_id s" using s e(2) by (auto simp: calls_below_def)
      ultimately show ?thesis by (auto intro!: exI [of _ i])
    qed
  qed (erule (1) calls_okD(3) [OF o] | rule calls_okD [OF o])+
  then show "calls_below X ?t" using s by (auto simp: calls_below_def fields)
qed

lemma sys_indep_below: "sys_indep (calls_below X)"
  using sys_indep_calls(1) [of X] em_tables_more unfolding sys_indep_def calls_below_def by metis

lemma load_json_calls: "preserves (daemon_calls X) (loadManifest_json pf j path od fl)"
proof -
  have "preserves (calls_below X) (load_checked pf m path od fl)" for m
    unfolding load_checked_def load_fresh_def sf_getValue_def overrideJobEnabled_def
    by (rule sys_indep_below new_job_calls preserves_reads preserves_view_basic)+
  then have "preserves (calls_below X) (loadManifest_json pf j path od fl)"
    unfolding loadManifest_json_def by (auto intro!: preserves_rules split: sum.split abrupt.split)
  then show ?thesis
    using ok_load.load_json [of pf j path od fl] unfolding mgr_ok_fun preserves_def daemon_below by blast
qed

interpretation calls_load: load_keeps "daemon_calls X" pf for X pf
  by unfold_locales (rule sys_indep_calls load_json_calls)+

text \<open>One element of the queue is moved to the table and started.\<close>

lemma move_calls:
  assumes "daemon_calls X s"
    and "t = s\<lparr>jobs := jobs s @ [(l, i)], pending_jobs := AList.update l None (pending_jobs s)\<rparr>"
    and "mgr_ok t"
  shows "calls_on {i} X t"
proof -
  have o: "calls_ok X s" using assms(1) by (simp add: daemon_calls_def)
  have fields: "process_callbacks t = process_callbacks s" "queued_calls t = queued_calls s" "next_id t = next_id s"
    "heap t = heap s" "started t = started s" "tables_ok t = tables_ok s" "jobs t = jobs s @ [(l, i)]"
    "pending_jobs t = AList.update l None (pending_jobs s)"
    by (simp_all add: assms(2) queued_calls_def started_def tables_ok_def)
  have sub: "(l', Some k) \<in> set (AList.update l None ps) \<Longrightarrow> (l', Some k) \<in> set ps" for l' k and ps :: "(string \<times> nat option) list"
    by (induction ps) (auto split: if_splits)
  have "calls_ok X t"
    by (rule calls_okI, unfold fields)
      (erule (1) calls_okD(3) [OF o] | rule calls_okD(1,2,6) [OF o] | assumption
        | (use calls_okD(4,5) [OF o] sub in blast) | (use calls_okD(7) [OF o] in fastforce))+
  moreover have "unqueued i t"
    using owned_facts(6) [OF assms(3), of l i] by (simp add: unqueued_def fields)
  ultimately show ?thesis using assms(3) by (simp add: calls_on_def daemon_calls_def)
qed

lemma start_pending_calls:
  assumes "l \<notin> fst ` set rs"
  shows "carries (\<lambda>s. loop_view ((l, o') # rs) (view s) \<and> daemon_calls X s) (start_pending pf (l, o'))
    (\<lambda>s. loop_view rs (view s) \<and> daemon_calls X s)"
proof (unfold carries_def, intro allI impI)
  fix s assume s: "loop_view ((l, o') # rs) (view s) \<and> daemon_calls X s"
  have lv: "loop_view rs (view (snd (start_pending pf (l, o') s)))"
    using carriesD [OF start_pending_ok [OF assms]] s by blast
  have "daemon_calls X (snd (start_pending pf (l, o') s))"
  proof (cases "map_of (jobs s) l = None \<and> o' \<noteq> None")
    case False
    then show ?thesis
      using s by (cases o') (auto simp: start_pending_def monad_simps)
  next
    case True
    then obtain i where i: "o' = Some i" "map_of (jobs s) l = None" by blast
    let ?t = "s\<lparr>jobs := jobs s @ [(l, i)], pending_jobs := AList.update l None (pending_jobs s)\<rparr>"
    have "loop_view rs (view ?t)"
      using move_pending_ok [of l i rs s] assms s i by (simp add: loop_view_def)
    then have "mgr_ok ?t" by (simp add: loop_view_def mgr_ok_def)
    then have "calls_on {i} X ?t" using move_calls [of X s ?t l i] s by simp
    then have "calls_on {i} X (snd (with_job i (job_execute pf Bootstrap) ?t))"
      by (rule preservesD [OF job_calls(4), rotated -1]) simp_all
    then show ?thesis
      using i by (auto simp: start_pending_def monad_simps calls_on_def split: prod.split sum.split)
  qed
  then show "loop_view rs (view (snd (start_pending pf (l, o') s))) \<and> daemon_calls X (snd (start_pending pf (l, o') s))"
    using lv by blast
qed

lemma start_loop_calls:
  "distinct (map fst rs) \<Longrightarrow> carries (\<lambda>s. loop_view rs (view s) \<and> daemon_calls X s) (forM rs (start_pending pf)) (daemon_calls X)"
proof (induction rs)
  case Nil
  then show ?case by (auto simp: carries_def returnM_def)
next
  case (Cons p rs)
  obtain l o' where p: "p = (l, o')" by fastforce
  show ?case
    unfolding forM.simps p
    by (rule carries_seq [OF start_pending_calls Cons.IH]) (use Cons.prems p in auto)
qed

text \<open>Objects that no callback and no queued deletion refers to can go.\<close>

lemma destroyed_calls:
  assumes o: "calls_ok X s" and dead: "\<And>i. i \<in> D \<Longrightarrow> registered_pids (process_callbacks s) i \<subseteq> X"
    and kept: "\<And>l i. (l, i) \<in> set (jobs s) \<Longrightarrow> IpcEvent ''delete_job'' l \<in> set (queued_calls s) \<Longrightarrow> i \<notin> D \<and> (l, i) \<in> set js"
    and ps: "set ps \<subseteq> set (pending_jobs s)"
  shows "calls_ok X (s\<lparr>heap := heap s |` (- D), jobs := js, pending_jobs := ps\<rparr>)"
proof -
  let ?t = "s\<lparr>heap := heap s |` (- D), jobs := js, pending_jobs := ps\<rparr>"
  have fields: "process_callbacks ?t = process_callbacks s" "queued_calls ?t = queued_calls s" "jobs ?t = js"
    "next_id ?t = next_id s" "heap ?t = heap s |` (- D)" "started ?t = started s" "pending_jobs ?t = ps" "tables_ok ?t = tables_ok s"
    by (simp_all add: queued_calls_def started_def tables_ok_def)
  show ?thesis
  proof (rule calls_okI, unfold fields)
    show "\<exists>j. (heap s |` (- D)) i = Some j \<and> jb_state j = Running"
      if "registered_pids (process_callbacks s) i - X \<noteq> {}" for i
      using calls_okD(2) [OF o that] dead [of i] that by (auto simp: restrict_map_def)
    show "i < next_id s \<and> (\<forall>l. (l, Some i) \<notin> set ps)" if "i \<in> started s" for i
      using calls_okD(4,5) [OF o that] ps by blast
    show "\<exists>l i j. e = IpcEvent ''delete_job'' l \<and> (l, i) \<in> set js \<and> (heap s |` (- D)) i = Some j \<and> jb_state j = Unloaded"
      if in_queue: "e \<in> set (queued_calls s)" for e
    proof -
      obtain l i j where e: "e = IpcEvent ''delete_job'' l" "(l, i) \<in> set (jobs s)" "heap s i = Some j" "jb_state j = Unloaded"
        using calls_okD(7) [OF o in_queue] by blast
      then show ?thesis using kept in_queue by (intro exI [of _ l] exI [of _ i] exI [of _ j]) (auto simp: restrict_map_def)
    qed
  qed (erule (1) calls_okD(3) [OF o] | rule calls_okD(1,6) [OF o])+
qed

lemma unstarted_free: "calls_ok X s \<Longrightarrow> i \<notin> started s \<Longrightarrow> registered_pids (process_callbacks s) i = {}"
  by (auto simp: started_def registered_pids_def)

lemma clear_pending_calls: "preserves (daemon_calls X) clear_pending"
proof (unfold preserves_def, intro allI impI)
  fix s assume d: "daemon_calls X s"
  let ?D = "snd ` set (pend_owned (pending_jobs s))"
  have o: "calls_ok X s" and m: "mgr_ok s" using d by (simp_all add: daemon_calls_def)
  have pend: "i \<in> ?D \<Longrightarrow> \<exists>l. (l, Some i) \<in> set (pending_jobs s)" for i
    using pend_owned_sub by force
  have "calls_ok X (s\<lparr>heap := heap s |` (- ?D), jobs := jobs s, pending_jobs := []\<rparr>)"
  proof (rule destroyed_calls [OF o])
    show "registered_pids (process_callbacks s) i \<subseteq> X" if "i \<in> ?D" for i
      using pend [OF that] calls_okD(5) [OF o, of i] unstarted_free [OF o, of i] by blast
    show "i \<notin> ?D \<and> (l, i) \<in> set (jobs s)" if "(l, i) \<in> set (jobs s)" for l i
      using that pend owned_facts(6) [OF m that] by blast
  qed simp
  then have "calls_ok X (snd (clear_pending s))"
    by (simp add: clear_pending_def monad_simps destroy_pending)
  then show "daemon_calls X (snd (clear_pending s))"
    using preservesD [OF clear_pending_ok m] by (simp add: daemon_calls_def)
qed

lemma start_all_calls: "preserves (daemon_calls X) (startAllJobs pf)"
proof (unfold preserves_def, intro allI impI)
  fix s assume d: "daemon_calls X s"
  then have ds: "distinct (map fst (pending_jobs s))" and l: "loop_view (pending_jobs s) (view s)"
    by (simp_all add: daemon_calls_def mgr_ok_def view_def loop_view_def)
  have "daemon_calls X (snd (forM (pending_jobs s) (start_pending pf) s))"
    using carriesD [OF start_loop_calls [OF ds]] l d by blast
  then show "daemon_calls X (snd (startAllJobs pf s))"
    using preservesD [OF clear_pending_calls]
    by (auto simp: startAllJobs_def monad_simps split: prod.split sum.split)
qed

text \<open>The deletion of a job whose machine has reached its end.\<close>

lemma delete_calls:
  assumes d: "daemon_calls X s" and j: "\<And>i. map_of (jobs s) l = Some i \<Longrightarrow> registered_pids (process_callbacks s) i \<subseteq> X"
    and q: "IpcEvent ''delete_job'' l \<notin> set (queued_calls s)"
  shows "daemon_calls X (snd (on_delete_job l s))"
proof -
  have o: "calls_ok X s" and m: "mgr_ok s" using d by (simp_all add: daemon_calls_def)
  have "calls_ok X (snd (on_delete_job l s))"
  proof (cases "map_of (jobs s) l")
    case None
    then show ?thesis using o by (simp add: on_delete_job_def monad_simps)
  next
    case (Some i)
    have "calls_ok X (s\<lparr>heap := heap s |` (- {i}), jobs := AList.delete l (jobs s), pending_jobs := pending_jobs s\<rparr>)"
    proof (rule destroyed_calls [OF o])
      show "registered_pids (process_callbacks s) k \<subseteq> X" if "k \<in> {i}" for k using that j Some by simp
      show "k \<notin> {i} \<and> (l', k) \<in> set (AList.delete l (jobs s))"
        if "(l', k) \<in> set (jobs s)" "IpcEvent ''delete_job'' l' \<in> set (queued_calls s)" for l' k
        using that q owned_facts(7) [OF m, of l' i l] map_of_SomeD [OF Some] by (auto simp: AList.delete_eq)
    qed simp
    moreover have "heap s |` (- {i}) = (heap s)(i := None)" by (auto simp: restrict_map_def)
    moreover have "s\<lparr>heap := (heap s)(i := None), jobs := AList.delete l (jobs s), pending_jobs := pending_jobs s\<rparr> =
        s\<lparr>jobs := AList.delete l (jobs s), heap := (heap s)(i := None)\<rparr>" by simp
    ultimately show ?thesis using Some by (simp add: on_delete_job_def destroy_job_def thenM_apply getsM_apply bindM_apply modifyM_apply)
  qed
  then show ?thesis using preservesD [OF on_delete_job_ok m] by (simp add: daemon_calls_def)
qed

section \<open>The machine and the requests\<close>

lemma calls_set_fields:
  "daemon_calls X s \<Longrightarrow> daemon_calls X (s\<lparr>chan := ch\<rparr>)" "daemon_calls X s \<Longrightarrow> daemon_calls X (s\<lparr>mstate := st\<rparr>)"
  "daemon_calls X s \<Longrightarrow> daemon_calls X (s\<lparr>pending_result := r\<rparr>)"
  unfolding daemon_calls_def mgr_ok_def view_def queued_calls_def
  by (auto elim!: calls_ok_fields simp: queued_calls_def)

lemma retable_calls:
  assumes "daemon_calls X s" and "tables_ok t" and "em_state.more t = em_state.more s"
    and "process_callbacks t = process_callbacks s" "timer_callbacks t = timer_callbacks s" "queued_calls t = queued_calls s"
  shows "daemon_calls X t"
proof -
  have o: "calls_ok X s" using assms(1) by (simp add: daemon_calls_def)
  have f: "heap t = heap s" "next_id t = next_id s" "jobs t = jobs s" "pending_jobs t = pending_jobs s"
    using assms(3) by (cases s, cases t, simp)+
  have st: "started t = started s" by (simp add: started_def assms)
  have "calls_ok X t"
    unfolding calls_ok_def f st assms(4-6) using assms(2) by (rule conjI) (rule conjunct2 [OF o [unfolded calls_ok_def]])
  then show ?thesis using assms(1) em_indepD [OF em_indep_ok _ assms(3) [symmetric]] by (simp add: daemon_calls_def)
qed

lemma register_signal_calls:
  assumes "cl \<in> {OnSigpipe, OnSigint, OnSigusr1, OnSigusr2, OnSigterm}"
  shows "preserves (daemon_calls X) (addSignal pf n cl)"
proof -
  have mon: "preserves (daemon_calls X) (monitorSignal pf n)"
    unfolding monitorSignal_def
    by ((rule preserves_sys_modify [OF sys_indep_calls(2)]; simp add: em_tables_def queued_calls_def; fail)
      | rule sys_indep_calls preserves_em_basic preserves_prod2)+
  have "daemon_calls X s \<Longrightarrow> daemon_calls X (s\<lparr>signal_callbacks := map_insert (signal_callbacks s) n cl\<rparr>)" for s
  proof -
    assume d: "daemon_calls X s"
    then have "tables_ok s" by (auto simp: daemon_calls_def intro: calls_okD(1))
    then show ?thesis
      using d assms by (elim retable_calls)
        (auto simp: tables_ok_def map_insert_def ran_def queued_calls_def split: if_splits)
  qed
  then show ?thesis unfolding addSignal_def by (intro preserves_thenM [OF mon] preserves_modifyM)
qed

lemma register_socket_calls: "preserves (daemon_calls X) (addSocketRead pf fd OnRpcReadable)"
proof -
  have mon: "preserves (daemon_calls X) (monitorSocketRead pf fd)"
    unfolding monitorSocketRead_def by (rule sys_indep_calls preserves_em_basic preserves_prod2)+
  have "daemon_calls X s \<Longrightarrow> daemon_calls X (s\<lparr>socket_read_callbacks := map_insert (socket_read_callbacks s) fd OnRpcReadable\<rparr>)" for s
  proof -
    assume d: "daemon_calls X s"
    then have "tables_ok s" by (auto simp: daemon_calls_def intro: calls_okD(1))
    then show ?thesis
      using d by (elim retable_calls)
        (auto simp: tables_ok_def map_insert_def ran_def queued_calls_def split: if_splits)
  qed
  then show ?thesis unfolding addSocketRead_def by (intro preserves_thenM [OF mon] preserves_modifyM)
qed

lemma channel_calls:
  "preserves (daemon_calls X) (startRpcServer pf)" "preserves (daemon_calls X) (close_listener pf)"
proof -
  have set: "preserves (daemon_calls X) (modifyM (\<lambda>s. s\<lparr>chan := ch\<rparr>))" for ch
    by (simp add: preserves_def modifyM_def calls_set_fields)
  show "preserves (daemon_calls X) (startRpcServer pf)" "preserves (daemon_calls X) (close_listener pf)"
    unfolding startRpcServer_def close_listener_def
    by (rule set sys_indep_calls preserves_channel register_socket_calls preserves_prod2 preserves_em_basic)+
qed

lemma machine_calls: "preserves (daemon_calls X) (mgr_execute c pf tr)"
  unfolding mgr_execute_def
proof (rule preserves_execute)
  show "preserves (daemon_calls X) g" if "t \<in> set (mgr_table c pf)" "guard t = Some g" for t g
    using that unfolding mgr_table_def by (auto intro: preserves_rules)
  have "preserves (daemon_calls X) (setupSignalHandlers pf)"
    unfolding setupSignalHandlers_def by (rule preserves_thenM register_signal_calls | simp)+
  then show "preserves (daemon_calls X) a" if "t \<in> set (mgr_table c pf)" "action t = Some a" for t a
    using that unfolding mgr_table_def
    by (auto intro!: channel_calls preserves_thenM preserves_returnM calls_load.load_default start_all_calls unload_all_calls)
  show "daemon_calls X s \<Longrightarrow> daemon_calls X (put_mgr_state st s)" for st s
    by (simp add: put_mgr_state_def calls_set_fields)
qed

interpretation calls_request: request_keeps "daemon_calls X" pf c for X pf c
  by unfold_locales (rule machine_calls unload_label_calls kill_calls listJobs_keeps | erule calls_set_fields)+

end
