(* ===== verification/Runs.thy ===== *)
theory Runs
  imports Callbacks
begin

text \<open>
  Runs of the daemon, event by event, and which callbacks can outlive their job: none that waits for a
  process, as long as no job with \<open>StartInterval\<close> was scheduled; and what happens when one was.
\<close>

section \<open>Events\<close>

text \<open>A queued event is taken off before it is dispatched; the others bring nothing that is queued.\<close>

definition delivered :: "event \<Rightarrow> mgr \<Rightarrow> bool" where
  "delivered e s \<longleftrightarrow> daemon_calls {} s \<and> (is_ipc e \<longrightarrow> (\<exists>l i j. e = IpcEvent ''delete_job'' l \<and>
     e \<notin> set (queued_calls s) \<and> map_of (jobs s) l = Some i \<and> heap s i = Some j \<and> jb_state j = Unloaded))"

lemma pop_calls:
  assumes "daemon_calls {} s" and "pending_events s = e # rest"
  shows "delivered e (s\<lparr>pending_events := rest\<rparr>)"
proof -
  let ?t = "s\<lparr>pending_events := rest\<rparr>"
  have o: "calls_ok {} s" and m: "mgr_ok s" using assms(1) by (simp_all add: daemon_calls_def)
  have q: "queued_calls s = (if is_ipc e then e # queued_calls ?t else queued_calls ?t)"
    by (simp add: queued_calls_def assms(2))
  have "calls_ok {} ?t"
  proof (rule calls_okI)
    show "tables_ok ?t" using calls_okD(1) [OF o] by (simp add: tables_ok_def)
    show "i \<in> started ?t \<Longrightarrow> i < next_id ?t \<and> (\<forall>l. (l, Some i) \<notin> set (pending_jobs ?t))" for i
      using calls_okD(4,5) [OF o, of i] by (auto simp: started_def)
    show "distinct (queued_calls ?t)" using calls_okD(6) [OF o] q by (simp split: if_splits)
    show "e' \<in> set (queued_calls ?t) \<Longrightarrow> \<exists>l i j. e' = IpcEvent ''delete_job'' l \<and> (l, i) \<in> set (jobs ?t) \<and>
        heap ?t i = Some j \<and> jb_state j = Unloaded" for e'
      using calls_okD(7) [OF o, of e'] q by (auto split: if_splits)
    show "registered_pids (process_callbacks ?t) i - {} \<noteq> {} \<Longrightarrow> \<exists>j. heap ?t i = Some j \<and> jb_state j = Running" for i
      using calls_okD(2) [OF o, of i] by simp
    show "p \<in> registered_pids (process_callbacks ?t) i - {} \<Longrightarrow> q \<in> registered_pids (process_callbacks ?t) i - {} \<Longrightarrow> p = q" for i p q
      using calls_okD(3) [OF o, of p i q] by simp
  qed
  then have d: "daemon_calls {} ?t"
    using m em_indepD [OF em_indep_ok, of s ?t] by (simp add: daemon_calls_def)
  have "\<exists>l i j. e = IpcEvent ''delete_job'' l \<and> e \<notin> set (queued_calls ?t) \<and> map_of (jobs ?t) l = Some i \<and>
      heap ?t i = Some j \<and> jb_state j = Unloaded" if "is_ipc e"
  proof -
    have e: "e \<in> set (queued_calls s)" "e \<notin> set (queued_calls ?t)" using that q calls_okD(6) [OF o] by auto
    obtain l i j where "e = IpcEvent ''delete_job'' l" "(l, i) \<in> set (jobs s)" "heap s i = Some j" "jb_state j = Unloaded"
      using calls_okD(7) [OF o e(1)] by blast
    moreover have "distinct (map fst (jobs s))"
      using m by (simp add: mgr_ok_def view_def own_ok_def)
    ultimately show ?thesis using e(2) by auto
  qed
  then show ?thesis using d by (simp add: delivered_def)
qed

text \<open>Waiting, when nothing is queued: the tables stay and no call is made up.\<close>

definition quiet_at :: "mgr \<Rightarrow> mgr \<Rightarrow> bool" where
  "quiet_at a s \<longleftrightarrow> em_tables s = em_tables a \<and> queued_calls s = []"

lemma quiet_ops:
  "preserves (quiet_at a) (sysM c f)" "preserves (quiet_at a) (callM pf c)"
  "(\<And>s. em_tables (g s) = em_tables s \<and> (queued_calls s = [] \<longrightarrow> queued_calls (g s) = [])) \<Longrightarrow> preserves (quiet_at a) (modifyM g)"
  "\<not> is_ipc e \<Longrightarrow> preserves (quiet_at a) (addPendingEvent e)"
  by (auto simp: preserves_def quiet_at_def sysM_def callM_def modifyM_def addPendingEvent_def em_tables_def queued_calls_def)

lemma quiet_getOne: "preserves (quiet_at a) (epollGetOne pf fd t)"
  unfolding epollGetOne_def Let_def by (rule quiet_ops preserves_sys_error preserves_prod2 preserves_rules)+

lemma quiet_signals: "preserves (quiet_at a) (read_signals n pf b)"
  by (induction n arbitrary: b)
    (simp_all, (assumption | rule quiet_ops preserves_sys_error preserves_prod2 preserves_rules | (simp; fail))+)

lemma quiet_reap: "preserves (quiet_at a) (reap_children n pf)"
  by (induction n)
    (simp_all, (assumption | rule quiet_ops preserves_sys_error preserves_prod2 preserves_rules
      | (simp add: em_tables_def queued_calls_def; fail))+)

lemma wait_switch_quiet:
  assumes "quiet_at a s" and "wait_switch pf t k s = (r, s')"
  shows "quiet_at a s' \<and> (\<forall>e. r = Inr (Some e) \<longrightarrow> \<not> is_ipc e)"
proof (cases "k = EVTYPE_SIGNAL")
  case True
  have g: "preserves (quiet_at a) (getSignalEvents pf)"
    unfolding getSignalEvents_def by (rule quiet_signals quiet_reap preserves_rules)+
  obtain r1 s1 where s1: "getSignalEvents pf s = (r1, s1)" by fastforce
  have q: "quiet_at a s1" by (rule preservesE [OF g s1 assms(1)])
  have "EVTYPE_SIGNAL \<noteq> EVTYPE_NONE" by (simp add: evtype_defs)
  then show ?thesis
    using assms(2) True s1 q
    by (cases r1; cases "pending_events s1")
      (auto simp: wait_switch_def monad_simps quiet_at_def em_tables_def queued_calls_def split: if_splits)
next
  case False
  have w: "preserves (quiet_at a) (wait_timer pf t)"
    unfolding wait_timer_def Let_def
    by (rule quiet_getOne quiet_ops preserves_sys_error preserves_list preserves_prod preserves_prod2 preserves_rules)+
  have k: "preserves (quiet_at a) (wait_switch pf t k)"
    unfolding wait_switch_def using False
    by (auto intro!: quiet_getOne w preserves_bindM preserves_returnM preserves_getsM preserves_throwM)
  have "r = Inr (Some e) \<Longrightarrow> \<not> is_ipc e" for e
    using assms(2) False
    by (auto simp: wait_switch_def wait_timer_def monad_simps Let_def sys_error_def
        split: if_splits prod.splits sum.splits option.splits list.splits)
  then show ?thesis using preservesE [OF k assms(2,1)] by blast
qed

lemma wait_loop_quiet:
  "quiet_at a s \<Longrightarrow> wait_loop n pf t s = (r, s') \<Longrightarrow> quiet_at a s' \<and> (\<forall>e. r = Inr (Some e) \<longrightarrow> \<not> is_ipc e)"
proof (induction n arbitrary: s)
  case 0
  then show ?case by (auto simp: monad_simps)
next
  case (Suc n)
  obtain r1 s1 where s1: "epollGetOne pf (epfd s) t s = (r1, s1)" by fastforce
  have q1: "quiet_at a s1" by (rule preservesE [OF quiet_getOne s1 Suc.prems(1)])
  show ?case
  proof (cases r1)
    case (Inl e)
    then show ?thesis using Suc.prems(2) s1 q1 by (auto simp: monad_simps)
  next
    case (Inr m)
    let ?k = "case m of Some e \<Rightarrow> payload_int e | None \<Rightarrow> EVTYPE_NONE"
    obtain r2 s2 where s2: "wait_switch pf t ?k s1 = (r2, s2)" by fastforce
    note q2 = wait_switch_quiet [OF q1 s2]
    show ?thesis
      using Suc.prems(2) s1 Inr s2 q2 Suc.IH [of s2]
      by (cases r2) (auto simp: monad_simps split: option.splits if_splits)
  qed
qed

lemma wait_delivers:
  assumes d: "daemon_calls {} s" and w: "epoll_waitForEvent pf t s = (r, s')"
  shows "case r of Inr (Some e) \<Rightarrow> delivered e s' | _ \<Rightarrow> daemon_calls {} s'"
proof -
  have quiet: "quiet_at s x \<Longrightarrow> queued_calls s = [] \<Longrightarrow> daemon_calls {} x" for x
    using sys_indepD [OF sys_indep_calls(2) d, of x] by (simp add: quiet_at_def)
  show ?thesis
  proof (cases "child_status s")
    case (Cons p rest)
    obtain pid status where p: "p = (pid, status)" by fastforce
    have "daemon_calls {} (s\<lparr>child_status := rest\<rparr>)"
      by (rule sys_indepD [OF sys_indep_calls(2) d]) (simp_all add: em_tables_def queued_calls_def)
    then show ?thesis
      using w Cons p by (auto simp: epoll_waitForEvent_def getPendingEvent_def monad_simps delivered_def)
  next
    case Nil
    show ?thesis
    proof (cases "pending_events s")
      case (Cons e rest)
      then show ?thesis
        using w Nil pop_calls [OF d Cons] by (auto simp: epoll_waitForEvent_def getPendingEvent_def monad_simps)
    next
      case empty: Nil
      have q: "queued_calls s = []" by (simp add: queued_calls_def empty)
      have l: "wait_loop (loop_bound pf) pf t s = (r, s')"
        using w Nil empty by (simp add: epoll_waitForEvent_def getPendingEvent_def monad_simps)
      have "quiet_at s s" by (simp add: quiet_at_def q)
      from wait_loop_quiet [OF this l] show ?thesis
        using quiet [of s'] q by (auto simp: delivered_def split: sum.split option.split)
    qed
  qed
qed

section \<open>Dispatching an event\<close>

text \<open>No job runs by the clock: the daemon holds no closure of a periodic timer.\<close>

definition no_periodic :: "mgr \<Rightarrow> bool" where
  "no_periodic s \<longleftrightarrow> snd ` set (timer_callbacks s) \<inter> range OnPeriodicTimer = {}"

text \<open>What an event leaves behind: everything in order, or a manager that has finished.\<close>

definition settled :: "mgr \<Rightarrow> bool" where
  "settled s \<longleftrightarrow> mstate s = Finished \<or> daemon_calls {} s"

lemma shutdown_settled:
  assumes d: "daemon_calls {} s" and h: "handleShutdownSignal c pf s = (Inr r, s')"
  shows "settled s'"
proof (cases "mstate s = GracefulShutdown")
  case False
  have "daemon_calls {} (snd (thenM (mgr_execute c pf tr) (returnM ()) s))" for tr
    by (rule preservesD [OF preserves_thenM [OF machine_calls preserves_returnM] d])
  then have "daemon_calls {} (snd (handleShutdownSignal c pf s))"
    using False d
    by (cases "mstate s") (simp_all add: handleShutdownSignal_def bindM_apply getsM_apply returnM_apply)
  then have "daemon_calls {} s'" using h by simp
  then show ?thesis by (simp add: settled_def)
next
  case True
  then obtain s1 where f: "forceUnloadAllJobs pf s = (Inr (), s1)" and m: "thenM (mgr_execute c pf AllJobsExited) (returnM ()) s1 = (Inr r, s')"
    using h by (auto simp: handleShutdownSignal_def bindM_apply getsM_apply thenM_apply [of "forceUnloadAllJobs pf"] split: prod.splits sum.splits)
  have "mstate s1 = GracefulShutdown"
    using preservesE [OF preserves_kv_jobs(2) [of "\<lambda>p. fst p = GracefulShutdown"] f] True by (simp add: kv_view)
  then have "mstate s' = Finished" using m by (auto simp: mgr_all_exited monad_simps)
  then show ?thesis by (simp add: settled_def)
qed

text \<open>The exit of a process: its job is alive, and its registration is dropped after the callback.\<close>

lemma calls_widen: "daemon_calls {} s \<Longrightarrow> daemon_calls X s"
  unfolding daemon_calls_def calls_ok_def by auto

lemma drop_registration:
  assumes "daemon_calls {p} s"
  shows "daemon_calls {} (snd (deleteProcess p s))"
proof -
  let ?t = "snd (deleteProcess p s)"
  have o: "calls_ok {p} s" and m: "mgr_ok s" using assms by (simp_all add: daemon_calls_def)
  have t: "?t = s\<lparr>watch_pids := watch_pids s - {p}, process_callbacks := (process_callbacks s)(p := None)\<rparr>"
    by (simp add: deleteProcess_def ignoreChildProcess_def monad_simps)
  have fields: "queued_calls ?t = queued_calls s" "jobs ?t = jobs s" "next_id ?t = next_id s" "heap ?t = heap s"
    "pending_jobs ?t = pending_jobs s" "registered_pids (process_callbacks ?t) i - {} = registered_pids (process_callbacks s) i - {p}" for i
    by (auto simp: t queued_calls_def registered_pids_def)
  have "calls_ok {} ?t"
  proof (rule calls_okI, unfold fields)
    show "tables_ok ?t" using calls_okD(1) [OF o] by (auto simp: tables_ok_def t ran_def)
    show "i < next_id s \<and> (\<forall>l. (l, Some i) \<notin> set (pending_jobs s))" if "i \<in> started ?t" for i
    proof -
      have "i \<in> started s" using that unfolding started_def by (auto simp: t split: if_splits)
      then show ?thesis using calls_okD(4,5) [OF o] by blast
    qed
  qed (erule (1) calls_okD(3) [OF o] | rule calls_okD(2,6,7) [OF o] | assumption)+
  then show ?thesis using m em_indepD [OF em_indep_ok, of s ?t] by (simp add: daemon_calls_def t)
qed

lemma registered_alive:
  assumes "daemon_calls {} s" and "process_callbacks s p = Some (OnProcessExit i)"
  shows "\<exists>j. heap s i = Some j \<and> jb_state j = Running" and "registered_pids (process_callbacks s) i = {p}" and "unqueued i s"
proof -
  have o: "calls_ok {} s" using assms(1) by (simp add: daemon_calls_def)
  have p: "p \<in> registered_pids (process_callbacks s) i" using assms(2) by (simp add: registered_pids_def)
  then show "\<exists>j. heap s i = Some j \<and> jb_state j = Running" using calls_okD(2) [OF o, of i] by blast
  show "registered_pids (process_callbacks s) i = {p}" using calls_okD(3) [OF o, of _ i p] p by blast
  have "i \<in> started s" using assms(2) by (auto simp: started_def)
  then show "unqueued i s" using calls_okD(5) [OF o] by (simp add: unqueued_def)
qed

lemma exit_calls:
  assumes d: "daemon_calls {} s" and p: "process_callbacks s p = Some (OnProcessExit i)"
  shows "daemon_calls {p} (snd (with_job i (on_process_exit pf status) s))"
proof -
  note alive = registered_alive [OF d p]
  obtain j where j: "heap s i = Some j" "jb_state j = Running" using alive(1) by blast
  obtain r c where m: "on_process_exit pf status (job_in s i j) = (r, c)" by fastforce
  have o: "calls_ok {p} s" using calls_widen [OF d, of "{p}"] by (simp add: daemon_calls_def)
  have none: "none_registered {p} (job_in s i j)" using alive(2) by (simp add: none_registered_def)
  then have "job_kept {p} (job_in s i j) (job_in s i j)"
    by (intro job_start_kept) (auto simp: none_registered_def at_most_one_def)
  then have "job_kept {p} (job_in s i j) c"
    using carriesD [OF exit_kept, of "{p}" "job_in s i j" "job_in s i j" pf status] none m by simp
  then have "calls_ok {p} (job_out s i c)"
    using job_out_calls [OF calls_widen [OF d] j(1)] alive(3) by (simp add: unqueued_def)
  moreover have "mgr_ok (snd (with_job i (on_process_exit pf status) s))"
    using preservesD [OF preserves_okI [OF preserves_with_jobs(4)]] d by (simp add: daemon_calls_def)
  ultimately show ?thesis using m j by (simp add: daemon_calls_def with_job_apply)
qed

lemma deletion_calls:
  assumes "delivered (IpcEvent m l) s"
  shows "m = ''delete_job'' \<and> daemon_calls {} (snd (on_delete_job l s))"
proof -
  from assms obtain i j where e: "m = ''delete_job''" "IpcEvent ''delete_job'' l \<notin> set (queued_calls s)"
      "map_of (jobs s) l = Some i" "heap s i = Some j" "jb_state j = Unloaded" and d: "daemon_calls {} s"
    unfolding delivered_def by auto
  have o: "calls_ok {} s" using d by (simp add: daemon_calls_def)
  have "registered_pids (process_callbacks s) i = {}" using calls_okD(2) [OF o, of i] e(4,5) by auto
  then show ?thesis using delete_calls [OF d _ e(2)] e(1,3) by simp
qed

text \<open>The closures that are found in each table, and what they do.\<close>

lemma closure_settled:
  assumes d: "daemon_calls {} s" and t: "no_periodic s"
    and cl: "cl \<in> ran (signal_callbacks s) \<union> ran (socket_read_callbacks s) \<union> snd ` set (timer_callbacks s)"
    and r: "run_closure c pf cl e s = (Inr r, s')"
  shows "settled s'"
proof -
  have o: "calls_ok {} s" using d by (simp add: daemon_calls_def)
  have tab: "tables_ok s" by (rule calls_okD [OF o])
  have kinds: "cl \<in> {OnSigpipe, OnSigint, OnSigusr1, OnSigusr2, OnSigterm, OnRpcReadable} \<or>
      (\<exists>i. cl = OnThrottleTimer i \<and> cl \<in> snd ` set (timer_callbacks s))"
    using cl tab t unfolding tables_ok_def no_periodic_def by blast
  have sig: "on_shutdown_signal c pf res s = (Inr x, u) \<Longrightarrow> settled u" for res x u
    using shutdown_settled [of "s\<lparr>pending_result := res\<rparr>" c pf] calls_set_fields(3) [OF d]
    by (simp add: on_shutdown_signal_def thenM_apply modifyM_apply)
  have rpc: "rpc_dispatch c pf s = (Inr x, u) \<Longrightarrow> settled u" for x u
    using preservesD [OF calls_request.dispatch d, of c pf] by (simp add: settled_def)
  have thr: "settled u" if "OnThrottleTimer i \<in> snd ` set (timer_callbacks s)" "with_job i (on_throttle_timer pf) s = (Inr x, u)" for i x u
  proof -
    have "i \<in> started s" using that(1) by (force simp: started_def)
    then have "calls_on {i} {} s" using d calls_okD(5) [OF o] by (simp add: calls_on_def unqueued_def)
    then have "calls_on {i} {} (snd (with_job i (on_throttle_timer pf) s))"
      by (rule preservesD [OF job_calls(2), rotated]) simp
    then show ?thesis using that(2) by (simp add: calls_on_def settled_def)
  qed
  have "settled s" using d by (simp add: settled_def)
  then show ?thesis
    using kinds r thr by (auto simp: returnM_apply intro: sig rpc) force
qed

lemma dispatch_settled:
  assumes d: "delivered e s" and t: "no_periodic s" and r: "dispatch_event (run_closure c pf) e s = (Inr r, s')"
  shows "settled s'"
proof -
  have k: "daemon_calls {} s" using d by (simp add: delivered_def)
  have o: "calls_ok {} s" using k by (simp add: daemon_calls_def)
  have tab: "tables_ok s" by (rule calls_okD [OF o])
  have closure: "signal_callbacks s n = Some cl \<or> socket_read_callbacks s n = Some cl \<or> map_of (timer_callbacks s) n = Some cl \<Longrightarrow>
      run_closure c pf cl e s = (Inr r, s') \<Longrightarrow> settled s'" for cl n
    using closure_settled [OF k t, of cl c pf e r s'] by (force intro: ranI dest: map_of_SomeD)
  show ?thesis
  proof (cases e)
    case (ProcEvent p status)
    then obtain cl where cl: "process_callbacks s p = Some cl"
      using r by (auto simp: callback_of_def monad_simps split: option.splits)
    moreover have "cl \<in> range OnProcessExit" using tab ranI [of "process_callbacks s" p] cl unfolding tables_ok_def by blast
    ultimately obtain i where i: "process_callbacks s p = Some (OnProcessExit i)" by blast
    obtain r1 s1 where m: "with_job i (on_process_exit pf status) s = (r1, s1)" by fastforce
    have "daemon_calls {p} s1" using exit_calls [OF k i, of pf status] m by simp
    then have "daemon_calls {} (snd (deleteProcess p s1))" by (rule drop_registration)
    then show ?thesis
      using r ProcEvent i m by (cases r1) (auto simp: callback_of_def monad_simps settled_def)
  next
    case (IpcEvent m l)
    have "ipc_callbacks s m = Some x \<Longrightarrow> x = OnDeleteJob" for x
      using tab ranI [of "ipc_callbacks s"] unfolding tables_ok_def by blast
    then show ?thesis
      using r d IpcEvent deletion_calls [of m l s]
      by (auto simp: callback_of_def monad_simps settled_def split: option.splits)
  next
    case (SignalEvent n)
    then show ?thesis
      using r closure by (auto simp: callback_of_def monad_simps split: option.splits)
  next
    case (SocketEvent n)
    then show ?thesis
      using r closure by (auto simp: callback_of_def monad_simps split: option.splits)
  next
    case (TimerEvent n)
    then show ?thesis
      using r closure by (auto simp: callback_of_def monad_simps split: option.splits)
  qed
qed

lemma event_settled:
  assumes i: "settled s" and t: "no_periodic s" and h: "handleEvent c pf timeout s = (Inr go, s')"
  shows "settled s'"
proof (cases "mstate s = Finished")
  case True
  then show ?thesis using h by (auto simp: handleEvent_apply monad_simps settled_def)
next
  case False
  then have d: "daemon_calls {} s" using i by (simp add: settled_def)
  have wait: "settled u" if "em_waitForEvent pf (run_closure c pf) tm s = (Inr r, u)" for tm r u
  proof -
    obtain r1 s1 where w: "epoll_waitForEvent pf tm s = (r1, s1)" by fastforce
    have "timer_callbacks s1 = timer_callbacks s"
      using epoll.wait_keeps [OF w] em_tables_more by blast
    then have t1: "no_periodic s1" using t by (simp add: no_periodic_def)
    show ?thesis
      using that w wait_delivers [OF d w] dispatch_settled [OF _ t1]
      by (auto simp: em_waitForEvent_def monad_simps settled_def split: sum.splits option.splits)
  qed
  have "settled u" if "thenM (mgr_execute c pf AllJobsExited) (returnM ()) s = (Inr r, u)" for r u
    using that preservesD [OF preserves_thenM [OF machine_calls preserves_returnM] d, of c pf AllJobsExited "()"]
    by (simp add: settled_def)
  then show ?thesis
    using h wait False
    by (cases "mstate s") (auto simp: handleEvent_apply thenM_apply [of _ "getsM _"] bindM_apply getsM_apply throwM_apply
        split: prod.splits sum.splits if_splits)
qed

section \<open>Runs without periodic jobs\<close>

text \<open>
  The operations of \<open>main\<close>, each of which ends normally: an exception leaves the main loop and ends
  the program. While they run, no job is scheduled by the clock.
\<close>

inductive aperiodic_run :: "build_config \<Rightarrow> platform \<Rightarrow> domain \<Rightarrow> mgr \<Rightarrow> bool" for c pf d where
  built: "mk_manager pf d s = (Inr (), s') \<Longrightarrow> aperiodic_run c pf d s'"
| run: "aperiodic_run c pf d s \<Longrightarrow> startRunning c pf s = (Inr (), s') \<Longrightarrow> aperiodic_run c pf d s'"
| stop: "aperiodic_run c pf d s \<Longrightarrow> stopRunning c pf s = (Inr (), s') \<Longrightarrow> aperiodic_run c pf d s'"
| turn: "aperiodic_run c pf d s \<Longrightarrow> no_periodic s \<Longrightarrow> handleEvent c pf t s = (Inr go, s') \<Longrightarrow> aperiodic_run c pf d s'"

lemma machine_settled: "preserves settled (mgr_execute c pf tr)"
proof (unfold preserves_def, intro allI impI)
  fix s assume i: "settled s"
  show "settled (snd (mgr_execute c pf tr s))"
  proof (cases "mstate s = Finished")
    case True
    then show ?thesis
      using mgr_execute_cases [where c = c and pf = pf and tr = tr and s = s]
      by (auto simp: settled_def split: prod.splits sum.splits fsm_status.splits elim: mgr_edge_FinishedE)
  next
    case False
    then show ?thesis using i preservesD [OF machine_calls, of "{}" s] by (simp add: settled_def)
  qed
qed

text \<open>Construction starts with empty tables; what follows only makes system calls.\<close>

lemma mk_manager_calls: "daemon_calls {} (snd (mk_manager pf d s))"
proof -
  let ?I = "daemon_calls {}"
  have ops: "preserves ?I (epollCreate pf)" "\<And>fd e. preserves ?I (epollAdd pf fd e)"
    "\<And>n. preserves ?I (monitorSignal pf n)" "\<And>fd. preserves ?I (add_cleanup fd)"
    "preserves ?I (mk_channel pf)" "\<And>p j. preserves ?I (sf_open pf p j)" "preserves ?I (getuid pf)"
    unfolding epollCreate_def epollAdd_def monitorSignal_def add_cleanup_def mk_channel_def
      sf_open_def sf_clear_def write_file_def getuid_def
    by ((rule preserves_sys_modify [OF sys_indep_calls(2)]; simp add: em_tables_def queued_calls_def; fail)
      | rule preserves_em_basic preserves_prod2 sys_indep_calls)+
  have ch: "preserves ?I (modifyM (\<lambda>s. s\<lparr>chan := ch\<rparr>))" for ch
    by (simp add: preserves_def modifyM_def calls_set_fields)
  have ipc: "preserves ?I (addIpcMethod ''delete_job'' OnDeleteJob)"
  proof (unfold addIpcMethod_def, rule preserves_modifyM)
    fix s assume d: "?I s"
    have "tables_ok s" using d by (auto simp: daemon_calls_def intro: calls_okD(1))
    then show "?I (s\<lparr>ipc_callbacks := map_insert (ipc_callbacks s) ''delete_job'' OnDeleteJob\<rparr>)"
      using d by (elim retable_calls) (auto simp: tables_ok_def map_insert_def ran_def queued_calls_def split: if_splits)
  qed
  let ?s0 = "s\<lparr>heap := Map.empty, next_id := 0, jobs := [], pending_jobs := [], mdomain := d,
    mstate := Unconfigured, pending_result := ResExit, signal_callbacks := Map.empty, process_callbacks := Map.empty,
    socket_read_callbacks := Map.empty, timer_callbacks := [], ipc_callbacks := Map.empty, timer_id_max := 0,
    child_status := [], blocked_signals := {}, pending_events := [], watch_pids := {}, timerfd_map := [], cleanup_fds := {}\<rparr>"
  have empty: "?I ?s0"
    by (simp add: daemon_calls_def mgr_ok_def view_def own_ok_def calls_ok_def tables_ok_def started_def
        registered_pids_def queued_calls_def)
  have first: "?I (snd (m (f s))) \<Longrightarrow> ?I (snd (thenM (modifyM f) m s))" for f and m :: "(mgr, unit) M" and s
    by (simp add: thenM_apply modifyM_apply)
  show ?thesis
    unfolding mk_manager_def mk_event_manager_def mk_epoll_def init_epoll_def createOrOpenStatefile_def thenM_distrib
    by (rule first)+ (rule preservesD [where I = ?I, OF _ empty],
      ((rule preserves_sys_modify [OF sys_indep_calls(2)]; simp add: em_tables_def queued_calls_def; fail)
        | rule ops ch ipc preserves_fs preserves_em_basic preserves_prod2 sys_indep_calls)+)
qed

lemma aperiodic_settled: "aperiodic_run c pf d s \<Longrightarrow> settled s"
proof (induction rule: aperiodic_run.induct)
  case (built s s')
  then show ?case using mk_manager_calls [of pf d s] by (simp add: settled_def)
next
  case (run s s')
  then show ?case
    using preservesD [OF preserves_thenM [OF machine_settled preserves_returnM], of s c pf MgrStartRequested "()"]
    by (simp add: startRunning_def)
next
  case (stop s s')
  then show ?case
    using preservesD [OF preserves_thenM [OF machine_settled preserves_returnM], of s c pf MgrStopRequested "()"]
    by (simp add: stopRunning_def)
next
  case (turn s t go s')
  show ?case by (rule event_settled [OF turn.IH turn.hyps(2,3)])
qed

text \<open>
  C3: as long as no job is scheduled by the clock and the manager has not finished, every callback
  registered for a process belongs to a job that is alive and running, which has no other process
  registered: a process that exits never calls a job that was destroyed.
\<close>

theorem exit_calls_live_job:
  assumes "aperiodic_run c pf d s" and "mstate s \<noteq> Finished" and "process_callbacks s p = Some cl"
  shows "\<exists>i j. cl = OnProcessExit i \<and> heap s i = Some j \<and> jb_state j = Running \<and>
    (label (jb_manifest j), i) \<in> set (jobs s) \<and> (\<forall>q. process_callbacks s q = Some cl \<longrightarrow> q = p)"
proof -
  have d: "daemon_calls {} s" using aperiodic_settled [OF assms(1)] assms(2) by (simp add: settled_def)
  have "tables_ok s" using d by (auto simp: daemon_calls_def intro: calls_okD(1))
  then obtain i where i: "cl = OnProcessExit i" using assms(3) ranI [of "process_callbacks s" p cl] unfolding tables_ok_def by blast
  note alive = registered_alive [OF d assms(3) [unfolded i]]
  obtain j where j: "heap s i = Some j" "jb_state j = Running" using alive(1) by blast
  have "(label (jb_manifest j), i) \<in> set (jobs s)"
    using owned_facts(1) [of s i j] d j(1) alive(3) by (simp add: daemon_calls_def unqueued_def)
  moreover have "\<forall>q. process_callbacks s q = Some cl \<longrightarrow> q = p" using alive(2) i by (auto simp: registered_pids_def)
  ultimately show ?thesis using i j by blast
qed

section \<open>A run\<close>

text \<open>A kernel that answers every call with success, and one manifest to load: a daemon with \<open>KeepAlive\<close>.\<close>

definition boot_platform :: platform where
  "boot_platform = null_platform\<lparr>
     sys_int := (\<lambda>_ c. (if c = Proc SysFork then 42
       else if c \<in> {File (SysExists ''/etc/relaunchd/LaunchDaemons''), File (SysIsDirectory ''/etc/relaunchd/LaunchDaemons'')} then 1
       else 0, 0)),
     sys_readdir := (\<lambda>_ _. [''/m.json'']), sys_file_json := (\<lambda>_ _. Inr sample_manifest)\<rparr>"

definition boot_domain :: domain where "boot_domain = \<lparr>dtype = System, statedir = ''/s''\<rparr>"

definition boot_manifest :: manifest where
  "boot_manifest = default_manifest\<lparr>label := ''a'', program := Some ''/p'', program_arguments := [''/p''],
     keep_alive_always := True, throttle_interval := 30\<rparr>"

abbreviation boot_job :: job where "boot_job \<equiv> mk_job (Some ''/m.json'') boot_manifest"

lemma boot_answers [simp]:
  "sys_int boot_platform h (Evt e) = (0, 0)" "sys_int boot_platform h (Sock k) = (0, 0)"
  "sys_int boot_platform h (Acct a) = (0, 0)"
  "sys_int boot_platform h (Proc p) = (if p = SysFork then 42 else 0, 0)"
  "sys_int boot_platform h (File f) = (if f \<in> {SysExists ''/etc/relaunchd/LaunchDaemons'',
     SysIsDirectory ''/etc/relaunchd/LaunchDaemons''} then 1 else 0, 0)"
  "jlib boot_platform = nl_json" "sys_readdir boot_platform h q = [''/m.json'']"
  "sys_file_json boot_platform h q = Inr sample_manifest" "\<not> xml_support boot_platform" "\<not> ndebug boot_platform"
  "sys_passwd boot_platform h c = None" "sys_group boot_platform h c = None" "sys_getenv boot_platform h n = None"
  "sys_status boot_platform h fd = \<lparr>errorCode = ExecSuccess, savedErrno = 0, errorContext = ChildProcess\<rparr>"
  "sys_pipe_fds boot_platform h = (3, 4)"
  by (simp_all add: boot_platform_def null_platform_def)

lemma boot_fields: "label boot_manifest = ''a''" "user_name boot_manifest = None" "group_name boot_manifest = None"
  "environment_variables boot_manifest = []" "disabled boot_manifest = False" "keep_alive_always boot_manifest = True"
  by (simp_all add: boot_manifest_def default_manifest_def)

lemma boot_get_manifest: "get_manifest boot_platform sample_manifest = Inr boot_manifest"
  by (simp add: get_manifest_def from_json_def from_json_steps_def sample_manifest_def boot_manifest_def
      default_manifest_def nl_json_def on_key_def unsupported_key_def set_label_def mk_label_def set_string_def
      set_keep_alive_def set_bool_def set_u32_def rectify_def validate_def label_string_def)

text \<open>What the steps of starting up do not touch.\<close>

definition same_jobs :: "mgr \<Rightarrow> mgr \<Rightarrow> bool" where
  "same_jobs s t \<longleftrightarrow> mstate t = mstate s \<and> jobs t = jobs s \<and> pending_jobs t = pending_jobs s \<and>
     next_id t = next_id s \<and> heap t = heap s \<and> timer_callbacks t = timer_callbacks s \<and>
     sf_current t = sf_current s \<and> mdomain t = mdomain s \<and> process_callbacks t = process_callbacks s"

lemma boot_built:
  "\<exists>s. mk_manager boot_platform boot_domain blank_mgr = (Inr (), s) \<and> mstate s = Unconfigured \<and> jobs s = [] \<and>
     pending_jobs s = [] \<and> next_id s = 0 \<and> timer_callbacks s = [] \<and> sf_current s = default_state_doc \<and>
     mdomain s = boot_domain \<and> process_callbacks s = Map.empty \<and> ch_sockfd (chan s) = 0"
  by (simp add: mk_manager_def mk_event_manager_def mk_epoll_def init_epoll_def epollCreate_def epollAdd_def
      monitorSignal_def add_cleanup_def mk_channel_def createOrOpenStatefile_def getuid_def sf_open_def sf_clear_def
      write_file_def addIpcMethod_def monad_simps blank_mgr_def em_state.defs init_em_def)

lemma boot_signals: "\<exists>t. setupSignalHandlers boot_platform s = (Inr (), t) \<and> same_jobs s t \<and> chan t = chan s"
  by (simp add: setupSignalHandlers_def addSignal_def monitorSignal_def monad_simps same_jobs_def)

lemma boot_listens: "ch_sockfd (chan s) = 0 \<Longrightarrow> \<exists>t. startRpcServer boot_platform s = (Inr (), t) \<and> same_jobs s t"
  by (simp add: startRpcServer_def bindAndListen_def ch_listen_def getSockFD_def addSocketRead_def
      monitorSocketRead_def monad_simps same_jobs_def Let_def)

abbreviation boot_loaded :: "mgr \<Rightarrow> mgr" where
  "boot_loaded s \<equiv> s\<lparr>heap := (heap s)(0 \<mapsto> boot_job), pending_jobs := [(''a'', Some 0)], next_id := 1\<rparr>"

lemma boot_load_one:
  assumes "mstate s = Unconfigured" "jobs s = []" "pending_jobs s = []" "next_id s = 0" "sf_current s = default_state_doc"
  shows "\<exists>t. loadManifest boot_platform ''/m.json'' False False s = (Inr True, t) \<and> same_jobs (boot_loaded s) t"
  using assms
  by (simp add: loadManifest_def parse_path_def path_extension_def path_filename_def loadManifest_json_def
      boot_get_manifest load_checked_eq taken_def load_fresh_def sf_getValue_def no_override [simplified] new_job_def
      monad_simps same_jobs_def Let_def alist_insert_def boot_fields)

lemma boot_load:
  assumes "mstate s = Unconfigured" "jobs s = []" "pending_jobs s = []" "next_id s = 0" "sf_current s = default_state_doc"
    "mdomain s = boot_domain"
  shows "\<exists>t. loadDefaultManifests sample_config boot_platform s = (Inr (), t) \<and> same_jobs (boot_loaded s) t"
  using assms boot_load_one [of "s\<lparr>trace := File (SysReaddir ''/etc/relaunchd/LaunchDaemons'') #
    File (SysIsDirectory ''/etc/relaunchd/LaunchDaemons'') # File (SysExists ''/etc/relaunchd/LaunchDaemons'') # trace s\<rparr>"]
  by (auto simp: loadDefaultManifests_def getLoadPaths_def boot_domain_def sample_config_def loadAllManifests_def
      fs_test_def directory_iterator_def try_load_def monad_simps same_jobs_def Let_def)

lemma boot_run:
  assumes "jb_manifest (this x) = m" "user_name m = None" "group_name m = None" "environment_variables m = []"
    and "process_callbacks x 42 = None"
  shows "\<exists>y. job_startJob boot_platform x = (Inr (), y) \<and> process_callbacks y 42 = Some (OnProcessExit (this_id x)) \<and>
    em_tables (y\<lparr>process_callbacks := Map.empty, this := this x\<rparr>) = em_tables (x\<lparr>process_callbacks := Map.empty\<rparr>) \<and>
    child_status y = child_status x \<and> pending_events y = pending_events x \<and> sf_current y = sf_current x"
  using assms
  by (simp add: job_startJob_def job_run_def look_up_accounts_def getuid_def run_ids_def setup_environment_variables_def
      add_standard_environment_variables_def standard_keys_def run_fork_def createPipe_def run_parent_def becomeParent_def
      readStatus_def close_end_def destroy_monitor_def addProcess_def monitorChildProcess_def current_time_def
      monad_simps Let_def default_var_def getenv_def map_insert_def em_tables_def)

lemma boot_bootstrap:
  assumes x: "this x = mk_job p boot_manifest" "process_callbacks x 42 = None" "sf_current x = default_state_doc"
  shows "\<exists>z. job_execute boot_platform Bootstrap x = (Inr Fsm_Success, z) \<and> process_callbacks z 42 = Some (OnProcessExit (this_id x))"
proof -
  obtain y where y: "job_startJob boot_platform x = (Inr (), y)" "process_callbacks y 42 = Some (OnProcessExit (this_id x))"
    using boot_run [of x boot_manifest] x(1,2) by (auto simp: mk_job_def boot_fields)
  have s: "job_execute_n 1 boot_platform StartRequested x = (Inr Fsm_Success, put_job_state Running y)"
    using x(1) y unfolding One_nat_def job_execute_n.simps execute_candidates
    by (simp add: candidates_def job_table_def get_job_state_def mk_job_def monad_simps)
  then show ?thesis
    using x y unfolding job_execute_loop
    by (simp add: candidates_def job_table_def get_job_state_def mk_job_def guard_bootstrap_run_def isDisabled_def sf_getValue_def
        boot_fields no_override [simplified] monad_simps put_job_state_def del: job_execute_n.simps)
qed

lemma boot_start:
  assumes "jobs s = []" "pending_jobs s = [(''a'', Some 0)]" "heap s 0 = Some boot_job"
    "process_callbacks s = Map.empty" "sf_current s = default_state_doc"
  shows "\<exists>t. startAllJobs boot_platform s = (Inr (), t) \<and> process_callbacks t 42 = Some (OnProcessExit 0) \<and>
    jobs t = [(''a'', 0)]"
proof -
  let ?s = "s\<lparr>jobs := [(''a'', 0)], pending_jobs := [(''a'', None)]\<rparr>"
  let ?x = "job_in ?s 0 boot_job"
  have "process_callbacks ?x 42 = None" "sf_current ?x = default_state_doc" using assms by (simp_all add: job_in_def em_state.defs job_ctx.defs)
  then obtain z where z: "job_execute boot_platform Bootstrap ?x = (Inr Fsm_Success, z)" "process_callbacks z 42 = Some (OnProcessExit 0)"
    using boot_bootstrap [of ?x "Some ''/m.json''"] by auto
  have w: "with_job 0 (job_execute boot_platform Bootstrap) ?s = (Inr Fsm_Success, job_out ?s 0 z)"
    using assms z by (simp add: with_job_apply)
  then have p: "pending_jobs (job_out ?s 0 z) = [(''a'', None)]" "jobs (job_out ?s 0 z) = [(''a'', 0)]" by simp_all
  show ?thesis
    using assms w z(2) p by (simp add: startAllJobs_def start_pending_def clear_pending_def monad_simps)
qed

lemma boot_runs:
  "\<exists>s. aperiodic_run sample_config boot_platform boot_domain s \<and> mstate s = MgrRunning \<and>
     process_callbacks s 42 = Some (OnProcessExit 0) \<and> jobs s = [(''a'', 0)]"
proof -
  obtain s where b: "mk_manager boot_platform boot_domain blank_mgr = (Inr (), s)"
    and s: "mstate s = Unconfigured" "jobs s = []" "pending_jobs s = []" "next_id s = 0" "sf_current s = default_state_doc"
      "mdomain s = boot_domain" "process_callbacks s = Map.empty" "ch_sockfd (chan s) = 0"
    using boot_built by blast
  obtain s1 where s1: "setupSignalHandlers boot_platform s = (Inr (), s1)" "same_jobs s s1" "chan s1 = chan s"
    using boot_signals by blast
  obtain s2 where s2: "startRpcServer boot_platform s1 = (Inr (), s2)" "same_jobs s1 s2"
    using boot_listens [of s1] s1(3) s(8) by auto
  obtain s3 where s3: "loadDefaultManifests sample_config boot_platform s2 = (Inr (), s3)" "same_jobs (boot_loaded s2) s3"
    using boot_load [of s2] s s1(2) s2(2) by (auto simp: same_jobs_def)
  obtain s4 where s4: "startAllJobs boot_platform s3 = (Inr (), s4)" "process_callbacks s4 42 = Some (OnProcessExit 0)"
      "jobs s4 = [(''a'', 0)]"
    using boot_start [of s3] s s1(2) s2(2) s3(2) by (auto simp: same_jobs_def)
  have "startRunning sample_config boot_platform s = (Inr (), put_mgr_state MgrRunning s4)"
    unfolding startRunning_def mgr_execute_def thenM_apply execute_candidates
    using s(1) s1(1) s2(1) s3(1) s4(1) by (simp add: candidates_def mgr_table_def monad_simps)
  then have "aperiodic_run sample_config boot_platform boot_domain (put_mgr_state MgrRunning s4)"
    using aperiodic_run.built [OF b] by (rule aperiodic_run.run [rotated])
  then show ?thesis using s4(2,3) by (auto simp: put_mgr_state_def)
qed

lemma aperiodic_reachable: "aperiodic_run c pf d s \<Longrightarrow> reachable c pf d s"
proof (induction rule: aperiodic_run.induct)
  case (built s s')
  then show ?case using reachable.constructed [of c pf d s] by simp
next
  case (run s s')
  then show ?case using reachable.started [of c pf d s] by simp
next
  case (stop s s')
  then show ?case using reachable.stopped [of c pf d s] by simp
next
  case (turn s t go s')
  then show ?case using reachable.event_handled [of c pf d s t] by simp
qed

text \<open>A daemon that has started one job from the default manifests.\<close>

lemma boot_reachable:
  "\<exists>s. reachable sample_config boot_platform boot_domain s \<and> mstate s = MgrRunning \<and> jobs s = [(''a'', 0)]"
  using boot_runs aperiodic_reachable by blast

theorem reachable_ownership_witness:
  "\<exists>s. reachable sample_config boot_platform boot_domain s \<and> mgr_ok s \<and> jobs s = [(''a'', 0)]"
proof -
  obtain s where s: "reachable sample_config boot_platform boot_domain s" "jobs s = [(''a'', 0)]"
    using boot_reachable by blast
  from reachable_ownership [OF s(1)] show ?thesis using s by blast
qed

theorem exit_calls_live_job_witness:
  "\<exists>s j. aperiodic_run sample_config boot_platform boot_domain s \<and> heap s 0 = Some j \<and> jb_state j = Running \<and>
     (label (jb_manifest j), 0) \<in> set (jobs s)"
proof -
  obtain s where s: "aperiodic_run sample_config boot_platform boot_domain s" "mstate s = MgrRunning"
    "process_callbacks s 42 = Some (OnProcessExit 0)" using boot_runs by blast
  have "mstate s \<noteq> Finished" using s(2) by simp
  from exit_calls_live_job [OF s(1) this s(3)] show ?thesis using s(1) by auto
qed

section \<open>A periodic job that is unloaded while it runs\<close>

text \<open>The timer of a periodic job starts its process, but the machine stays where it was.\<close>

lemma periodic_fires:
  assumes "on_periodic_timer pf x = (r, y)"
  shows "core (this y) = core ((this x)\<lparr>jb_timer_id := None\<rparr>)"
  using assms preservesE [OF preserves_job_startJob [of "\<lambda>c. c = core ((this x)\<lparr>jb_timer_id := None\<rparr>)" pf], of _ r y]
  by (simp add: on_periodic_timer_def monad_simps)

lemma job_out_queue:
  "job_out s i ((job_in s i j)\<lparr>this := j', pending_events := q\<rparr>) = s\<lparr>heap := (heap s)(i \<mapsto> j'), pending_events := q\<rparr>"
  by (cases s) (simp add: job_in_def job_out_def em_state.defs job_ctx.defs)

lemma unload_waiting:
  assumes "jb_state j = Waiting" "jb_timer_id j = None" "\<not> jb_unload_requested j"
    and "override_enabled (jlib pf) (sf_current s) (label (jb_manifest j)) = Inr r"
  shows "job_unloadJob pf True (job_in s i j) = (Inr True, (job_in s i j)\<lparr>
    this := j\<lparr>jb_unload_requested := True, jb_state := Unloaded\<rparr>,
    pending_events := pending_events s @ [IpcEvent ''delete_job'' (label (jb_manifest j))]\<rparr>)"
  using assms
  by (simp add: job_unloadJob_def isDisabled_def sf_getValue_def execute_stop execute_unload get_job_state_def
      cancel_if_set_def submit_delete_def submitIpcCallback_def addPendingEvent_def monad_simps run_action_def
      put_job_state_def job_in_def em_state.defs job_ctx.defs)

text \<open>
  C40: a job with \<open>StartInterval\<close> whose timer has fired still waits while its process runs. When it is
  unloaded then, no signal is sent: neither the unload nor the deletion by the next event makes a
  system call at all. The job is destroyed while the exit of its process is still watched for, and
  that exit calls the destroyed job.
\<close>

theorem periodic_use_after_free:
  assumes "mstate s = MgrRunning" and "child_status s = []" "pending_events s = []"
    and "map_of (jobs s) l = Some i" "heap s i = Some j" "label (jb_manifest j) = l" "l \<noteq> []"
    and "jb_state j = Waiting" "jb_timer_id j = None" "\<not> jb_unload_requested j"
    and "process_callbacks s p = Some (OnProcessExit i)" "ipc_callbacks s ''delete_job'' = Some OnDeleteJob"
    and "override_enabled (jlib pf) (sf_current s) l = Inr r"
  shows "\<exists>s1 s2. unloadJob_label pf l False True s = (Inr True, s1) \<and> trace s1 = trace s \<and>
    handleEvent c pf t s1 = (Inr True, s2) \<and> trace s2 = trace s \<and> heap s2 i = None \<and>
    process_callbacks s2 p = Some (OnProcessExit i) \<and> watch_pids s2 = watch_pids s \<and>
    fst (handleEvent c pf t (s2\<lparr>pending_events := [ProcEvent p status]\<rparr>)) = Inl (Undefined ''use of a destroyed Job'')"
proof -
  let ?s1 = "s\<lparr>heap := (heap s)(i \<mapsto> j\<lparr>jb_unload_requested := True, jb_state := Unloaded\<rparr>),
    pending_events := [IpcEvent ''delete_job'' l]\<rparr>"
  let ?s2 = "s\<lparr>jobs := AList.delete l (jobs s), heap := (heap s)(i := None), pending_events := []\<rparr>"
  have w: "with_job i (job_unloadJob pf True) s = (Inr True, ?s1)"
    using unload_waiting [OF assms(8-10), of pf s r i] assms
    by (simp add: with_job_apply job_out_queue)
  have "unloadJob_label pf l False True s = (Inr True, ?s1)"
    using assms w by (simp add: unloadJob_label_def unloadJob_ref_def jobExists_def getJob_def lift_abrupt_def
        label_string_def monad_simps with_job_apply getJ_apply job_out_in)
  moreover have "handleEvent c pf t ?s1 = (Inr True, ?s2)"
    using assms by (simp add: handleEvent_apply em_waitForEvent_def epoll_waitForEvent_def getPendingEvent_def callback_of_def
        monad_simps on_delete_job_def destroy_job_def)
  moreover have "fst (handleEvent c pf t (?s2\<lparr>pending_events := [ProcEvent p status]\<rparr>)) = Inl (Undefined ''use of a destroyed Job'')"
    using assms by (simp add: handleEvent_apply em_waitForEvent_def epoll_waitForEvent_def getPendingEvent_def callback_of_def
        monad_simps with_job_apply)
  moreover have "trace ?s1 = trace s" "trace ?s2 = trace s" "heap ?s2 i = None"
    "process_callbacks ?s2 p = Some (OnProcessExit i)" "watch_pids ?s2 = watch_pids s"
    using assms(11) by simp_all
  ultimately show ?thesis by blast
qed

definition periodic_job :: job where
  "periodic_job = (mk_job (Some ''/m.json'') (default_manifest\<lparr>label := ''a'', program := Some ''/p'',
     program_arguments := [''/p''], start_interval := Some 5\<rparr>))\<lparr>jb_state := Waiting, jb_timer_id := Some 1\<rparr>"

definition periodic_mgr :: mgr where
  "periodic_mgr = blank_mgr\<lparr>mstate := MgrRunning, heap := [0 \<mapsto> periodic_job], next_id := 1, jobs := [(''a'', 0)],
     ipc_callbacks := [''delete_job'' \<mapsto> OnDeleteJob], timer_callbacks := [(1, OnPeriodicTimer 0)],
     process_callbacks := Map.empty, sf_current := default_state_doc\<rparr>"

theorem periodic_use_after_free_witness:
  "\<exists>s s1 s2. with_job 0 (on_periodic_timer boot_platform) periodic_mgr = (Inr (), s) \<and>
     unloadJob_label boot_platform ''a'' False True s = (Inr True, s1) \<and>
     handleEvent sample_config boot_platform None s1 = (Inr True, s2) \<and> trace s2 = trace s \<and>
     process_callbacks s2 42 = Some (OnProcessExit 0) \<and>
     fst (handleEvent sample_config boot_platform None (s2\<lparr>pending_events := [ProcEvent 42 0]\<rparr>)) =
       Inl (Undefined ''use of a destroyed Job'')"
proof -
  let ?x = "(job_in periodic_mgr 0 periodic_job)\<lparr>this := periodic_job\<lparr>jb_timer_id := None\<rparr>\<rparr>"
  obtain y where y: "job_startJob boot_platform ?x = (Inr (), y)" "process_callbacks y 42 = Some (OnProcessExit 0)"
    "em_tables (y\<lparr>process_callbacks := Map.empty, this := this ?x\<rparr>) = em_tables (?x\<lparr>process_callbacks := Map.empty\<rparr>)"
    "child_status y = child_status ?x" "pending_events y = pending_events ?x" "sf_current y = sf_current ?x"
    using boot_run [of ?x "jb_manifest periodic_job"]
    by (auto simp: periodic_job_def periodic_mgr_def mk_job_def default_manifest_def job_in_def em_state.defs job_ctx.defs)
  have t: "on_periodic_timer boot_platform (job_in periodic_mgr 0 periodic_job) = (Inr (), y)"
    using y(1) by (simp add: on_periodic_timer_def monad_simps)
  have core: "core (this y) = core (periodic_job\<lparr>jb_timer_id := None\<rparr>)" using periodic_fires [OF t] by simp
  have w: "with_job 0 (on_periodic_timer boot_platform) periodic_mgr = (Inr (), job_out periodic_mgr 0 y)"
    using t by (simp add: with_job_apply periodic_mgr_def)
  have j: "label (jb_manifest (this y)) = ''a''" "jb_state (this y) = Waiting" "jb_timer_id (this y) = None"
    "\<not> jb_unload_requested (this y)"
    using core by (simp_all add: core_def periodic_job_def mk_job_def)
  have "ipc_callbacks y = ipc_callbacks periodic_mgr"
    using y(3) by (simp add: em_tables_def)
  then have "ipc_callbacks y ''delete_job'' = Some OnDeleteJob" by (simp add: periodic_mgr_def)
  moreover have "child_status y = []" "pending_events y = []" "sf_current y = default_state_doc"
    using y(4-6) by (simp_all add: periodic_mgr_def blank_mgr_def init_em_def em_state.defs)
  moreover have "mstate periodic_mgr = MgrRunning" "map_of (jobs periodic_mgr) ''a'' = Some 0" by (simp_all add: periodic_mgr_def)
  ultimately show ?thesis
    using periodic_use_after_free [of "job_out periodic_mgr 0 y" "''a''" 0 "this y" 42 boot_platform None sample_config None 0] w j y(2)
      no_override [simplified] by auto
qed
end
