(* ===== verification/Shutdown.thy ===== *)
theory Shutdown
  imports Callbacks RequestFacts
begin

text \<open>
  The end of a graceful shutdown: once the processes of the jobs have ended, the main loop deletes
  every job and stops, within a number of turns that the queue of events gives.
\<close>

section \<open>A shutdown whose processes have ended\<close>

text \<open>The job an event is about.\<close>

fun event_job :: "mgr \<Rightarrow> event \<Rightarrow> nat option" where
  "event_job s (ProcEvent p st) = (case process_callbacks s p of Some (OnProcessExit i) \<Rightarrow> Some i | _ \<Rightarrow> None)"
| "event_job s (IpcEvent m l) = (if m = ''delete_job'' then map_of (jobs s) l else None)"
| "event_job s _ = None"

text \<open>An exit that completes the unload of its job, or a deletion.\<close>

fun due :: "mgr \<Rightarrow> event \<Rightarrow> bool" where
  "due s (ProcEvent p st) = ((WIFEXITED st \<or> WIFSIGNALED st) \<and>
     (case event_job s (ProcEvent p st) of None \<Rightarrow> False | Some i \<Rightarrow>
        (case heap s i of None \<Rightarrow> False | Some j \<Rightarrow>
           jb_state j = Running \<and> jb_unload_requested j \<and> jb_started_at j \<noteq> None)))"
| "due s (IpcEvent m l) = (m = ''delete_job'')"
| "due s _ = False"

text \<open>A job that runs, whose unload was requested, and whose exit will reach it.\<close>

definition awaited :: "mgr \<Rightarrow> nat \<Rightarrow> bool" where
  "awaited s i \<longleftrightarrow> (\<exists>j. heap s i = Some j \<and> jb_state j = Running \<and> jb_unload_requested j \<and> jb_started_at j \<noteq> None \<and>
     process_callbacks s (jb_pid j) = Some (OnProcessExit i) \<and> jb_pid j \<in> watch_pids s)"

text \<open>
  \<open>draining_but A\<close>: the manager shuts down, the jobs in \<open>A\<close> are awaited, and for each other loaded job
  exactly one event is pending, the exit of its process or its deletion.
\<close>

definition draining_but :: "nat set \<Rightarrow> mgr \<Rightarrow> bool" where
  "draining_but A s \<longleftrightarrow> mgr_ok s \<and> mstate s = GracefulShutdown \<and> child_status s = [] \<and>
     ipc_callbacks s ''delete_job'' = Some OnDeleteJob \<and> (\<forall>e \<in> set (pending_events s). due s e) \<and>
     distinct (map (event_job s) (pending_events s)) \<and>
     event_job s ` set (pending_events s) = Some ` (snd ` set (jobs s) - A) \<and>
     A \<subseteq> snd ` set (jobs s) \<and> (\<forall>i \<in> A. awaited s i)"

abbreviation draining :: "mgr \<Rightarrow> bool" where
  "draining \<equiv> draining_but {}"

fun turns :: "event \<Rightarrow> nat" where
  "turns (ProcEvent p st) = 2"
| "turns _ = 1"

definition drain_turns :: "mgr \<Rightarrow> nat" where
  "drain_turns s = sum_list (map turns (pending_events s)) + 1"

text \<open>A turn that makes quiet calls and leaves the awaited jobs as they are.\<close>

definition calm :: "nat set \<Rightarrow> mgr \<Rightarrow> mgr \<Rightarrow> bool" where
  "calm A s t \<longleftrightarrow> (\<exists>k. trace t = k @ trace s \<and> list_all quiet_call k) \<and> (\<forall>a \<in> A. heap t a = heap s a) \<and>
     pending_result t = pending_result s"

section \<open>One turn\<close>

lemma job_out_stopped:
  "job_out t i ((job_in t i j)\<lparr>trace := h, this := j', pending_events := q\<rparr>) =
   t\<lparr>trace := h, heap := (heap t)(i \<mapsto> j'), pending_events := q\<rparr>"
  by (cases t) (simp add: job_in_def job_out_def em_state.defs job_ctx.defs)

lemma job_in_trace [simp]: "trace (job_in s i j) = trace s"
  by (simp add: job_in_def em_state.defs job_ctx.defs)

lemma exit_completes:
  assumes "heap t i = Some j" and "jb_state j = Running" "jb_unload_requested j" "jb_started_at j \<noteq> None"
    and "WIFEXITED st \<or> WIFSIGNALED st" and "group_kills_end pf" and "\<forall>h. 0 \<le> fst (sys_int pf h (Proc SysClock))"
  shows "\<exists>k. with_job i (on_process_exit pf st) t = (Inr (), t\<lparr>trace := k @ trace t,
    heap := (heap t)(i \<mapsto> (record_status st j)\<lparr>jb_state := Unloaded\<rparr>),
    pending_events := pending_events t @ [IpcEvent ''delete_job'' (label (jb_manifest j))]\<rparr>) \<and> list_all quiet_call k"
proof -
  let ?x = "job_in t i j"
  have ns: "\<not> WIFSTOPPED st" using assms(5) wait_status_exclusive by blast
  let ?y = "?x\<lparr>this := record_status st j\<rparr>"
  obtain b k where k: "killProcessGroup pf ?y = (Inr b, ?y\<lparr>trace := k @ trace ?y\<rparr>)" "list_all quiet_call k"
    using killProcessGroup_ends [OF assms(6)] by blast
  let ?z = "?y\<lparr>trace := k @ trace ?y\<rparr>"
  have r: "reapChildProcess pf st ?x = (Inr (), ?z)"
    using k(1) assms(5) by (auto simp: reapChildProcess_def monad_simps record_status_def)
  have "get_job_state ?z = Running" "jb_unload_requested (this ?z)" "jb_started_at (this ?z) \<noteq> None"
    using assms(2-4) by (simp_all add: get_job_state_def record_status_def)
  from unload_after_reap [OF this assms(7)] obtain l where
    l: "job_execute pf ProcessExited ?z = (Inr Fsm_Success, unloaded (?z\<lparr>trace := l @ trace ?z\<rparr>))" "list_all quiet_call l"
    by blast
  let ?h = "(l @ k) @ trace t"
  have e: "on_process_exit pf st ?x = (Inr (), unloaded (?y\<lparr>trace := ?h\<rparr>))"
    using ns r l(1) by (simp add: on_process_exit_def monad_simps)
  have "jb_manifest (record_status st j) = jb_manifest j" by (simp add: record_status_def)
  then have u: "unloaded (?y\<lparr>trace := ?h\<rparr>) = ?x\<lparr>trace := ?h, this := (record_status st j)\<lparr>jb_state := Unloaded\<rparr>,
      pending_events := pending_events t @ [IpcEvent ''delete_job'' (label (jb_manifest j))]\<rparr>"
    by (simp add: unloaded_def put_job_state_def delete_event_def)
  show ?thesis using assms(1) e u k(2) l(2) by (intro exI [of _ "l @ k"]) (simp add: with_job_apply job_out_stopped)
qed

lemma handle_pending:
  assumes "mstate s = GracefulShutdown" "jobs s \<noteq> []" "child_status s = []" "pending_events s = e # rest"
    and "dispatch_event (run_closure c pf) e (s\<lparr>pending_events := rest\<rparr>) = (Inr (), s')" "mstate s' \<noteq> Finished"
  shows "handleEvent c pf t s = (Inr True, s')"
  using assms by (simp add: handleEvent_apply em_waitForEvent_def epoll_waitForEvent_def getPendingEvent_def monad_simps)

text \<open>A turn takes the first event off the queue; those behind it are about other jobs.\<close>

lemma drain_queue:
  assumes "draining_but A s" and "pending_events s = e # rest"
  shows "due s e" "event_job s e \<notin> event_job s ` set rest" "\<forall>x \<in> set rest. due s x" "distinct (map (event_job s) rest)"
    and "insert (event_job s e) (event_job s ` set rest) = Some ` (snd ` set (jobs s) - A)"
  using assms unfolding draining_but_def by simp_all

lemma drain_rest:
  assumes "draining_but A s" and "pending_events s = e # rest" and "e' \<in> set rest"
  shows "event_job s e' \<noteq> event_job s e" and "due s e'"
  using drain_queue [OF assms(1,2)] assms(3) by (metis imageI)+

lemma drain_owned:
  assumes "draining_but A s" and "e \<in> set (pending_events s)" and "event_job s e = Some i"
  obtains l j where "(l, i) \<in> set (jobs s)" "map_of (jobs s) l = Some i" "heap s i = Some j" "label (jb_manifest j) = l" "i \<notin> A"
proof -
  have ok: "mgr_ok s" using assms(1) by (simp add: draining_but_def)
  have "Some i \<in> Some ` (snd ` set (jobs s) - A)"
    using assms unfolding draining_but_def by (metis image_eqI)
  then obtain l where l: "(l, i) \<in> set (jobs s)" "i \<notin> A" by auto
  moreover have "map_of (jobs s) l = Some i"
    using l ok by (intro map_of_is_SomeI) (auto simp: mgr_ok_def view_def own_ok_def)
  ultimately show ?thesis using owned_facts(5) [OF ok l(1)] that by blast
qed

lemma drain_exit:
  assumes d: "draining_but A s" and q: "pending_events s = ProcEvent p st # rest"
    and pf: "group_kills_end pf" "\<forall>h. 0 \<le> fst (sys_int pf h (Proc SysClock))"
  shows "\<exists>s'. handleEvent c pf t s = (Inr True, s') \<and> draining_but A s' \<and> drain_turns s' < drain_turns s \<and> calm A s s'"
proof -
  have "due s (ProcEvent p st)" using d q by (simp add: draining_but_def)
  then obtain i j where i: "process_callbacks s p = Some (OnProcessExit i)" "heap s i = Some j"
    and j: "jb_state j = Running" "jb_unload_requested j" "jb_started_at j \<noteq> None" "WIFEXITED st \<or> WIFSIGNALED st"
    by (auto split: option.splits closure.splits)
  have ev: "event_job s (ProcEvent p st) = Some i" using i by simp
  obtain l where l: "(l, i) \<in> set (jobs s)" "map_of (jobs s) l = Some i" "label (jb_manifest j) = l" "i \<notin> A"
    using drain_owned [OF d _ ev] q i(2) by (metis list.set_intros(1) option.inject)
  obtain k where w: "with_job i (on_process_exit pf st) (s\<lparr>pending_events := rest\<rparr>) =
      (Inr (), s\<lparr>trace := k @ trace s, heap := (heap s)(i \<mapsto> (record_status st j)\<lparr>jb_state := Unloaded\<rparr>),
        pending_events := rest @ [IpcEvent ''delete_job'' l]\<rparr>)" "list_all quiet_call k"
    using exit_completes [of "s\<lparr>pending_events := rest\<rparr>" i j st pf] i(2) j pf l(3) by auto
  let ?s' = "s\<lparr>trace := k @ trace s, heap := (heap s)(i \<mapsto> (record_status st j)\<lparr>jb_state := Unloaded\<rparr>),
    pending_events := rest @ [IpcEvent ''delete_job'' l], watch_pids := watch_pids s - {p},
    process_callbacks := (process_callbacks s)(p := None)\<rparr>"
  have turn: "handleEvent c pf t s = (Inr True, ?s')"
  proof (rule handle_pending)
    show "dispatch_event (run_closure c pf) (ProcEvent p st) (s\<lparr>pending_events := rest\<rparr>) = (Inr (), ?s')"
      using w(1) i(1) by (simp add: callback_of_def monad_simps deleteProcess_def ignoreChildProcess_def)
  qed (use d q l in \<open>auto simp: draining_but_def\<close>)
  have same: "event_job ?s' e = event_job s e \<and> due ?s' e" if "e \<in> set rest" for e
    using drain_rest [OF d q that] ev i(1) by (cases e) (auto split: option.splits closure.splits)
  have last: "event_job ?s' (IpcEvent ''delete_job'' l) = Some i" using l(2) by simp
  have keep: "awaited ?s' a \<and> heap ?s' a = heap s a" if "a \<in> A" for a
  proof -
    have "awaited s a" using d that by (simp add: draining_but_def)
    then obtain ja where ja: "heap s a = Some ja" "jb_state ja = Running" "jb_unload_requested ja" "jb_started_at ja \<noteq> None"
        "process_callbacks s (jb_pid ja) = Some (OnProcessExit a)" "jb_pid ja \<in> watch_pids s"
      unfolding awaited_def by blast
    have "a \<noteq> i" using l(4) that by blast
    moreover from this have "jb_pid ja \<noteq> p" using ja(5) i(1) by auto
    ultimately show ?thesis using ja by (simp add: awaited_def)
  qed
  have "draining_but A ?s'"
    unfolding draining_but_def
  proof (intro conjI)
    show "mgr_ok ?s'" using preservesE [OF daemon_ok(3) turn] d by (simp add: draining_but_def)
    show "\<forall>e \<in> set (pending_events ?s'). due ?s' e" using same by auto
    have m: "map (event_job ?s') (pending_events ?s') = map (event_job s) rest @ [Some i]"
      using same last by simp
    have o: "distinct (map (event_job s) (ProcEvent p st # rest))" and
      im: "set (map (event_job s) (ProcEvent p st # rest)) = Some ` (snd ` set (jobs s) - A)"
      using d q by (simp_all add: draining_but_def)
    show "distinct (map (event_job ?s') (pending_events ?s'))" unfolding m using o ev by simp
    have "event_job ?s' ` set (pending_events ?s') = set (map (event_job ?s') (pending_events ?s'))" by simp
    also have "\<dots> = Some ` (snd ` set (jobs s) - A)" unfolding m using im ev by simp
    finally show "event_job ?s' ` set (pending_events ?s') = Some ` (snd ` set (jobs ?s') - A)" by simp
    show "A \<subseteq> snd ` set (jobs ?s')" using d by (simp add: draining_but_def)
    show "\<forall>a \<in> A. awaited ?s' a" using keep by blast
  qed (use d in \<open>simp_all add: draining_but_def\<close>)
  moreover have "drain_turns ?s' < drain_turns s" using q by (simp add: drain_turns_def)
  moreover have "calm A s ?s'" using w(2) keep by (auto simp: calm_def)
  ultimately show ?thesis using turn by blast
qed

lemma drain_delete:
  assumes d: "draining_but A s" and q: "pending_events s = IpcEvent m l # rest"
  shows "\<exists>s'. handleEvent c pf t s = (Inr True, s') \<and> draining_but A s' \<and> drain_turns s' < drain_turns s \<and> calm A s s'"
proof -
  have m: "m = ''delete_job''" using d q by (simp add: draining_but_def)
  have "event_job s (IpcEvent m l) \<in> Some ` (snd ` set (jobs s) - A)" using d q unfolding draining_but_def by (metis imageI list.set_intros(1))
  then obtain i where i: "map_of (jobs s) l = Some i" "i \<notin> A" using m by (auto split: if_splits)
  let ?s' = "s\<lparr>pending_events := rest, jobs := AList.delete l (jobs s), heap := (heap s)(i := None)\<rparr>"
  have ok: "mgr_ok s" using d by (simp add: draining_but_def)
  have turn: "handleEvent c pf t s = (Inr True, ?s')"
  proof (rule handle_pending)
    show "dispatch_event (run_closure c pf) (IpcEvent m l) (s\<lparr>pending_events := rest\<rparr>) = (Inr (), ?s')"
      using d i m by (simp add: draining_but_def callback_of_def monad_simps on_delete_job_def destroy_job_def)
  qed (use d q i in \<open>auto simp: draining_but_def\<close>)
  have ev: "event_job s (IpcEvent m l) = Some i" using i m by simp
  have same: "event_job ?s' e = event_job s e \<and> due ?s' e" if "e \<in> set rest" for e
    using drain_rest [OF d q that] ev m i
    by (cases e) (auto simp: delete_conv split: option.splits closure.splits)
  have keep: "awaited ?s' a \<and> heap ?s' a = heap s a" if "a \<in> A" for a
    using d i(2) that by (auto simp: draining_but_def awaited_def)
  have "draining_but A ?s'"
    unfolding draining_but_def
  proof (intro conjI)
    show "mgr_ok ?s'" using preservesE [OF daemon_ok(3) turn] ok .
    show "\<forall>e \<in> set (pending_events ?s'). due ?s' e" using same by auto
    have m: "map (event_job ?s') (pending_events ?s') = map (event_job s) rest" using same by simp
    have o: "distinct (Some i # map (event_job s) rest)" and
      im: "set (Some i # map (event_job s) rest) = Some ` (snd ` set (jobs s) - A)"
      using drain_queue [OF d q] unfolding ev by simp_all
    show "distinct (map (event_job ?s') (pending_events ?s'))" unfolding m using o by simp
    have mem: "(l, i) \<in> set (jobs s)" using i(1) by (rule map_of_SomeD)
    have "k = l \<longleftrightarrow> x = i" if "(k, x) \<in> set (jobs s)" for k x
      using owned_facts(4) [OF ok, of l i x] owned_facts(7) [OF ok, of k i l] mem that by blast
    then have "x \<in> set (AList.delete l (jobs s)) \<longleftrightarrow> x \<in> set (jobs s) \<and> snd x \<noteq> i" for x
      by (cases x) (auto simp: AList.delete_eq)
    then have left: "snd ` set (jobs ?s') = snd ` set (jobs s) - {i}" by auto
    then show "A \<subseteq> snd ` set (jobs ?s')" using d i(2) by (auto simp: draining_but_def)
    have "Some ` (snd ` set (jobs ?s') - A) = Some ` (snd ` set (jobs s) - A) - {Some i}" unfolding left by auto
    moreover have "set (map (event_job s) rest) = Some ` (snd ` set (jobs s) - A) - {Some i}"
      using o im by (metis Diff_insert_absorb distinct.simps(2) list.simps(15))
    moreover have "event_job ?s' ` set (pending_events ?s') = set (map (event_job s) rest)" using m by (metis set_map)
    ultimately show "event_job ?s' ` set (pending_events ?s') = Some ` (snd ` set (jobs ?s') - A)" by (simp only:)
    show "\<forall>a \<in> A. awaited ?s' a" using keep by blast
  qed (use d in \<open>simp_all add: draining_but_def\<close>)
  moreover have "drain_turns ?s' < drain_turns s" using q by (simp add: drain_turns_def)
  moreover have "calm A s ?s'" using keep by (auto simp: calm_def intro: exI [of _ "[]"])
  ultimately show ?thesis using turn by blast
qed

lemma drain_turn:
  assumes "draining_but A s" and "pending_events s = e # rest" and "group_kills_end pf"
    and "\<forall>h. 0 \<le> fst (sys_int pf h (Proc SysClock))"
  shows "\<exists>s'. handleEvent c pf t s = (Inr True, s') \<and> draining_but A s' \<and> drain_turns s' < drain_turns s \<and> calm A s s'"
proof -
  have "due s e" by (rule drain_queue [OF assms(1,2)])
  then show ?thesis
    using drain_exit [OF assms(1) _ assms(3,4)] drain_delete [OF assms(1)] assms(2) by (cases e) simp_all
qed

lemma drained:
  assumes "draining s" and "pending_events s = []"
  shows "handleEvent c pf t s = (Inr False, s\<lparr>mstate := Finished\<rparr>)" "jobs s = []"
proof -
  have "jobs s = []" "mstate s = GracefulShutdown" using assms by (simp_all add: draining_but_def)
  then show "handleEvent c pf t s = (Inr False, s\<lparr>mstate := Finished\<rparr>)" "jobs s = []"
    by (simp_all add: handleEvent_apply monad_simps mgr_all_exited)
qed

text \<open>
  Within two turns for each exit that is pending, one for each deletion and one more, the main loop
  deletes every job, finishes the manager and returns.
\<close>

lemma drains:
  assumes "draining s" and "group_kills_end pf" and "\<forall>h. 0 \<le> fst (sys_int pf h (Proc SysClock))"
    and "drain_turns s \<le> n"
  shows "\<exists>s'. main_loop n c pf s = (Inr (), s') \<and> mstate s' = Finished \<and> jobs s' = []"
  using assms(1,4)
proof (induction n arbitrary: s)
  case 0
  then show ?case by (simp add: drain_turns_def)
next
  case (Suc n)
  show ?case
  proof (cases "pending_events s")
    case Nil
    then show ?thesis using drained(1) [OF Suc.prems(1) Nil, of c pf None] drained(2) [OF Suc.prems(1) Nil] by (simp add: monad_simps)
  next
    case (Cons e rest)
    then obtain s1 where s1: "handleEvent c pf None s = (Inr True, s1)" "draining s1" "drain_turns s1 < drain_turns s"
      using drain_turn [OF Suc.prems(1) Cons assms(2,3)] by blast
    then show ?thesis using Suc.IH [OF s1(2)] Suc.prems(2) by (simp add: monad_simps)
  qed
qed

section \<open>From the request to stop\<close>

text \<open>What the request to stop makes of a job, and what it queues for it.\<close>

definition stop_job :: "job \<Rightarrow> job" where
  "stop_job j = (if jb_state j = Running then j\<lparr>jb_unload_requested := True\<rparr>
     else j\<lparr>jb_unload_requested := True, jb_state := Unloaded\<rparr>)"

definition stop_calls :: "job \<Rightarrow> event list" where
  "stop_calls j = (if jb_state j = Running then [] else [IpcEvent ''delete_job'' (label (jb_manifest j))])"

definition stop_kills :: "job \<Rightarrow> syscall list" where
  "stop_kills j = (if jb_state j = Running \<and> \<not> jb_unload_requested j \<and> jb_pid j \<noteq> 0
     then [Proc (SysKill (jb_pid j) SIGTERM)] else [])"

definition stoppable :: "job \<Rightarrow> bool" where
  "stoppable j \<longleftrightarrow> jb_state j = Running \<or>
     jb_state j \<noteq> Unloaded \<and> \<not> jb_unload_requested j \<and> (jb_state j = Waiting \<longrightarrow> jb_timer_id j = None)"

lemma stop_one:
  assumes "heap s i = Some j" and "stoppable j"
    and "\<exists>r. override_enabled (jlib pf) (sf_current s) (label (jb_manifest j)) = Inr r"
  shows "unload_one pf i s = (Inr True, s\<lparr>trace := stop_kills j @ trace s, heap := (heap s)(i \<mapsto> stop_job j),
    pending_events := pending_events s @ stop_calls j\<rparr>)"
proof (cases "jb_unload_requested j")
  case True
  then have "stop_job j = j" "stop_calls j = []" "stop_kills j = []"
    using assms(2) by (simp_all add: stoppable_def stop_job_def stop_calls_def stop_kills_def)
  then show ?thesis
    using assms(1) True by (simp add: unload_one_def monad_simps with_job_apply job_out_in fun_upd_idem)
next
  case False
  obtain r where r: "override_enabled (jlib pf) (sf_current s) (label (jb_manifest j)) = Inr r" using assms(3) by blast
  let ?x = "job_in s i j"
  have "job_unloadJob pf True ?x =
      (Inr True, ?x\<lparr>trace := stop_kills j @ trace ?x, this := stop_job j, pending_events := pending_events s @ stop_calls j\<rparr>)"
    using job_unloadJob_eq [of ?x pf r True] False r assms(2)
    by (cases s)
      (auto simp: job_in_def em_state.defs job_ctx.defs get_job_state_def stoppable_def stop_job_def stop_calls_def
        stop_kills_def mark_unload_def unloaded_def put_job_state_def delete_event_def)
  moreover have "jb_state j \<noteq> Unloaded" using assms(2) by (auto simp: stoppable_def)
  ultimately show ?thesis
    using assms(1) False by (simp add: unload_one_def monad_simps with_job_apply job_out_in job_out_stopped)
qed

text \<open>The loop over the jobs.\<close>

definition stop_heap :: "(string \<times> nat) list \<Rightarrow> (nat \<rightharpoonup> job) \<Rightarrow> nat \<rightharpoonup> job" where
  "stop_heap js H = (\<lambda>i. if i \<in> snd ` set js then map_option stop_job (H i) else H i)"

definition stop_queue :: "(string \<times> nat) list \<Rightarrow> (nat \<rightharpoonup> job) \<Rightarrow> event list" where
  "stop_queue js H = concat (map (\<lambda>(l, i). case H i of Some j \<Rightarrow> stop_calls j | None \<Rightarrow> []) js)"

definition stop_trace :: "(string \<times> nat) list \<Rightarrow> (nat \<rightharpoonup> job) \<Rightarrow> syscall list" where
  "stop_trace js H = concat (map (\<lambda>(l, i). case H i of Some j \<Rightarrow> stop_kills j | None \<Rightarrow> []) (rev js))"

definition overrides_readable :: "platform \<Rightarrow> mgr \<Rightarrow> bool" where
  "overrides_readable pf s \<longleftrightarrow> (\<forall>l. \<exists>r. override_enabled (jlib pf) (sf_current s) l = Inr r)"

lemma stop_loop:
  assumes "distinct (map snd js)" and "\<forall>i \<in> snd ` set js. \<exists>j. heap s i = Some j \<and> stoppable j" and "overrides_readable pf s"
  shows "foldM (\<lambda>success (l, i). bindM (unload_one pf i) (\<lambda>ok. returnM (success \<and> ok))) b js s =
    (Inr b, s\<lparr>trace := stop_trace js (heap s) @ trace s, heap := stop_heap js (heap s),
       pending_events := pending_events s @ stop_queue js (heap s)\<rparr>)"
  using assms
proof (induction js arbitrary: s)
  case Nil
  then show ?case
    by (cases s) (simp add: monad_simps stop_heap_def stop_queue_def stop_trace_def)
next
  case (Cons p js)
  obtain l i where p: "p = (l, i)" by fastforce
  obtain j where j: "heap s i = Some j" "stoppable j" using Cons.prems(2) p by auto
  let ?s = "s\<lparr>trace := stop_kills j @ trace s, heap := (heap s)(i \<mapsto> stop_job j), pending_events := pending_events s @ stop_calls j\<rparr>"
  have one: "unload_one pf i s = (Inr True, ?s)"
    using stop_one [OF j, of pf] Cons.prems(3) by (simp add: overrides_readable_def)
  have i: "i \<notin> snd ` set js" using Cons.prems(1) p by auto
  have "\<forall>k \<in> snd ` set js. \<exists>j. heap ?s k = Some j \<and> stoppable j" using Cons.prems(2) i by auto
  moreover have "distinct (map snd js)" "overrides_readable pf ?s" using Cons.prems(1,3) by (simp_all add: overrides_readable_def)
  ultimately have rest: "foldM (\<lambda>success (l, i). bindM (unload_one pf i) (\<lambda>ok. returnM (success \<and> ok))) b js ?s =
      (Inr b, ?s\<lparr>trace := stop_trace js (heap ?s) @ trace ?s, heap := stop_heap js (heap ?s),
        pending_events := pending_events ?s @ stop_queue js (heap ?s)\<rparr>)"
    using Cons.IH [of ?s] by blast
  have others: "(m, i) \<notin> set js" for m using i by force
  have "stop_heap js (heap ?s) = stop_heap (p # js) (heap s)"
    using i j by (auto simp: stop_heap_def p fun_eq_iff)
  moreover have "stop_queue (p # js) (heap s) = stop_calls j @ stop_queue js (heap ?s)"
    unfolding stop_queue_def using j others by (auto simp: p intro!: arg_cong [where f = concat] map_cong)
  moreover have "stop_trace (p # js) (heap s) = stop_trace js (heap ?s) @ stop_kills j"
    unfolding stop_trace_def using j others by (auto simp: p intro!: arg_cong [where f = concat] map_cong)
  moreover have "foldM (\<lambda>success (l, i). bindM (unload_one pf i) (\<lambda>ok. returnM (success \<and> ok))) b (p # js) s =
      foldM (\<lambda>success (l, i). bindM (unload_one pf i) (\<lambda>ok. returnM (success \<and> ok))) b js ?s"
    using one by (simp add: p monad_simps)
  ultimately show ?case
    unfolding rest by simp
qed

lemma close_listener_quiet:
  "\<exists>k ch. close_listener pf s = (Inr (), s\<lparr>trace := k @ trace s, chan := ch\<rparr>) \<and> list_all quiet_call k"
proof (cases "0 \<le> ch_sockfd (chan s)")
  case False
  then show ?thesis
    by (intro exI [of _ "[]"] exI [of _ "chan s"]) (simp add: close_listener_def unbindAndStopListening_def monad_simps)
next
  case True
  let ?k = "[Proc (SysClose (ch_sockfd (chan s)))]"
  have "\<exists>ch. close_listener pf s = (Inr (), s\<lparr>trace := ?k @ trace s, chan := ch\<rparr>)"
    using True by (auto simp: close_listener_def unbindAndStopListening_def monad_simps)
  moreover have "list_all quiet_call ?k" by simp
  ultimately show ?thesis by blast
qed

lemma stop_request:
  assumes "mgr_ok s" and "mstate s = MgrRunning" and "overrides_readable pf s"
    and "\<forall>i \<in> snd ` set (jobs s). \<exists>j. heap s i = Some j \<and> stoppable j"
  shows "\<exists>k ch. stopRunning c pf s = (Inr (), s\<lparr>trace := stop_trace (jobs s) (heap s) @ k @ trace s, chan := ch,
    heap := stop_heap (jobs s) (heap s), mstate := GracefulShutdown,
    pending_events := pending_events s @ stop_queue (jobs s) (heap s)\<rparr>) \<and> list_all quiet_call k"
proof -
  have d: "distinct (map snd (jobs s))" using assms(1) by (simp add: mgr_ok_def view_def own_ok_def)
  obtain k ch where close: "close_listener pf s = (Inr (), s\<lparr>trace := k @ trace s, chan := ch\<rparr>)" "list_all quiet_call k"
    using close_listener_quiet by blast
  let ?s = "s\<lparr>trace := k @ trace s, chan := ch\<rparr>"
  have loop: "unloadAllJobs pf ?s = (Inr True, ?s\<lparr>trace := stop_trace (jobs s) (heap s) @ k @ trace s,
      heap := stop_heap (jobs s) (heap s), pending_events := pending_events s @ stop_queue (jobs s) (heap s)\<rparr>)"
    using stop_loop [OF d, of ?s pf True] assms(3,4)
    by (simp add: unloadAllJobs_def monad_simps overrides_readable_def)
  show ?thesis
    unfolding stopRunning_def mgr_execute_def thenM_apply execute_candidates
    using assms(2) close loop
    by (intro exI [of _ k] exI [of _ ch]) (simp add: candidates_def mgr_table_def monad_simps put_mgr_state_def)
qed

text \<open>
  \<open>exits_but A\<close>: the queue of a kernel that reports the exit of the process of each running job outside
  \<open>A\<close>, once, in any order.
\<close>

fun is_exit :: "event \<Rightarrow> bool" where
  "is_exit (ProcEvent p st) = (WIFEXITED st \<or> WIFSIGNALED st)"
| "is_exit _ = False"

definition running_jobs :: "mgr \<Rightarrow> nat set" where
  "running_jobs s = {i \<in> snd ` set (jobs s). \<exists>j. heap s i = Some j \<and> jb_state j = Running}"

definition exits_but :: "nat set \<Rightarrow> mgr \<Rightarrow> event list \<Rightarrow> bool" where
  "exits_but A s exits \<longleftrightarrow> (\<forall>e \<in> set exits. is_exit e) \<and> distinct (map (event_job s) exits) \<and>
     event_job s ` set exits = Some ` (running_jobs s - A)"

abbreviation exits_of :: "mgr \<Rightarrow> event list \<Rightarrow> bool" where
  "exits_of \<equiv> exits_but {}"

lemma stop_queue_jobs:
  assumes "mgr_ok s" and "set js \<subseteq> set (jobs s)" and "distinct (map snd js)"
  shows "map (event_job s) (stop_queue js (heap s)) = map (Some \<circ> snd) (filter (\<lambda>p. snd p \<notin> running_jobs s) js)"
    and "e \<in> set (stop_queue js (heap s)) \<Longrightarrow> \<exists>l. e = IpcEvent ''delete_job'' l"
  using assms(2,3)
proof (induction js)
  case Nil
  case 1 then show ?case by (simp add: stop_queue_def)
  case 2 then show ?case by (simp add: stop_queue_def)
next
  case (Cons p js)
  obtain l i where p: "p = (l, i)" by fastforce
  have mem: "(l, i) \<in> set (jobs s)" if "set (p # js) \<subseteq> set (jobs s)" using that p by simp
  { case 1
    obtain j where j: "heap s i = Some j" "label (jb_manifest j) = l"
      using owned_facts(5) [OF assms(1) mem [OF 1(1)]] by blast
    have "map_of (jobs s) l = Some i"
      using mem [OF 1(1)] assms(1) by (intro map_of_is_SomeI) (auto simp: mgr_ok_def view_def own_ok_def)
    moreover have "i \<in> running_jobs s \<longleftrightarrow> jb_state j = Running"
      using j mem [OF 1(1)] by (force simp: running_jobs_def)
    moreover have "map (event_job s) (stop_queue js (heap s)) = map (Some \<circ> snd) (filter (\<lambda>p. snd p \<notin> running_jobs s) js)"
      using Cons.IH(1) 1 by simp
    ultimately show ?case using j by (auto simp: p stop_queue_def stop_calls_def) }
  { case 2
    then show ?case using Cons.IH(2) by (auto simp: p stop_queue_def stop_calls_def split: option.splits if_splits) }
qed

abbreviation (input) stopped :: "mgr \<Rightarrow> syscall list \<Rightarrow> channel \<Rightarrow> event list \<Rightarrow> mgr" where
  "stopped s h ch exits \<equiv> s\<lparr>trace := h, chan := ch, heap := stop_heap (jobs s) (heap s),
     mstate := GracefulShutdown, pending_events := stop_queue (jobs s) (heap s) @ exits\<rparr>"

lemma stop_events:
  assumes "mgr_ok s"
  shows "map (event_job s) (stop_queue (jobs s) (heap s)) = map Some (map snd (filter (\<lambda>p. snd p \<notin> running_jobs s) (jobs s)))"
    and "e \<in> set (stop_queue (jobs s) (heap s)) \<Longrightarrow> \<exists>l. e = IpcEvent ''delete_job'' l"
    and "distinct (map snd (jobs s))"
proof -
  show d: "distinct (map snd (jobs s))" using assms by (simp add: mgr_ok_def view_def own_ok_def)
  show "map (event_job s) (stop_queue (jobs s) (heap s)) = map Some (map snd (filter (\<lambda>p. snd p \<notin> running_jobs s) (jobs s)))"
    "e \<in> set (stop_queue (jobs s) (heap s)) \<Longrightarrow> \<exists>l. e = IpcEvent ''delete_job'' l"
    using stop_queue_jobs [OF assms order_refl d] by simp_all
qed

lemma stopped_draining:
  assumes ok: "mgr_ok s" and "child_status s = []" and "ipc_callbacks s ''delete_job'' = Some OnDeleteJob"
    and j: "\<forall>i \<in> snd ` set (jobs s). \<exists>j. heap s i = Some j \<and> stoppable j \<and> (jb_state j = Running \<longrightarrow> jb_started_at j \<noteq> None)"
    and x: "exits_but A s exits" and "mgr_ok (stopped s h ch exits)" and A: "A \<subseteq> running_jobs s"
    and a: "\<forall>i \<in> A. \<exists>j. heap s i = Some j \<and> process_callbacks s (jb_pid j) = Some (OnProcessExit i) \<and> jb_pid j \<in> watch_pids s"
  shows "draining_but A (stopped s h ch exits)"
proof -
  let ?t = "stopped s h ch exits"
  note queue = stop_events [OF ok]
  note d = queue(3)
  have same: "event_job ?t = event_job s"
  proof
    show "event_job ?t e = event_job s e" for e by (cases e) simp_all
  qed
  have jobs_split: "snd ` set (jobs s) - A = snd ` set (filter (\<lambda>p. snd p \<notin> running_jobs s) (jobs s)) \<union> (running_jobs s - A)"
    using A by (auto simp: running_jobs_def)
  have events: "map (event_job s) (pending_events ?t) =
      map Some (map snd (filter (\<lambda>p. snd p \<notin> running_jobs s) (jobs s))) @ map (event_job s) exits"
    using queue(1) by simp
  show ?thesis
    unfolding draining_but_def
  proof (intro conjI)
    show "mgr_ok ?t" by (rule assms)
    show "\<forall>e \<in> set (pending_events ?t). due ?t e"
    proof
      fix e assume "e \<in> set (pending_events ?t)"
      then consider "e \<in> set (stop_queue (jobs s) (heap s))" | "e \<in> set exits" by auto
      then show "due ?t e"
      proof cases
        case 1
        then show ?thesis using queue(2) by fastforce
      next
        case 2
        then have ex: "is_exit e" and "event_job s e \<in> Some ` (running_jobs s - A)" using x by (auto simp: exits_but_def)
        then obtain i j where i: "event_job s e = Some i" "i \<in> snd ` set (jobs s)" "heap s i = Some j" "jb_state j = Running"
          by (auto simp: running_jobs_def)
        then have "heap ?t i = Some (j\<lparr>jb_unload_requested := True\<rparr>)" "jb_started_at j \<noteq> None"
          using j by (auto simp: stop_heap_def stop_job_def)
        then show ?thesis using ex i by (cases e) (simp_all add: same)
      qed
    qed
    show "distinct (map (event_job ?t) (pending_events ?t))"
    proof -
      have "distinct (map Some (map snd (filter (\<lambda>p. snd p \<notin> running_jobs s) (jobs s))))"
        using distinct_map_filter [OF d] by (subst distinct_map) simp
      moreover have "distinct (map (event_job s) exits)" and "set (map (event_job s) exits) = Some ` (running_jobs s - A)"
        using x by (simp_all add: exits_but_def)
      ultimately show ?thesis unfolding same events distinct_append by auto
    qed
    show "event_job ?t ` set (pending_events ?t) = Some ` (snd ` set (jobs ?t) - A)"
    proof -
      have "set (map (event_job s) (pending_events ?t)) = Some ` (snd ` set (jobs s) - A)"
        using x unfolding events jobs_split by (simp add: exits_but_def image_Un image_image)
      then show ?thesis unfolding same by (simp add: image_Un)
    qed
    show "A \<subseteq> snd ` set (jobs ?t)" using A by (auto simp: running_jobs_def)
    show "\<forall>i \<in> A. awaited ?t i"
    proof
      fix i assume i: "i \<in> A"
      then obtain k where k: "heap s i = Some k" "jb_state k = Running" "i \<in> snd ` set (jobs s)" using A unfolding running_jobs_def by blast
      then have "heap ?t i = Some (k\<lparr>jb_unload_requested := True\<rparr>)" "jb_started_at k \<noteq> None"
        using j by (auto simp: stop_heap_def stop_job_def)
      moreover have "process_callbacks s (jb_pid k) = Some (OnProcessExit i)" "jb_pid k \<in> watch_pids s"
        using a i k(1) by auto
      ultimately show "awaited ?t i" using k(2) by (simp add: awaited_def)
    qed
  qed (use assms in simp_all)
qed

lemma stopped_turns:
  assumes "mgr_ok s" and "exits_but A s exits" and A: "A \<subseteq> running_jobs s"
  shows "2 * card A + drain_turns (stopped s h ch exits) \<le> 2 * length (jobs s) + 1"
proof -
  note queue = stop_events [OF assms(1)]
  have "sum_list (map turns (stop_queue (jobs s) (heap s))) = sum_list (map (\<lambda>_. 1) (stop_queue (jobs s) (heap s)))"
    using queue(2) by (intro arg_cong [where f = sum_list] map_cong) fastforce+
  then have q: "sum_list (map turns (stop_queue (jobs s) (heap s))) = length (filter (\<lambda>p. snd p \<notin> running_jobs s) (jobs s))"
    using arg_cong [OF queue(1), where f = length] by (simp add: sum_list_triv)
  have "turns e \<le> 2" for e by (cases e) simp_all
  then have "sum_list (map turns exits) \<le> sum_list (map (\<lambda>_. 2) exits)" by (intro sum_list_mono)
  then have x: "sum_list (map turns exits) \<le> 2 * length exits" by (simp add: sum_list_triv)
  have r: "running_jobs s = snd ` set (filter (\<lambda>p. snd p \<in> running_jobs s) (jobs s))" by (auto simp: running_jobs_def)
  then have f: "finite (running_jobs s)" by (metis List.finite_set finite_imageI)
  have c: "card (running_jobs s) \<le> length (filter (\<lambda>p. snd p \<in> running_jobs s) (jobs s))"
    using r by (metis card_length length_map set_map)
  have "distinct (map (event_job s) exits)" and e: "set (map (event_job s) exits) = Some ` (running_jobs s - A)"
    using assms(2) by (simp_all add: exits_but_def)
  from distinct_card [OF this(1)] have "length exits = card (running_jobs s - A)" unfolding e by (simp add: card_image)
  then have "length exits + card A = card (running_jobs s)"
    using f A by (simp add: card_Diff_subset finite_subset card_mono)
  then show ?thesis
    using q x c sum_length_filter_compl [of "\<lambda>p. snd p \<in> running_jobs s" "jobs s"] by (simp add: drain_turns_def)
qed

text \<open>
  C12: a request to stop is carried out: a running manager whose jobs can be unloaded accepts it, and
  once the kernel has reported the exit of every running job's process, in whatever order, the main
  loop deletes every job and returns.
\<close>

theorem graceful_stop_completes:
  assumes "mgr_ok s" and "mstate s = MgrRunning" and "child_status s = []" and "pending_events s = []"
    and "ipc_callbacks s ''delete_job'' = Some OnDeleteJob" and "overrides_readable pf s"
    and "\<forall>i \<in> snd ` set (jobs s). \<exists>j. heap s i = Some j \<and> stoppable j \<and> (jb_state j = Running \<longrightarrow> jb_started_at j \<noteq> None)"
    and "exits_of s exits" and "group_kills_end pf" and "\<forall>h. 0 \<le> fst (sys_int pf h (Proc SysClock))"
  shows "\<exists>s1 s2. stopRunning c pf s = (Inr (), s1) \<and>
    main_loop (2 * length (jobs s) + 1) c pf (s1\<lparr>pending_events := pending_events s1 @ exits\<rparr>) = (Inr (), s2) \<and>
    mstate s2 = Finished \<and> jobs s2 = []"
proof -
  obtain h ch where s1: "stopRunning c pf s = (Inr (), stopped s h ch [])"
    using stop_request [OF assms(1,2,6), of c] assms(4,7) by fastforce
  have "mgr_ok (stopped s h ch [])" using preservesE [OF daemon_ok(2) s1 assms(1)] .
  then have "mgr_ok (stopped s h ch exits)" by (simp add: mgr_ok_def view_def)
  then have drain: "draining (stopped s h ch exits)"
    using stopped_draining [OF assms(1,3,5,7,8)] by blast
  obtain s2 where "main_loop (2 * length (jobs s) + 1) c pf (stopped s h ch exits) = (Inr (), s2)" "mstate s2 = Finished" "jobs s2 = []"
    using drains [OF drain assms(9,10), of "2 * length (jobs s) + 1" c] stopped_turns [OF assms(1,8), where h = h and ch = ch] by auto
  then show ?thesis using s1 by auto
qed

definition stop_mgr :: mgr where
  "stop_mgr = blank_mgr\<lparr>mstate := MgrRunning, next_id := 2, jobs := [(''a'', 0), (''b'', 1)],
     heap := [0 \<mapsto> running_job, 1 \<mapsto> (mk_job None (daemon_manifest\<lparr>label := ''b''\<rparr>))\<lparr>jb_state := Exited\<rparr>],
     process_callbacks := [77 \<mapsto> OnProcessExit 0], ipc_callbacks := [''delete_job'' \<mapsto> OnDeleteJob],
     child_status := [], pending_events := [], sf_current := default_state_doc\<rparr>"

theorem graceful_stop_completes_witness:
  "\<exists>s1 s2. stopRunning sample_config null_platform stop_mgr = (Inr (), s1) \<and>
     main_loop 5 sample_config null_platform (s1\<lparr>pending_events := pending_events s1 @ [ProcEvent 77 0]\<rparr>) = (Inr (), s2) \<and>
     mstate s2 = Finished \<and> jobs s2 = []"
proof -
  have ok: "mgr_ok stop_mgr"
    by (auto simp: mgr_ok_def view_def own_ok_def stop_mgr_def running_job_def mk_job_def
        daemon_manifest_def default_manifest_def fun_upd_def split: if_splits)
  have exits: "exits_of stop_mgr [ProcEvent 77 0]"
    by (auto simp: exits_but_def running_jobs_def stop_mgr_def running_job_def mk_job_def wait_status_defs)
  have jobs: "\<forall>i \<in> snd ` set (jobs stop_mgr). \<exists>j. heap stop_mgr i = Some j \<and> stoppable j \<and> (jb_state j = Running \<longrightarrow> jb_started_at j \<noteq> None)"
    by (simp add: stop_mgr_def running_job_def mk_job_def stoppable_def)
  have "overrides_readable null_platform stop_mgr"
    using no_override by (simp add: overrides_readable_def stop_mgr_def)
  moreover have "2 * length (jobs stop_mgr) + 1 = 5" by (simp add: stop_mgr_def)
  ultimately show ?thesis
    using graceful_stop_completes [OF ok _ _ _ _ _ jobs exits null_group_kills_end, of sample_config]
    by (simp only:) (simp add: stop_mgr_def null_platform_def)
qed

end
