(* ===== verification/Starting.thy ===== *)
theory Starting
  imports Shutdown Registry
begin

text \<open>
  Starting the queued jobs: on a system that grants what the daemon asks for, every queued job is
  loaded, and runs, waits for its timer or stays loaded as its manifest and the state file say. And what
  becomes of a job whose fork fails.
\<close>

section \<open>Computations that only make calls\<close>

named_theorems yields_rules \<open>rules that decompose yields goals\<close>

text \<open>\<open>yields Q m\<close>: \<open>m\<close> returns a value in \<open>Q\<close> and changes nothing but the trace, which grows.\<close>

definition yields :: "('b \<Rightarrow> bool) \<Rightarrow> ('a os_state_scheme, 'b) M \<Rightarrow> bool" where
  "yields Q m \<longleftrightarrow> (\<forall>s. \<exists>x h. m s = (Inr x, s\<lparr>trace := h @ trace s\<rparr>) \<and> Q x)"

lemma yieldsE:
  assumes "yields Q m" obtains x h where "m s = (Inr x, s\<lparr>trace := h @ trace s\<rparr>)" and "Q x"
  using assms unfolding yields_def by blast

lemma yields_returnM [yields_rules]: "Q x \<Longrightarrow> yields Q (returnM x)"
  by (auto simp: yields_def returnM_def intro: exI [of _ "[]"])

lemma yields_sysM [yields_rules]: "(\<And>h. Q (f h)) \<Longrightarrow> yields Q (sysM c f)"
  by (auto simp: yields_def sysM_apply intro: exI [of _ "[c]"])

lemma yields_callM [yields_rules]: "(\<And>h. Q (sys_int pf h c)) \<Longrightarrow> yields Q (callM pf c)"
  unfolding callM_def by (rule yields_sysM)

lemma yields_bindM:
  assumes "yields R m" and f: "\<And>x. R x \<Longrightarrow> yields Q (f x)"
  shows "yields Q (bindM m f)"
  unfolding yields_def
proof
  fix s
  obtain x h where x: "m s = (Inr x, s\<lparr>trace := h @ trace s\<rparr>)" "R x" using assms(1) by (rule yieldsE)
  let ?s = "s\<lparr>trace := h @ trace s\<rparr>"
  obtain y h' where y: "f x ?s = (Inr y, ?s\<lparr>trace := h' @ trace ?s\<rparr>)" "Q y"
    using f [OF x(2)] by (rule yieldsE)
  have "bindM m f s = (Inr y, s\<lparr>trace := (h' @ h) @ trace s\<rparr>)"
    using y(1) by (simp add: bindM_apply x(1))
  then show "\<exists>y h. bindM m f s = (Inr y, s\<lparr>trace := h @ trace s\<rparr>) \<and> Q y"
    using y(2) by blast
qed

lemma yields_bindM_any [yields_rules]: "yields (\<lambda>_. True) m \<Longrightarrow> (\<And>x. yields Q (f x)) \<Longrightarrow> yields Q (bindM m f)"
  by (rule yields_bindM)

lemma yields_thenM [yields_rules]: "yields (\<lambda>_. True) m \<Longrightarrow> yields Q n \<Longrightarrow> yields Q (thenM m n)"
  unfolding thenM_def by (rule yields_bindM_any)

lemma yields_prod [yields_rules]: "(\<And>a b. yields Q (f a b)) \<Longrightarrow> yields Q (case x of (a, b) \<Rightarrow> f a b)"
  by (simp split: prod.split)

lemma yields_option [yields_rules]:
  "(x = None \<Longrightarrow> yields Q m) \<Longrightarrow> (\<And>y. x = Some y \<Longrightarrow> yields Q (f y)) \<Longrightarrow> yields Q (case x of None \<Rightarrow> m | Some y \<Rightarrow> f y)"
  by (simp split: option.split)

lemma yields_if [yields_rules]: "yields Q m \<Longrightarrow> yields Q n \<Longrightarrow> yields Q (if b then m else n)"
  by simp

lemma yields_foldM [yields_rules]: "(\<And>b x. yields (\<lambda>_. True) (f b x)) \<Longrightarrow> yields (\<lambda>_. True) (foldM f b xs)"
  by (induction xs arbitrary: b) (auto intro: yields_rules)

lemma yields_getenv [yields_rules]: "yields (\<lambda>_. True) (getenv pf k)"
  unfolding getenv_def by (intro yields_rules TrueI)

lemma yields_getuid [yields_rules]: "yields (\<lambda>_. True) (getuid pf)"
  unfolding getuid_def by (intro yields_rules TrueI)

section \<open>A system that grants what it is asked for\<close>

text \<open>The processes that were forked in a history.\<close>

primrec forked :: "platform \<Rightarrow> syscall list \<Rightarrow> int set" where
  "forked pf [] = {}"
| "forked pf (c # h) = (if c = Proc SysFork then insert (fst (sys_int pf h c)) (forked pf h) else forked pf h)"

lemma forked_mono: "forked pf h \<subseteq> forked pf (k @ h)"
  by (induction k) auto

text \<open>The clock and pipes are granted.\<close>

definition opens :: "platform \<Rightarrow> bool" where
  "opens pf \<longleftrightarrow> (\<forall>h. 0 \<le> fst (sys_int pf h (Proc SysClock)) \<and> fst (sys_int pf h (Proc SysPipe)) = 0 \<and>
     0 \<le> snd (sys_pipe_fds pf h) \<and> (\<forall>fd. fst (sys_int pf h (Proc (SysFcntlCloexec fd))) = 0))"

text \<open>
  Processes and timers are granted, too: a fork answers in the daemon, with an identifier that it never
  gave before; the program of a child is executed, so that the pipe ends without a status.
\<close>

definition grants :: "platform \<Rightarrow> bool" where
  "grants pf \<longleftrightarrow> opens pf \<and> (\<forall>h.
     0 < fst (sys_int pf h (Proc SysFork)) \<and> fst (sys_int pf h (Proc SysFork)) \<notin> forked pf h \<and>
     (\<forall>fd. fst (sys_int pf h (Proc (SysReadStatus fd))) = 0) \<and>
     (\<forall>p. fst (sys_int pf h (Proc (SysKill p 0))) = 0) \<and>
     0 \<le> fst (sys_int pf h (Evt SysTimerfdCreate)) \<and>
     (\<forall>fd a b. 0 \<le> fst (sys_int pf h (Evt (SysTimerfdSettime fd a b)))) \<and>
     (\<forall>ep fd p. 0 \<le> fst (sys_int pf h (Evt (SysEpollAdd ep fd p)))))"

text \<open>The accounts a manifest names exist.\<close>

definition accounts_known :: "platform \<Rightarrow> manifest \<Rightarrow> bool" where
  "accounts_known pf m \<longleftrightarrow> (\<forall>u h. user_name m = Some u \<longrightarrow> sys_passwd pf h (Acct (SysGetpwnam u)) \<noteq> None) \<and>
     (\<forall>g h. group_name m = Some g \<longrightarrow> sys_group pf h (Acct (SysGetgrnam g)) \<noteq> None)"

lemma yields_accounts:
  assumes "accounts_known pf m"
  shows "yields (\<lambda>a. (user_name m \<noteq> None \<longrightarrow> snd a \<noteq> None) \<and> (group_name m \<noteq> None \<longrightarrow> fst a \<noteq> None)) (look_up_accounts pf m)"
  unfolding look_up_accounts_def
proof (rule yields_bindM [where R = "\<lambda>g. group_name m \<noteq> None \<longrightarrow> g \<noteq> None"])
  show "yields (\<lambda>g. group_name m \<noteq> None \<longrightarrow> g \<noteq> None)
      (case group_name m of None \<Rightarrow> bindM (callM pf (Acct SysGetgid)) (\<lambda>(gid, _).
         sysM (Acct (SysGetgrgid gid)) (\<lambda>h. sys_group pf h (Acct (SysGetgrgid gid))))
       | Some g \<Rightarrow> sysM (Acct (SysGetgrnam g)) (\<lambda>h. sys_group pf h (Acct (SysGetgrnam g))))"
    using assms by (intro yields_rules) (auto simp: accounts_known_def)
  fix g :: "int option" assume g: "group_name m \<noteq> None \<longrightarrow> g \<noteq> None"
  show "yields (\<lambda>a. (user_name m \<noteq> None \<longrightarrow> snd a \<noteq> None) \<and> (group_name m \<noteq> None \<longrightarrow> fst a \<noteq> None))
      (bindM (case user_name m of None \<Rightarrow> bindM (getuid pf) (\<lambda>uid.
           sysM (Acct (SysGetpwuid uid)) (\<lambda>h. sys_passwd pf h (Acct (SysGetpwuid uid))))
         | Some u \<Rightarrow> sysM (Acct (SysGetpwnam u)) (\<lambda>h. sys_passwd pf h (Acct (SysGetpwnam u))))
       (\<lambda>pwent. returnM (g, pwent)))"
    using assms g
    by (intro yields_bindM [where R = "\<lambda>p. user_name m \<noteq> None \<longrightarrow> p \<noteq> None"] yields_rules)
      (auto simp: accounts_known_def)
qed

lemma yields_getJ [yields_rules]: "yields (\<lambda>_. True) (getJ f)"
  by (auto simp: yields_def getJ_apply intro: exI [of _ "[]"])

lemma yields_environment [yields_rules]: "yields (\<lambda>_. True) (setup_environment_variables pf p)"
  unfolding setup_environment_variables_def add_standard_environment_variables_def Let_def
  by (intro yields_rules TrueI)

lemma yields_ids:
  "(user_name m \<noteq> None \<longrightarrow> p \<noteq> None) \<and> (group_name m \<noteq> None \<longrightarrow> g \<noteq> None) \<Longrightarrow> yields (\<lambda>_. True) (run_ids m p g)"
  unfolding run_ids_def by (auto intro!: yields_rules split: option.split)

section \<open>One job\<close>

lemma grantsD:
  assumes "grants pf"
  shows "opens pf" "0 < fst (sys_int pf h (Proc SysFork))" "fst (sys_int pf h (Proc SysFork)) \<notin> forked pf h"
    "fst (sys_int pf h (Proc (SysReadStatus fd))) = 0" "fst (sys_int pf h (Proc (SysKill p 0))) = 0"
    "0 \<le> fst (sys_int pf h (Evt SysTimerfdCreate))" "0 \<le> fst (sys_int pf h (Evt (SysTimerfdSettime fd a b)))"
    "0 \<le> fst (sys_int pf h (Evt (SysEpollAdd ep fd q)))"
  using assms unfolding grants_def by simp_all

lemma clock_granted: "opens pf \<Longrightarrow> current_time pf s =
    (Inr (fst (sys_int pf (trace s) (Proc SysClock))), s\<lparr>trace := Proc SysClock # trace s\<rparr>)"
  by (auto simp: opens_def current_time_def monad_simps split_beta linorder_not_less)

lemma pipe_granted:
  assumes "opens pf"
  shows "\<exists>fds h. createPipe pf (- 1, - 1) s = (Inr fds, s\<lparr>trace := h @ trace s\<rparr>) \<and> 0 \<le> snd fds"
proof -
  let ?f = "sys_pipe_fds pf (trace s)"
  have "createPipe pf (- 1, - 1) s = (Inr ?f,
      s\<lparr>trace := [Proc (SysFcntlCloexec (snd ?f)), Proc (SysFcntlCloexec (fst ?f)), Proc SysPipe] @ trace s\<rparr>)"
    using assms by (simp add: opens_def createPipe_def monad_simps split_beta)
  then show ?thesis using assms unfolding opens_def by blast
qed

text \<open>What \<open>run\<close> does before the fork.\<close>

lemma run_prepared:
  assumes acc: "accounts_known pf (jb_manifest (this x))"
  shows "\<exists>ctx h. job_run pf cleanup x = run_fork pf cleanup ctx (x\<lparr>trace := h @ trace x\<rparr>)"
proof -
  let ?m = "jb_manifest (this x)"
  obtain a h1 where a: "look_up_accounts pf ?m x = (Inr a, x\<lparr>trace := h1 @ trace x\<rparr>)"
    "(user_name ?m \<noteq> None \<longrightarrow> snd a \<noteq> None) \<and> (group_name ?m \<noteq> None \<longrightarrow> fst a \<noteq> None)"
    using yields_accounts [OF acc] by (rule yieldsE)
  let ?x1 = "x\<lparr>trace := h1 @ trace x\<rparr>"
  obtain ids h2 where ids: "run_ids ?m (snd a) (fst a) ?x1 = (Inr ids, ?x1\<lparr>trace := h2 @ trace ?x1\<rparr>)"
    using yields_ids [OF a(2)] by (rule yieldsE)
  let ?x2 = "?x1\<lparr>trace := h2 @ trace ?x1\<rparr>"
  obtain env h3 where env: "setup_environment_variables pf (snd a) ?x2 = (Inr env, ?x2\<lparr>trace := h3 @ trace ?x2\<rparr>)"
    using yields_environment by (rule yieldsE)
  have "job_run pf cleanup x = run_fork pf cleanup \<lparr>ctx_gid = fst ids, ctx_uid = snd ids, ctx_environ = env\<rparr>
      (x\<lparr>trace := (h3 @ h2 @ h1) @ trace x\<rparr>)"
    using a(1) ids env by (simp add: job_run_def monad_simps split_beta)
  then show ?thesis by blast
qed

lemma parent_granted:
  assumes g: "grants pf" and "0 \<le> snd fds"
  shows "\<exists>k t g. run_parent pf fds p y =
    (Inr True, y\<lparr>trace := k @ trace y, this := (this y)\<lparr>jb_started_at := t, jb_pgid := g\<rparr>\<rparr>)"
proof -
  let ?k = "[Proc (SysReadStatus (fst fds)), Proc (SysClose (snd fds)), Proc SysClock]"
  let ?l = "(if 0 < fst fds then [Proc (SysClose (fst fds))] else []) @ Proc (SysGetpgid p) # ?k"
  let ?t = "Some (fst (sys_int pf (trace y) (Proc SysClock)))"
  let ?g = "fst (sys_int pf (?k @ trace y) (Proc (SysGetpgid p)))"
  have "run_parent pf fds p y =
    (Inr True, y\<lparr>trace := ?l @ trace y, this := (this y)\<lparr>jb_started_at := ?t, jb_pgid := ?g\<rparr>\<rparr>)"
    using assms(2) grantsD(4) [OF g]
    by (simp add: run_parent_def becomeParent_def readStatus_def close_end_def destroy_monitor_def
        clock_granted [OF grantsD(1) [OF g]] monad_simps Let_def split_beta)
  then show ?thesis by blast
qed

lemma fork_granted:
  assumes g: "grants pf"
  shows "\<exists>h t pg p. run_fork pf cleanup ctx x =
      (Inr True, x\<lparr>trace := h @ trace x, this := (this x)\<lparr>jb_started_at := t, jb_pid := p, jb_pgid := pg\<rparr>\<rparr>) \<and>
    0 < p \<and> p \<in> forked pf (h @ trace x) - forked pf (trace x)"
proof -
  obtain fds k0 where pipe: "createPipe pf (- 1, - 1) x = (Inr fds, x\<lparr>trace := k0 @ trace x\<rparr>)" "0 \<le> snd fds"
    using pipe_granted [OF grantsD(1) [OF g], of x] by blast
  let ?h = "k0 @ trace x"
  define p where "p = fst (sys_int pf ?h (Proc SysFork))"
  have p: "0 < p" "p \<notin> forked pf ?h" using grantsD(2,3) [OF g, of ?h] unfolding p_def by blast+
  let ?y = "x\<lparr>trace := Proc SysFork # ?h, this := (this x)\<lparr>jb_pid := p\<rparr>\<rparr>"
  from parent_granted [OF g pipe(2), of p ?y] obtain k t pg where
    y: "run_parent pf fds p ?y = (Inr True, ?y\<lparr>trace := k @ trace ?y, this := (this ?y)\<lparr>jb_started_at := t, jb_pgid := pg\<rparr>\<rparr>)"
    by blast
  let ?k = "k @ Proc SysFork # k0"
  have "run_fork pf cleanup ctx x =
      (Inr True, x\<lparr>trace := ?k @ trace x, this := (this x)\<lparr>jb_started_at := t, jb_pid := p, jb_pgid := pg\<rparr>\<rparr>)"
    using pipe(1) p(1) y by (simp add: run_fork_def monad_simps split_beta p_def [symmetric])
  moreover have "p \<in> forked pf (?k @ trace x)" "p \<notin> forked pf (trace x)"
    using forked_mono [of pf "Proc SysFork # ?h" k] p(2) forked_mono [of pf "trace x" k0] by (auto simp: p_def)
  ultimately show ?thesis using p(1) by (intro exI [of _ ?k] exI [of _ t] exI [of _ pg] exI [of _ p]) simp
qed

lemma start_granted:
  assumes g: "grants pf" and acc: "accounts_known pf (jb_manifest (this x))"
    and old: "dom (process_callbacks x) \<subseteq> forked pf (trace x)"
  shows "\<exists>h t p pg. job_startJob pf x =
      (Inr (), x\<lparr>trace := h @ trace x, this := (this x)\<lparr>jb_started_at := t, jb_pid := p, jb_pgid := pg\<rparr>,
        watch_pids := insert p (watch_pids x),
        process_callbacks := (process_callbacks x)(p \<mapsto> OnProcessExit (this_id x))\<rparr>) \<and>
    0 < p \<and> process_callbacks x p = None \<and> p \<in> forked pf (h @ trace x)"
proof -
  let ?t = "Some (fst (sys_int pf (trace x) (Proc SysClock)))"
  let ?x0 = "x\<lparr>trace := Proc SysClock # trace x, this := (this x)\<lparr>jb_started_at := ?t\<rparr>\<rparr>"
  have "accounts_known pf (jb_manifest (this ?x0))" using acc by simp
  from run_prepared [OF this, of "handleFork pf"] obtain ctx h1 where
    r: "job_run pf (handleFork pf) ?x0 = run_fork pf (handleFork pf) ctx (?x0\<lparr>trace := h1 @ trace ?x0\<rparr>)" by blast
  let ?x1 = "?x0\<lparr>trace := h1 @ trace ?x0\<rparr>"
  obtain h2 t pg p where f: "run_fork pf (handleFork pf) ctx ?x1 =
      (Inr True, ?x1\<lparr>trace := h2 @ trace ?x1, this := (this ?x1)\<lparr>jb_started_at := t, jb_pid := p, jb_pgid := pg\<rparr>\<rparr>)"
    "0 < p" "p \<in> forked pf (h2 @ trace ?x1) - forked pf (trace ?x1)"
    using fork_granted [OF g] by blast
  have "p \<notin> forked pf (trace x)"
    using f(3) forked_mono [of pf "trace x" "h1 @ [Proc SysClock]"] by auto
  then have n: "process_callbacks x p = None" using old by blast
  let ?h = "Proc (SysKill p 0) # h2 @ h1 @ [Proc SysClock]"
  have "job_startJob pf x = (Inr (), x\<lparr>trace := ?h @ trace x,
      this := (this x)\<lparr>jb_started_at := t, jb_pid := p, jb_pgid := pg\<rparr>, watch_pids := insert p (watch_pids x),
      process_callbacks := (process_callbacks x)(p \<mapsto> OnProcessExit (this_id x))\<rparr>)"
    using r f(1) n grantsD(5) [OF g]
    by (simp add: job_startJob_def clock_granted [OF grantsD(1) [OF g]] addProcess_def monitorChildProcess_def monad_simps
        split_beta map_insert_fresh)
  moreover have "p \<in> forked pf (?h @ trace x)" using f(3) by simp
  ultimately show ?thesis using f(2) n by blast
qed

text \<open>
  \<open>room n\<close>: every process with a callback was forked by the daemon, and there are identifiers for \<open>n\<close> more
  timers.
\<close>

definition room :: "platform \<Rightarrow> nat \<Rightarrow> 'a em_state_scheme \<Rightarrow> bool" where
  "room pf n s \<longleftrightarrow> dom (process_callbacks s) \<subseteq> forked pf (trace s) \<and>
     (\<forall>k \<in> fst ` set (timer_callbacks s). k \<le> timer_id_max s) \<and> timer_id_max s + int n \<le> INT_MAX"

lemma schedule_granted:
  assumes g: "grants pf" and "room pf (Suc n) x" and "jb_timer_id (this x) = None"
    and "start_interval (jb_manifest (this x)) = Some ms"
  shows "\<exists>y. schedulePeriodicJob pf x = (Inr (), y) \<and> this y = (this x)\<lparr>jb_timer_id := Some (timer_id_max x + 1)\<rparr> \<and>
    this_id y = this_id x \<and> sf_current y = sf_current x \<and> process_callbacks y = process_callbacks x \<and>
    timer_callbacks y = timer_callbacks x @ [(timer_id_max x + 1, OnPeriodicTimer (this_id x))] \<and>
    timer_id_max y = timer_id_max x + 1 \<and> forked pf (trace y) = forked pf (trace x)"
proof -
  have "timer_id_max x + 1 \<notin> fst ` set (timer_callbacks x)" using assms(2) by (force simp: room_def)
  then have n: "next_timer_id (timer_callbacks x) (timer_id_max x) = timer_id_max x + 1"
    and f: "map_of (timer_callbacks x) (timer_id_max x + 1) = None"
    by (simp_all add: next_timer_id.simps map_of_eq_None_iff)
  have "timer_id_max x + 1 \<le> INT_MAX" using assms(2) by (simp add: room_def)
  then show ?thesis
    using assms(3,4) n f grantsD(6,7,8) [OF g]
    by (simp add: schedulePeriodicJob_def opt_value_def em_timer_defs monad_simps split_beta sys_error_def alist_insert_fresh
        linorder_not_less [symmetric])
qed

text \<open>The state in which a job of the manifest \<open>m\<close> is after its \<open>Bootstrap\<close>; \<open>r\<close> is its override.\<close>

definition boot_state :: "manifest \<Rightarrow> bool option \<Rightarrow> job_state" where
  "boot_state m r =
     (if switched_off m r then Loaded
      else if run_at_load m \<or> keep_alive_always m then Running
      else if start_interval m \<noteq> None then Waiting else Loaded)"

lemma boot_state_range: "boot_state m r \<in> {Running, Waiting, Loaded}"
  by (simp add: boot_state_def)

text \<open>The daemon will hear of the exit of the job \<open>i\<close>, and of its timer.\<close>

definition heard :: "nat \<Rightarrow> 'a em_state_scheme \<Rightarrow> job \<Rightarrow> bool" where
  "heard i s j \<longleftrightarrow>
     (jb_state j = Running \<longrightarrow> 0 < jb_pid j \<and> process_callbacks s (jb_pid j) = Some (OnProcessExit i)) \<and>
     (jb_state j = Waiting \<longrightarrow> (\<exists>t. jb_timer_id j = Some t \<and> map_of (timer_callbacks s) t = Some (OnPeriodicTimer i)))"

text \<open>What starting one job does to what the jobs share.\<close>

definition grows :: "'a em_state_scheme \<Rightarrow> 'b em_state_scheme \<Rightarrow> bool" where
  "grows s t \<longleftrightarrow> process_callbacks s \<subseteq>\<^sub>m process_callbacks t \<and>
     map_of (timer_callbacks s) \<subseteq>\<^sub>m map_of (timer_callbacks t) \<and> sf_current t = sf_current s"

lemma grows_refl: "grows s s"
  by (simp add: grows_def)

lemma grows_trans: "grows s t \<Longrightarrow> grows t u \<Longrightarrow> grows s u"
  unfolding grows_def by (auto intro: map_le_trans)

lemma heard_grows: "heard i s j \<Longrightarrow> grows s t \<Longrightarrow> heard i t j"
  unfolding heard_def grows_def map_le_def by (metis domI)

lemma bootstrap_granted:
  assumes g: "grants pf" and acc: "accounts_known pf (jb_manifest (this x))" and room: "room pf (Suc n) x"
    and j: "jb_state (this x) = Loaded" "jb_timer_id (this x) = None"
    and ov: "override_enabled (jlib pf) (sf_current x) (label (jb_manifest (this x))) = Inr r"
  shows "\<exists>c y. job_execute pf Bootstrap x = (Inr c, y) \<and> jb_state (this y) = boot_state (jb_manifest (this x)) r \<and>
    jb_manifest (this y) = jb_manifest (this x) \<and> heard (this_id x) y (this y) \<and> grows x y \<and> room pf n y"
proof -
  let ?m = "jb_manifest (this x)"
  have st: "get_job_state x = Loaded" using j by (simp add: get_job_state_def)
  note boot = execute_bootstrap [OF st, of pf]
  have run: "guard_bootstrap_run pf x = (Inr (\<not> switched_off ?m r \<and> (run_at_load ?m \<or> keep_alive_always ?m)), x)"
    using isDisabled_eq [OF ov] by (simp add: guard_bootstrap_run_def monad_simps)
  have wait: "guard_bootstrap_wait pf x = (Inr (\<not> switched_off ?m r \<and> start_interval ?m \<noteq> None \<and> \<not> run_at_load ?m), x)"
    using isDisabled_eq [OF ov] by (simp add: guard_bootstrap_wait_def monad_simps)
  have less: "room pf n x" using room by (simp add: room_def)
  consider (run) "boot_state ?m r = Running" | (wait) "boot_state ?m r = Waiting" | (idle) "boot_state ?m r = Loaded"
    using boot_state_range by blast
  then show ?thesis
  proof cases
    case run
    have old: "dom (process_callbacks x) \<subseteq> forked pf (trace x)" using room by (simp add: room_def)
    obtain h t p pg where s: "job_startJob pf x =
        (Inr (), x\<lparr>trace := h @ trace x, this := (this x)\<lparr>jb_started_at := t, jb_pid := p, jb_pgid := pg\<rparr>,
          watch_pids := insert p (watch_pids x), process_callbacks := (process_callbacks x)(p \<mapsto> OnProcessExit (this_id x))\<rparr>)"
      and p: "0 < p" "process_callbacks x p = None" "p \<in> forked pf (h @ trace x)"
      using start_granted [OF g acc old] by blast
    let ?y = "x\<lparr>trace := h @ trace x, this := (this x)\<lparr>jb_started_at := t, jb_pid := p, jb_pgid := pg, jb_state := Running\<rparr>,
          watch_pids := insert p (watch_pids x), process_callbacks := (process_callbacks x)(p \<mapsto> OnProcessExit (this_id x))\<rparr>"
    have "job_execute_n 1 pf StartRequested x = job_execute pf StartRequested x"
      using job_execute_n_unnested [of StartRequested 1 pf x 0] by (simp add: job_execute_def numeral_2_eq_2)
    also have "\<dots> = (Inr Fsm_Success, ?y)"
      using st s by (simp add: execute_start run_action_def put_job_state_def monad_simps)
    finally have "job_execute pf Bootstrap x = (Inr Fsm_Success, ?y)"
      using run \<open>guard_bootstrap_run pf x = _\<close>
      by (auto simp: boot run_action_def put_job_state_def monad_simps boot_state_def simp del: job_execute_n.simps split: if_splits)
    moreover have "room pf n ?y" "grows x ?y"
      using less p forked_mono [of pf "trace x" h] by (auto simp: room_def grows_def map_le_def)
    ultimately show ?thesis using run p by (auto simp: heard_def)
  next
    case wait
    then obtain ms where ms: "start_interval ?m = Some ms" by (auto simp: boot_state_def split: if_splits)
    obtain y where s: "schedulePeriodicJob pf x = (Inr (), y)" "this y = (this x)\<lparr>jb_timer_id := Some (timer_id_max x + 1)\<rparr>"
        "this_id y = this_id x" "sf_current y = sf_current x" "process_callbacks y = process_callbacks x"
        "timer_callbacks y = timer_callbacks x @ [(timer_id_max x + 1, OnPeriodicTimer (this_id x))]"
        "timer_id_max y = timer_id_max x + 1" "forked pf (trace y) = forked pf (trace x)"
      using schedule_granted [OF g room j(2) ms] by blast
    let ?y = "put_job_state Waiting y"
    have e: "job_execute pf Bootstrap x = (Inr Fsm_Success, ?y)"
      using wait ms s(1) run \<open>guard_bootstrap_wait pf x = _\<close>
      by (simp add: boot run_action_def monad_simps boot_state_def del: job_execute_n.simps split: if_splits)
    have n: "map_of (timer_callbacks x) (timer_id_max x + 1) = None"
      using room by (force simp: room_def map_of_eq_None_iff)
    have "room pf n ?y" "grows x ?y"
      using room n s by (auto simp: room_def grows_def map_le_def put_job_state_def map_add_def split: option.split)
    then show ?thesis
      using e wait n s by (simp add: heard_def put_job_state_def map_add_def)
  next
    case idle
    then have "job_execute pf Bootstrap x = (Inr Fsm_BlockedByGuard, x)"
      using run wait by (simp add: boot monad_simps boot_state_def del: job_execute_n.simps split: if_splits)
    then show ?thesis using idle j less by (simp add: heard_def grows_refl)
  qed
qed

section \<open>The queue\<close>

lemma room_job [simp]: "room pf n (job_in s i j) = room pf n s" "room pf n (job_out s i c) = room pf n c"
  by (simp_all add: room_def) (simp_all add: job_in_def job_out_def em_state.defs job_ctx.defs)

lemma grows_job [simp]: "grows (job_in s i j) (c :: 'a em_state_scheme) = grows s c" "grows (x :: 'a em_state_scheme) (job_out s i c') = grows x c'"
  by (simp_all add: grows_def)

lemma heard_out [simp]: "heard i (job_out s k c) j = heard i c j"
  by (simp add: heard_def)

definition fresh_job :: "platform \<Rightarrow> job \<Rightarrow> bool" where
  "fresh_job pf j \<longleftrightarrow> jb_state j = Loaded \<and> jb_timer_id j = None \<and> accounts_known pf (jb_manifest j)"

text \<open>From \<open>s\<close> to \<open>t\<close>, the job \<open>i\<close> has reached the state its manifest and its override ask for.\<close>

definition booted :: "platform \<Rightarrow> mgr \<Rightarrow> mgr \<Rightarrow> nat \<Rightarrow> bool" where
  "booted pf s t i \<longleftrightarrow> (\<exists>j j' r. heap s i = Some j \<and> heap t i = Some j' \<and> jb_manifest j' = jb_manifest j \<and>
     override_enabled (jlib pf) (sf_current s) (label (jb_manifest j)) = Inr r \<and>
     jb_state j' = boot_state (jb_manifest j) r \<and> heard i t j')"

lemma start_one:
  assumes g: "grants pf" and j: "heap s i = Some j" "fresh_job pf j" and room: "room pf (Suc n) s"
    and free: "map_of (jobs s) l = None" and ov: "overrides_readable pf s"
  shows "\<exists>t. start_pending pf (l, Some i) s = (Inr (), t) \<and> jobs t = jobs s @ [(l, i)] \<and>
    pending_jobs t = AList.update l None (pending_jobs s) \<and> (\<forall>k. k \<noteq> i \<longrightarrow> heap t k = heap s k) \<and>
    booted pf s t i \<and> grows s t \<and> room pf n t"
proof -
  let ?s = "s\<lparr>jobs := jobs s @ [(l, i)], pending_jobs := AList.update l None (pending_jobs s)\<rparr>"
  let ?x = "job_in ?s i j"
  obtain r where r: "override_enabled (jlib pf) (sf_current s) (label (jb_manifest j)) = Inr r"
    using ov by (auto simp: overrides_readable_def)
  have "room pf (Suc n) ?s" using room by (simp add: room_def)
  then have same: "grows s = (grows ?s :: job_ctx \<Rightarrow> bool)" "room pf (Suc n) ?x" "sf_current ?x = sf_current s"
    by (simp_all add: grows_def fun_eq_iff)
  obtain c y where y: "job_execute pf Bootstrap ?x = (Inr c, y)" "jb_state (this y) = boot_state (jb_manifest j) r"
      "jb_manifest (this y) = jb_manifest j" "heard i y (this y)" "grows ?x y" "room pf n y"
    using bootstrap_granted [OF g _ same(2), of r] j(2) r same(3) by (auto simp: fresh_job_def)
  have "with_job i (job_execute pf Bootstrap) ?s = (Inr c, job_out ?s i y)"
    using j(1) y(1) by (simp add: with_job_apply)
  then have "start_pending pf (l, Some i) s = (Inr (), job_out ?s i y)"
    using free by (simp add: start_pending_def monad_simps)
  then show ?thesis
    using j(1) r y same by (auto simp: booted_def)
qed

lemma booted_grows:
  assumes "booted pf s t i" and "grows t u" and "heap u i = heap t i"
  shows "booted pf s u i"
  using assms heard_grows unfolding booted_def by metis

lemma start_queue:
  assumes g: "grants pf"
  shows "distinct (map fst q) \<Longrightarrow> distinct (map snd q) \<Longrightarrow> \<forall>x \<in> set q. map_of (jobs s) (fst x) = None \<Longrightarrow>
    \<forall>x \<in> set q. \<exists>j. heap s (snd x) = Some j \<and> fresh_job pf j \<Longrightarrow> room pf (length q) s \<Longrightarrow> overrides_readable pf s \<Longrightarrow>
    \<exists>t. forM (map (\<lambda>x. (fst x, Some (snd x))) q) (start_pending pf) s = (Inr (), t) \<and> jobs t = jobs s @ q \<and>
      pending_jobs t = fold (\<lambda>x. AList.update (fst x) None) q (pending_jobs s) \<and>
      (\<forall>k. k \<notin> snd ` set q \<longrightarrow> heap t k = heap s k) \<and> (\<forall>x \<in> set q. booted pf s t (snd x)) \<and> grows s t"
proof (induction q arbitrary: s)
  case Nil
  then show ?case by (simp add: monad_simps grows_refl)
next
  case (Cons x q)
  obtain j where j: "heap s (snd x) = Some j" "fresh_job pf j" using Cons.prems(4) by auto
  obtain t where t: "start_pending pf (fst x, Some (snd x)) s = (Inr (), t)" "jobs t = jobs s @ [x]"
      "pending_jobs t = AList.update (fst x) None (pending_jobs s)" "\<forall>k. k \<noteq> snd x \<longrightarrow> heap t k = heap s k"
      "booted pf s t (snd x)" "grows s t" "room pf (length q) t"
    using start_one [OF g j, of "length q" "fst x"] Cons.prems by auto
  have o: "overrides_readable pf t" using t(6) Cons.prems(6) by (simp add: overrides_readable_def grows_def)
  have free: "\<forall>y \<in> set q. map_of (jobs t) (fst y) = None"
    using Cons.prems(1,3) t(2) by (auto simp: map_add_def image_iff split: option.split)
  have fresh: "\<forall>y \<in> set q. heap t (snd y) = heap s (snd y)"
    using Cons.prems(2) t(4) by (auto simp: image_iff)
  have "\<forall>y \<in> set q. \<exists>j. heap t (snd y) = Some j \<and> fresh_job pf j" using fresh Cons.prems(4) by auto
  then obtain u where u: "forM (map (\<lambda>x. (fst x, Some (snd x))) q) (start_pending pf) t = (Inr (), u)" "jobs u = jobs t @ q"
      "pending_jobs u = fold (\<lambda>x. AList.update (fst x) None) q (pending_jobs t)"
      "\<forall>k. k \<notin> snd ` set q \<longrightarrow> heap u k = heap t k" "\<forall>x \<in> set q. booted pf t u (snd x)" "grows t u"
    using Cons.IH [OF _ _ free _ t(7) o] Cons.prems(1,2) by auto
  have "snd x \<notin> snd ` set q" using Cons.prems(2) by auto
  then have "booted pf s u (snd x)" using booted_grows [OF t(5) u(6)] u(4) by simp
  moreover have "booted pf s u (snd y)" if "y \<in> set q" for y
    using u(5) that fresh t(6) by (simp add: booted_def grows_def)
  ultimately have b: "\<forall>y \<in> set (x # q). booted pf s u (snd y)" by simp
  have h: "\<forall>k. k \<notin> snd ` set (x # q) \<longrightarrow> heap u k = heap s k" using t(4) u(4) by simp
  have "forM (map (\<lambda>x. (fst x, Some (snd x))) (x # q)) (start_pending pf) s = (Inr (), u)"
    using t(1) u(1) by (simp add: monad_simps)
  then show ?case
    using t(2,3) u(2,3) b h grows_trans [OF t(6) u(6)] by (intro exI [of _ u]) simp
qed

lemma unowned: "(\<And>x. x \<in> set ps \<Longrightarrow> snd x = None) \<Longrightarrow> pend_owned ps = []"
  by (induction ps) simp_all

lemma nothing_queued:
  assumes "distinct (map fst ps)" and "\<forall>x \<in> set ps. fst x \<in> fst ` set q"
  shows "pend_owned (fold (\<lambda>x. AList.update (fst x) None) q ps) = []"
proof -
  let ?f = "\<lambda>q. fold (\<lambda>x. AList.update (fst x) None) q"
  have d: "distinct (map fst (?f q ps))" using assms(1)
    by (induction q arbitrary: ps) (simp_all add: distinct_update)
  have m: "map_of (?f q ps) l = (if l \<in> fst ` set q then Some None else map_of ps l)" for l
    by (induction q arbitrary: ps) (auto simp: update_conv')
  have "snd x = None" if "x \<in> set (?f q ps)" for x
  proof -
    have e: "map_of (?f q ps) (fst x) = Some (snd x)" using d that by (simp add: map_of_eq_Some_iff)
    show ?thesis
    proof (cases "fst x \<in> fst ` set q")
      case False
      then have "map_of ps (fst x) = Some (snd x)" using e m by simp
      then show ?thesis using False assms(2) by (auto dest: map_of_SomeD)
    qed (use e m in simp)
  qed
  then show ?thesis by (rule unowned)
qed

text \<open>
  C9: on a system that grants what is asked for, starting loads every queued job, empties the queue
  and leaves every other job alone; each queued job then runs, with a process of its own whose exit is
  reported to it, when it is enabled and has \<open>RunAtLoad\<close> or \<open>KeepAlive\<close>; waits for its own timer
  when it is enabled and has only a \<open>StartInterval\<close>; and stays loaded otherwise.
\<close>

theorem startAllJobs_starts:
  assumes "mgr_ok s" and "pending_jobs s = map (\<lambda>x. (fst x, Some (snd x))) q"
    and "\<forall>x \<in> set q. \<exists>j. heap s (snd x) = Some j \<and> fresh_job pf j"
    and "grants pf" and "overrides_readable pf s" and "room pf (length q) s"
  shows "\<exists>t. startAllJobs pf s = (Inr (), t) \<and> pending_jobs t = [] \<and> jobs t = jobs s @ q \<and>
    (\<forall>k. k \<notin> snd ` set q \<longrightarrow> heap t k = heap s k) \<and> (\<forall>x \<in> set q. booted pf s t (snd x))"
proof -
  have o: "pend_owned (pending_jobs s) = q" unfolding assms(2) by (induction q) simp_all
  have d: "distinct (map fst (pending_jobs s))" "distinct (map fst (jobs s @ q))" "distinct (map snd (jobs s @ q))"
    using assms(1) o by (simp_all add: mgr_ok_def view_def own_ok_def)
  have "set (map fst (jobs s)) \<inter> set (map fst q) = {}" using d(2) by simp
  then have free: "\<forall>x \<in> set q. map_of (jobs s) (fst x) = None"
    unfolding map_of_eq_None_iff set_map by blast
  obtain t where t: "forM (pending_jobs s) (start_pending pf) s = (Inr (), t)" "jobs t = jobs s @ q"
      "pending_jobs t = fold (\<lambda>x. AList.update (fst x) None) q (pending_jobs s)"
      "\<forall>k. k \<notin> snd ` set q \<longrightarrow> heap t k = heap s k" "\<forall>x \<in> set q. booted pf s t (snd x)"
    using start_queue [OF assms(4) _ _ free assms(3,6,5)] d(2,3) unfolding assms(2) by auto
  have "pend_owned (pending_jobs t) = []"
    unfolding t(3) by (rule nothing_queued [OF d(1)]) (simp add: assms(2))
  then have "startAllJobs pf s = (Inr (), t\<lparr>pending_jobs := []\<rparr>)"
    using t(1) by (simp add: startAllJobs_def monad_simps clear_nothing)
  moreover have "\<forall>x \<in> set q. booted pf s (t\<lparr>pending_jobs := []\<rparr>) (snd x)"
    using t(5) by (simp add: booted_def heard_def)
  ultimately show ?thesis using t(2,4) by auto
qed

text \<open>A system whose identifiers of processes grow, and a queue with a job that runs at load and a periodic one.\<close>

definition granting_platform :: platform where
  "granting_platform = null_platform\<lparr>sys_int := \<lambda>h c. (if c = Proc SysFork then 100 + int (length h) else 0, 0)\<rparr>"

lemma granting: "grants granting_platform"
proof -
  have "p < 100 + int (length h)" if "p \<in> forked granting_platform h" for p h
    using that by (induction h) (auto simp: granting_platform_def split: if_splits)
  then have "100 + int (length h) \<notin> forked granting_platform h" for h by blast
  then show ?thesis by (auto simp: grants_def opens_def) (simp_all add: granting_platform_def null_platform_def)
qed

definition queue_mgr :: mgr where
  "queue_mgr = blank_mgr\<lparr>next_id := 2, pending_jobs := [(''a'', Some 0), (''b'', Some 1)],
     heap := [0 \<mapsto> mk_job None (default_manifest\<lparr>label := ''a'', program := Some ''/p'', run_at_load := True\<rparr>),
       1 \<mapsto> mk_job None (default_manifest\<lparr>label := ''b'', program := Some ''/p'', start_interval := Some 60\<rparr>)],
     sf_current := default_state_doc\<rparr>"

theorem startAllJobs_starts_witness:
  "\<exists>t j k. startAllJobs granting_platform queue_mgr = (Inr (), t) \<and> jobs t = [(''a'', 0), (''b'', 1)] \<and>
     heap t 0 = Some j \<and> jb_state j = Running \<and> heap t 1 = Some k \<and> jb_state k = Waiting"
proof -
  let ?q = "[(''a'', 0), (''b'', 1)] :: (string \<times> nat) list"
  have ok: "mgr_ok queue_mgr"
    by (auto simp: mgr_ok_def view_def own_ok_def queue_mgr_def mk_job_def default_manifest_def fun_upd_def
        split: if_splits)
  have q: "pending_jobs queue_mgr = map (\<lambda>x. (fst x, Some (snd x))) ?q" by (simp add: queue_mgr_def)
  have fresh: "\<forall>x \<in> set ?q. \<exists>j. heap queue_mgr (snd x) = Some j \<and> fresh_job granting_platform j"
    by (simp add: queue_mgr_def mk_job_def fresh_job_def accounts_known_def default_manifest_def)
  have no: "override_enabled (jlib granting_platform) (sf_current queue_mgr) l = Inr None" for l
    using no_override [of l] by (simp add: granting_platform_def queue_mgr_def)
  then have ov: "overrides_readable granting_platform queue_mgr" by (simp add: overrides_readable_def)
  have room: "room granting_platform (length ?q) queue_mgr"
    by (simp add: room_def queue_mgr_def blank_mgr_def init_em_def em_state.defs INT_MAX_def)
  obtain t where t: "startAllJobs granting_platform queue_mgr = (Inr (), t)" "jobs t = jobs queue_mgr @ ?q"
      "\<forall>x \<in> set ?q. booted granting_platform queue_mgr t (snd x)"
    using startAllJobs_starts [OF ok q fresh granting ov room] by blast
  then show ?thesis
    using no by (auto simp: booted_def queue_mgr_def boot_state_def switched_off_def mk_job_def default_manifest_def)
qed

section \<open>A fork that fails\<close>

lemma start_unforked:
  assumes "opens pf" and "accounts_known pf (jb_manifest (this x))" and fork: "\<forall>h. fst (sys_int pf h (Proc SysFork)) = - 1"
  shows "\<exists>h t. job_startJob pf x = (Inr (), x\<lparr>trace := h, this := (this x)\<lparr>jb_started_at := t, jb_pid := - 1\<rparr>\<rparr>)"
proof -
  let ?t = "Some (fst (sys_int pf (trace x) (Proc SysClock)))"
  let ?x0 = "x\<lparr>trace := Proc SysClock # trace x, this := (this x)\<lparr>jb_started_at := ?t\<rparr>\<rparr>"
  have "accounts_known pf (jb_manifest (this ?x0))" using assms(2) by simp
  from run_prepared [OF this, of "handleFork pf"] obtain ctx k where
    r: "job_run pf (handleFork pf) ?x0 = run_fork pf (handleFork pf) ctx (?x0\<lparr>trace := k @ trace ?x0\<rparr>)" by blast
  let ?x1 = "?x0\<lparr>trace := k @ trace ?x0\<rparr>"
  obtain fds l where pipe: "createPipe pf (- 1, - 1) ?x1 = (Inr fds, ?x1\<lparr>trace := l @ trace ?x1\<rparr>)"
    using pipe_granted [OF assms(1), of ?x1] by blast
  have d: "\<exists>h. destroy_monitor pf fds y = (Inr (), y\<lparr>trace := h\<rparr>)" for y :: job_ctx
    by (cases y) (simp add: destroy_monitor_def close_end_def monad_simps)
  let ?y = "x\<lparr>trace := Proc SysFork # l @ trace ?x1, this := (this x)\<lparr>jb_started_at := ?t, jb_pid := - 1\<rparr>\<rparr>"
  obtain h where "destroy_monitor pf fds ?y = (Inr (), ?y\<lparr>trace := h\<rparr>)" using d by blast
  then have "job_startJob pf x = (Inr (), x\<lparr>trace := h, this := (this x)\<lparr>jb_started_at := ?t, jb_pid := - 1\<rparr>\<rparr>)"
    using r pipe fork by (simp add: job_startJob_def clock_granted [OF assms(1)] run_fork_def monad_simps split_beta)
  then show ?thesis by blast
qed

text \<open>
  C36: when the fork fails, the job is taken to be running all the same, with -1 as its process; the
  next request to unload it sends \<open>SIGTERM\<close> to the process -1, which is every process the daemon may
  signal, and the job stays in \<open>Running\<close>, waiting for an exit that is not registered.
\<close>

theorem failed_fork_signals_all:
  assumes "opens pf" and "accounts_known pf (jb_manifest (this x))" and "\<forall>h. fst (sys_int pf h (Proc SysFork)) = - 1"
    and "get_job_state x = Loaded" and "\<not> jb_unload_requested (this x)"
    and "override_enabled (jlib pf) (sf_current x) (label (jb_manifest (this x))) = Inr r"
  shows "\<exists>y z. job_execute pf StartRequested x = (Inr Fsm_Success, y) \<and> get_job_state y = Running \<and>
    process_callbacks y = process_callbacks x \<and> job_unloadJob pf True y = (Inr True, z) \<and>
    trace z = Proc (SysKill (- 1) SIGTERM) # trace y \<and> get_job_state z = Running \<and> pending_events z = pending_events x"
proof -
  obtain h t where s: "job_startJob pf x = (Inr (), x\<lparr>trace := h, this := (this x)\<lparr>jb_started_at := t, jb_pid := - 1\<rparr>\<rparr>)"
    using start_unforked [OF assms(1-3)] by blast
  let ?y = "x\<lparr>trace := h, this := (this x)\<lparr>jb_started_at := t, jb_pid := - 1, jb_state := Running\<rparr>\<rparr>"
  have "job_execute pf StartRequested x = (Inr Fsm_Success, ?y)"
    using s assms(4) by (simp add: execute_start run_action_def put_job_state_def monad_simps)
  moreover have "job_unloadJob pf True ?y = (Inr True, (mark_unload ?y)\<lparr>trace := Proc (SysKill (- 1) SIGTERM) # h\<rparr>)"
    using job_unloadJob_eq [of ?y pf r True] assms(5,6) by (simp add: get_job_state_def)
  ultimately show ?thesis by (simp add: get_job_state_def mark_unload_def)
qed

definition unforking_platform :: platform where
  "unforking_platform = user_platform\<lparr>sys_int := \<lambda>_ c. (if c = Proc SysFork then - 1 else 0, 0)\<rparr>"

theorem failed_fork_signals_all_witness:
  "\<exists>y z. job_execute unforking_platform StartRequested (init_ctx (running_job\<lparr>jb_state := Loaded, jb_pid := 0\<rparr>)) =
      (Inr Fsm_Success, y) \<and> job_unloadJob unforking_platform True y = (Inr True, z) \<and>
    Proc (SysKill (- 1) SIGTERM) \<in> set (trace z)"
proof -
  let ?x = "init_ctx (running_job\<lparr>jb_state := Loaded, jb_pid := 0\<rparr>)"
  have "opens unforking_platform" "accounts_known unforking_platform (jb_manifest (this ?x))"
    by (simp_all add: opens_def accounts_known_def unforking_platform_def user_platform_def null_platform_def)
  moreover have "override_enabled (jlib unforking_platform) (sf_current ?x) (label (jb_manifest (this ?x))) = Inr None"
    using no_override by (simp add: unforking_platform_def user_platform_def)
  moreover have "\<forall>h. fst (sys_int unforking_platform h (Proc SysFork)) = - 1" "get_job_state ?x = Loaded"
      "\<not> jb_unload_requested (this ?x)"
    by (simp_all add: unforking_platform_def get_job_state_def running_job_def mk_job_def)
  ultimately show ?thesis
    using failed_fork_signals_all [of unforking_platform ?x None] by force
qed

end
