(* ===== verification/Sigterm.thy ===== *)
theory Sigterm
  imports Shutdown
begin

text \<open>
  From the signal to the end: the daemon gets \<open>SIGTERM\<close>, its jobs get it from the daemon, the kernel
  reports the exits of their processes in its own time, and the main loop returns.
\<close>

section \<open>Processes that end when they are told to\<close>

text \<open>
  Read off the calls made so far: the processes that were sent \<open>SIGTERM\<close>, those whose end \<open>waitpid\<close> has
  reported, and the number of waits for an event.
\<close>

definition terminated :: "syscall list \<Rightarrow> int set" where
  "terminated h = {p. 0 < p \<and> Proc (SysKill p SIGTERM) \<in> set h}"

primrec reported :: "platform \<Rightarrow> syscall list \<Rightarrow> int set" where
  "reported pf [] = {}"
| "reported pf (c # h) =
     (if c = Proc (SysWaitpidNohang (- 1)) then insert (fst (sys_int pf h c)) (reported pf h) else reported pf h)"

definition unreported :: "platform \<Rightarrow> syscall list \<Rightarrow> int set" where
  "unreported pf h = terminated h - reported pf h"

fun is_wait :: "syscall \<Rightarrow> bool" where
  "is_wait (Evt (SysEpollWait fd t)) = True"
| "is_wait _ = False"

definition waits :: "syscall list \<Rightarrow> nat" where
  "waits h = length (filter is_wait h)"

text \<open>
  \<open>obedient pf D\<close>: while the daemon shuts down nothing happens but the end of processes, and those that
  got \<open>SIGTERM\<close> end in time. A wait either times out or finds \<open>SIGCHLD\<close> to be read, which is read once;
  \<open>waitpid\<close> reports a process that got the signal and was not reported before, with the status of an
  exit or of a death by signal, or none; and from the wait number \<open>D\<close> on, nothing is held back.
\<close>

definition obedient :: "platform \<Rightarrow> nat \<Rightarrow> bool" where
  "obedient pf D \<longleftrightarrow> (\<forall>h.
     (\<forall>fd. let rv = fst (sys_int pf h (Evt (SysEpollWait fd 500))) in
        (rv = 0 \<or> 0 < rv \<and> payload_int (sys_epoll_event pf h fd) = EVTYPE_SIGNAL) \<and>
        (D \<le> waits h \<and> unreported pf h \<noteq> {} \<longrightarrow> rv \<noteq> 0)) \<and>
     (\<forall>c fd. sys_siginfo pf (c # h) fd = SIGCHLD \<and> sys_int pf (c # h) (Evt (SysReadSiginfo fd)) =
        (if c = Evt (SysReadSiginfo fd) then (- 1, EAGAIN) else (sizeof_siginfo, 0))) \<and>
     (let p = fst (sys_int pf h (Proc (SysWaitpidNohang (- 1)))); st = sys_wait_status pf h in
        (p = 0 \<or> p \<in> unreported pf h) \<and> (D \<le> waits h \<and> unreported pf h \<noteq> {} \<longrightarrow> p \<noteq> 0) \<and>
        (WIFEXITED st \<or> WIFSIGNALED st)))"

lemma obedient_wait:
  assumes "obedient pf D"
  shows "fst (sys_int pf h (Evt (SysEpollWait fd 500))) = 0 \<or>
      0 < fst (sys_int pf h (Evt (SysEpollWait fd 500))) \<and> payload_int (sys_epoll_event pf h fd) = EVTYPE_SIGNAL"
    and "D \<le> waits h \<Longrightarrow> unreported pf h \<noteq> {} \<Longrightarrow> fst (sys_int pf h (Evt (SysEpollWait fd 500))) \<noteq> 0"
  using assms unfolding obedient_def Let_def by blast+

lemma obedient_read:
  assumes "obedient pf D"
  shows "sys_siginfo pf (c # h) fd = SIGCHLD" "sys_int pf (c # h) (Evt (SysReadSiginfo fd)) =
        (if c = Evt (SysReadSiginfo fd) then (- 1, EAGAIN) else (sizeof_siginfo, 0))"
  using assms unfolding obedient_def by blast+

lemma obedient_reap:
  assumes "obedient pf D" and "sys_int pf h (Proc (SysWaitpidNohang (- 1))) = (p, e)"
  shows "p = 0 \<or> p \<in> unreported pf h" "D \<le> waits h \<Longrightarrow> unreported pf h \<noteq> {} \<Longrightarrow> p \<noteq> 0"
    "WIFEXITED (sys_wait_status pf h) \<or> WIFSIGNALED (sys_wait_status pf h)"
  using assms unfolding obedient_def Let_def by (metis fst_conv)+

lemma quiet_history:
  assumes "list_all quiet_call k"
  shows "unreported pf (k @ h) = unreported pf h" "waits (k @ h) = waits h"
proof -
  have "quiet_call c \<Longrightarrow> (\<forall>p. c \<noteq> Proc (SysKill p SIGTERM)) \<and> c \<noteq> Proc (SysWaitpidNohang (- 1)) \<and> \<not> is_wait c" for c
    by (cases c rule: quiet_call.cases) auto
  then have "\<forall>c \<in> set k. (\<forall>p. c \<noteq> Proc (SysKill p SIGTERM)) \<and> c \<noteq> Proc (SysWaitpidNohang (- 1)) \<and> \<not> is_wait c"
    using assms by (auto simp: list_all_iff)
  then have "terminated (k @ h) = terminated h \<and> reported pf (k @ h) = reported pf h \<and> waits (k @ h) = waits h"
    by (induction k) (auto simp: terminated_def waits_def)
  then show "unreported pf (k @ h) = unreported pf h" "waits (k @ h) = waits h" by (simp_all add: unreported_def)
qed

lemma finite_unreported: "finite (unreported pf h)"
proof -
  have "terminated h \<subseteq> (\<lambda>c. case c of Proc (SysKill p sig) \<Rightarrow> p | _ \<Rightarrow> 0) ` set h"
    by (force simp: terminated_def image_iff)
  then show ?thesis unfolding unreported_def by (meson finite_Diff finite_imageI finite_set finite_subset)
qed

section \<open>A wait\<close>

lemma reap_obedient:
  assumes ob: "obedient pf D"
  shows "unreported pf (trace s) \<subseteq> watch_pids s \<Longrightarrow> card (unreported pf (trace s)) < n \<Longrightarrow>
    \<exists>ps k. reap_children n pf s = (Inr (), s\<lparr>trace := k @ trace s,
        pending_events := pending_events s @ map (\<lambda>(p, st). ProcEvent p st) ps,
        watch_pids := watch_pids s - fst ` set ps\<rparr>) \<and>
      distinct (map fst ps) \<and> fst ` set ps \<subseteq> unreported pf (trace s) \<and>
      (\<forall>(p, st) \<in> set ps. WIFEXITED st \<or> WIFSIGNALED st) \<and>
      unreported pf (k @ trace s) = unreported pf (trace s) - fst ` set ps \<and> waits (k @ trace s) = waits (trace s) \<and>
      (D \<le> waits (trace s) \<and> unreported pf (trace s) \<noteq> {} \<longrightarrow> ps \<noteq> [])"
proof (induction n arbitrary: s)
  case 0
  then show ?case by simp
next
  case (Suc n)
  let ?c = "Proc (SysWaitpidNohang (- 1))"
  let ?U = "unreported pf (trace s)"
  obtain p e where pe: "sys_int pf (trace s) ?c = (p, e)" by fastforce
  note r = obedient_reap [OF ob pe]
  have u: "unreported pf (?c # trace s) = ?U - {p}" and w: "waits (?c # trace s) = waits (trace s)"
    using pe by (auto simp: unreported_def terminated_def waits_def)
  show ?case
  proof (cases "p = 0")
    case True
    moreover have "0 \<notin> ?U" by (simp add: unreported_def terminated_def)
    ultimately show ?thesis
      using pe u w r(2) by (intro exI [of _ "[]"] exI [of _ "[?c]"]) (auto simp: monad_simps)
  next
    case False
    then have p: "p \<in> ?U" "0 < p" "p \<in> watch_pids s"
      using r(1) Suc.prems(1) by (auto simp: unreported_def terminated_def)
    let ?st = "sys_wait_status pf (trace s)"
    let ?s = "s\<lparr>trace := ?c # trace s, pending_events := pending_events s @ [ProcEvent p ?st], watch_pids := watch_pids s - {p}\<rparr>"
    have "card (unreported pf (trace ?s)) < n"
      using card_Diff1_less [OF finite_unreported p(1)] Suc.prems(2) u by simp
    moreover have "unreported pf (trace ?s) \<subseteq> watch_pids ?s" using Suc.prems(1) u by auto
    ultimately obtain ps k where ps: "reap_children n pf ?s = (Inr (), ?s\<lparr>trace := k @ trace ?s,
        pending_events := pending_events ?s @ map (\<lambda>(p, st). ProcEvent p st) ps,
        watch_pids := watch_pids ?s - fst ` set ps\<rparr>)" "distinct (map fst ps)" "fst ` set ps \<subseteq> unreported pf (trace ?s)"
      "\<forall>(p, st) \<in> set ps. WIFEXITED st \<or> WIFSIGNALED st"
      "unreported pf (k @ trace ?s) = unreported pf (trace ?s) - fst ` set ps" "waits (k @ trace ?s) = waits (trace ?s)"
      using Suc.IH [of ?s] by blast
    have w1: "watch_pids s - insert p (fst ` set ps) = watch_pids s - {p} - fst ` set ps" by auto
    have "reap_children (Suc n) pf s = reap_children n pf ?s"
      using pe p(2,3) by (simp add: monad_simps addPendingEvent_def)
    also have "\<dots> = (Inr (), s\<lparr>trace := (k @ [?c]) @ trace s,
        pending_events := pending_events s @ map (\<lambda>(p, st). ProcEvent p st) ((p, ?st) # ps),
        watch_pids := watch_pids s - fst ` set ((p, ?st) # ps)\<rparr>)"
      using ps(1) by (simp add: w1)
    finally have run: "reap_children (Suc n) pf s = \<dots>" .
    have "unreported pf ((k @ [?c]) @ trace s) = ?U - fst ` set ((p, ?st) # ps)" "waits ((k @ [?c]) @ trace s) = waits (trace s)"
      using ps(5,6) u w by auto
    moreover have "distinct (map fst ((p, ?st) # ps))" "fst ` set ((p, ?st) # ps) \<subseteq> ?U"
      using ps(2,3) u p(1) by auto
    moreover have "\<forall>(p, st) \<in> set ((p, ?st) # ps). WIFEXITED st \<or> WIFSIGNALED st"
      using ps(4) r(3) by simp
    ultimately show ?thesis using run by blast
  qed
qed

text \<open>One wait of the event manager, when nothing is queued.\<close>

abbreviation (input) exit_events :: "(int \<times> int) list \<Rightarrow> event list" where
  "exit_events ps \<equiv> map (\<lambda>(p, st). ProcEvent p st) ps"

lemma two_steps: "Suc n < m \<Longrightarrow> \<exists>k. m = Suc (Suc k)"
  by (intro exI [of _ "m - 2"]) simp

lemma wait_obedient:
  assumes ob: "obedient pf D" and "pending_events s = []" "child_status s = []"
    and sub: "unreported pf (trace s) \<subseteq> watch_pids s" and fuel: "Suc (card (unreported pf (trace s))) < loop_bound pf"
  shows "\<exists>ps k. epoll_waitForEvent pf (Some 500) s =
      (Inr (case exit_events ps of [] \<Rightarrow> None | e # es \<Rightarrow> Some e),
       s\<lparr>trace := k @ trace s, pending_events := tl (exit_events ps), watch_pids := watch_pids s - fst ` set ps\<rparr>) \<and>
    distinct (map fst ps) \<and> fst ` set ps \<subseteq> unreported pf (trace s) \<and>
    (\<forall>(p, st) \<in> set ps. WIFEXITED st \<or> WIFSIGNALED st) \<and>
    unreported pf (k @ trace s) = unreported pf (trace s) - fst ` set ps \<and> waits (k @ trace s) = Suc (waits (trace s)) \<and>
    (D \<le> waits (trace s) \<and> unreported pf (trace s) \<noteq> {} \<longrightarrow> ps \<noteq> [])"
proof -
  let ?w = "Evt (SysEpollWait (epfd s) 500)" and ?r = "Evt (SysReadSiginfo (sigfd s))"
  obtain m where m: "loop_bound pf = Suc (Suc m)" using two_steps [OF fuel] by blast
  have loop: "epoll_waitForEvent pf (Some 500) s = wait_loop (Suc (Suc m)) pf (Some 500) s"
    using assms(2,3) m by (simp add: epoll_waitForEvent_def getPendingEvent_def monad_simps)
  obtain rv e where rv: "sys_int pf (trace s) ?w = (rv, e)" by fastforce
  have u: "unreported pf (?w # trace s) = unreported pf (trace s)" "waits (?w # trace s) = Suc (waits (trace s))"
    by (auto simp: unreported_def terminated_def waits_def)
  show ?thesis
  proof (cases "rv = 0")
    case True
    have "s\<lparr>trace := ?w # trace s, pending_events := [], watch_pids := watch_pids s\<rparr> = s\<lparr>trace := ?w # trace s\<rparr>"
      using assms(2) by (cases s) simp
    then have "epoll_waitForEvent pf (Some 500) s = (Inr (case exit_events [] of [] \<Rightarrow> None | e # es \<Rightarrow> Some e),
        s\<lparr>trace := [?w] @ trace s, pending_events := tl (exit_events []), watch_pids := watch_pids s - fst ` set []\<rparr>)"
      using rv True unfolding loop by (simp add: epollGetOne_def wait_switch_def EVTYPE_NONE_def monad_simps Let_def)
    moreover have "\<not> (D \<le> waits (trace s) \<and> unreported pf (trace s) \<noteq> {})"
      using True rv obedient_wait(2) [OF ob, of "trace s" "epfd s"] by auto
    ultimately show ?thesis
      using u by (intro exI [of _ "[]"] exI [of _ "[?w]"]) simp
  next
    case False
    then have ev: "0 < rv" "payload_int (sys_epoll_event pf (trace s) (epfd s)) = EVTYPE_SIGNAL"
      using rv obedient_wait(1) [OF ob, of "trace s" "epfd s"] by auto
    let ?s = "s\<lparr>trace := ?r # ?r # ?w # trace s\<rparr>"
    have read: "read_signals (loop_bound pf) pf False (s\<lparr>trace := ?w # trace s\<rparr>) = (Inr True, ?s)"
      using obedient_read [OF ob] by (simp add: m monad_simps sizeof_siginfo_def)
    have q: "unreported pf (trace ?s) = unreported pf (trace s)" "waits (trace ?s) = Suc (waits (trace s))"
      using quiet_history(1) [of "[?r, ?r]" pf "?w # trace s"] quiet_history(2) [of "[?r, ?r]" "?w # trace s"] u by simp_all
    obtain ps k where ps: "reap_children (loop_bound pf) pf ?s = (Inr (), ?s\<lparr>trace := k @ trace ?s,
        pending_events := pending_events ?s @ exit_events ps, watch_pids := watch_pids ?s - fst ` set ps\<rparr>)"
      "distinct (map fst ps)" "fst ` set ps \<subseteq> unreported pf (trace ?s)" "\<forall>(p, st) \<in> set ps. WIFEXITED st \<or> WIFSIGNALED st"
      "unreported pf (k @ trace ?s) = unreported pf (trace ?s) - fst ` set ps" "waits (k @ trace ?s) = waits (trace ?s)"
      "D \<le> waits (trace ?s) \<and> unreported pf (trace ?s) \<noteq> {} \<longrightarrow> ps \<noteq> []"
      using reap_obedient [OF ob, where s = ?s and n = "loop_bound pf"] sub fuel q by auto
    have sw: "wait_switch pf (Some 500) EVTYPE_SIGNAL (s\<lparr>trace := ?w # trace s\<rparr>) =
        (Inr (case exit_events ps of [] \<Rightarrow> None | e # es \<Rightarrow> Some e),
         s\<lparr>trace := (k @ [?r, ?r, ?w]) @ trace s, pending_events := tl (exit_events ps), watch_pids := watch_pids s - fst ` set ps\<rparr>)"
      using read ps(1) assms(2)
      by (cases ps) (simp_all add: wait_switch_def getSignalEvents_def EVTYPE_SIGNAL_def EVTYPE_NONE_def monad_simps split_beta)
    have "epoll_waitForEvent pf (Some 500) s = (Inr (case exit_events ps of [] \<Rightarrow> None | e # es \<Rightarrow> Some e),
         s\<lparr>trace := (k @ [?r, ?r, ?w]) @ trace s, pending_events := tl (exit_events ps), watch_pids := watch_pids s - fst ` set ps\<rparr>)"
      using rv ev sw unfolding loop by (cases ps) (simp_all add: epollGetOne_def monad_simps Let_def split_beta)
    then show ?thesis using ps(2-7) q by (intro exI [of _ ps] exI [of _ "k @ [?r, ?r, ?w]"]) simp
  qed
qed

text \<open>The reports that a wait has queued take their jobs out of the set that is awaited.\<close>

abbreviation job_pid :: "mgr \<Rightarrow> nat \<Rightarrow> int" where
  "job_pid s i \<equiv> jb_pid (the (heap s i))"

definition linked :: "platform \<Rightarrow> nat set \<Rightarrow> mgr \<Rightarrow> bool" where
  "linked pf A s \<longleftrightarrow> unreported pf (trace s) = job_pid s ` A"

lemma awaited_pid:
  assumes "draining_but A s" and "i \<in> A"
  shows "process_callbacks s (job_pid s i) = Some (OnProcessExit i)" "job_pid s i \<in> watch_pids s"
  using assms by (auto simp: draining_but_def awaited_def)

lemma inj_job_pid:
  assumes "draining_but A s"
  shows "inj_on (job_pid s) A"
  using awaited_pid(1) [OF assms] by (metis (no_types, lifting) closure.inject(1) inj_onI option.inject)

lemma finite_awaited:
  assumes "draining_but A s"
  shows "finite A"
  using assms by (meson draining_but_def finite_imageI finite_set finite_subset)

lemma image_part:
  shows "X \<subseteq> f ` A \<Longrightarrow> f ` {i \<in> A. f i \<in> X} = X" and "f ` (A - {i \<in> A. f i \<in> X}) = f ` A - X"
  by auto

lemma reports_draining:
  assumes d: "draining_but A s" and q: "pending_events s = []"
    and ps: "distinct (map fst ps)" "fst ` set ps \<subseteq> job_pid s ` A" "\<forall>(p, st) \<in> set ps. WIFEXITED st \<or> WIFSIGNALED st"
    and B: "B = {i \<in> A. job_pid s i \<in> fst ` set ps}"
    and s': "s' = s\<lparr>trace := h, pending_events := exit_events ps, watch_pids := watch_pids s - fst ` set ps\<rparr>"
  shows "draining_but (A - B) s'" "card (A - B) + length ps = card A" "job_pid s ` (A - B) = job_pid s ` A - fst ` set ps"
proof -
  note pid = awaited_pid [OF d]
  have all: "snd ` set (jobs s) = A" using d q by (auto simp: draining_but_def)
  have pidB: "job_pid s ` B = fst ` set ps" unfolding B by (rule image_part(1) [OF ps(2)])
  have job: "\<exists>i \<in> B. p = job_pid s i \<and> event_job s' (ProcEvent p st) = Some i" if "(p, st) \<in> set ps" for p st
  proof -
    have "p \<in> job_pid s ` B" using that pidB by force
    then obtain i where "i \<in> B" "p = job_pid s i" by blast
    then show ?thesis using pid(1) [of i] B s' by auto
  qed
  show "job_pid s ` (A - B) = job_pid s ` A - fst ` set ps" unfolding B by (rule image_part(2))
  have "card (job_pid s ` B) = card B" using inj_job_pid [OF d] B by (intro card_image) (auto intro: inj_on_subset)
  then have "card B = length ps" using pidB distinct_card [OF ps(1)] by simp
  moreover have "B \<subseteq> A" using B by auto
  ultimately show "card (A - B) + length ps = card A"
    using finite_awaited [OF d] card_mono [of A B] by (simp add: card_Diff_subset finite_subset)
  show "draining_but (A - B) s'"
    unfolding draining_but_def
  proof (intro conjI)
    show "mgr_ok s'" using d s' by (simp add: draining_but_def mgr_ok_def view_def)
    show "A - B \<subseteq> snd ` set (jobs s')" using all s' by auto
    show "\<forall>e \<in> set (pending_events s'). due s' e"
    proof
      fix e assume "e \<in> set (pending_events s')"
      then obtain p st where e: "e = ProcEvent p st" "(p, st) \<in> set ps" using s' by auto
      then obtain i where i: "i \<in> A" "event_job s' e = Some i" using job B by blast
      moreover have "awaited s i" using d i(1) by (simp add: draining_but_def)
      ultimately show "due s' e" using e ps(3) s' by (auto simp: awaited_def simp del: event_job.simps)
    qed
    have inj: "inj_on (\<lambda>(p, st). event_job s' (ProcEvent p st)) (set ps)"
    proof (rule inj_onI)
      fix x y assume x: "x \<in> set ps" and y: "y \<in> set ps"
        and e: "(case x of (p, st) \<Rightarrow> event_job s' (ProcEvent p st)) = (case y of (p, st) \<Rightarrow> event_job s' (ProcEvent p st))"
      have "fst x = fst y" using job [of "fst x" "snd x"] job [of "fst y" "snd y"] x y e by (auto simp: split_beta simp del: event_job.simps)
      then show "x = y" using ps(1) x y by (metis distinct_map inj_onD)
    qed
    have m: "map (event_job s') (pending_events s') = map (\<lambda>(p, st). event_job s' (ProcEvent p st)) ps"
      using s' by (simp add: split_beta del: event_job.simps)
    show "distinct (map (event_job s') (pending_events s'))"
      unfolding m using inj ps(1) by (simp add: distinct_map)
    have "Some i \<in> event_job s' ` set (pending_events s')" if "i \<in> B" for i
    proof -
      have "job_pid s i \<in> fst ` set ps" using that B by simp
      then obtain st where "(job_pid s i, st) \<in> set ps" by force
      moreover have "event_job s' (ProcEvent (job_pid s i) st) = Some i" using pid(1) [of i] that B s' by simp
      ultimately show ?thesis using s' by force
    qed
    moreover have "event_job s' ` set (pending_events s') \<subseteq> Some ` B" using job s' by (fastforce simp del: event_job.simps)
    moreover have "snd ` set (jobs s') - (A - B) = B" using all s' B by auto
    ultimately show "event_job s' ` set (pending_events s') = Some ` (snd ` set (jobs s') - (A - B))" by auto
    show "\<forall>i \<in> A - B. awaited s' i"
      using d B s' by (auto simp: draining_but_def awaited_def)
  qed (use d s' in \<open>simp_all add: draining_but_def\<close>)
qed

section \<open>The turns of the loop\<close>

definition turns_left :: "nat \<Rightarrow> nat set \<Rightarrow> mgr \<Rightarrow> nat" where
  "turns_left D A s = 2 * card A + drain_turns s + (D - waits (trace s))"

lemma calm_facts:
  assumes "calm A s t" and "linked pf A s"
  shows "linked pf A t" "waits (trace t) = waits (trace s)" "pending_result t = pending_result s"
proof -
  obtain k where k: "trace t = k @ trace s" "list_all quiet_call k" and heap: "\<forall>a \<in> A. heap t a = heap s a"
    using assms(1) by (auto simp: calm_def)
  have "job_pid t ` A = job_pid s ` A" using heap by (intro image_cong) simp_all
  then show "linked pf A t" using assms(2) k quiet_history(1) [OF k(2), of pf] by (simp add: linked_def)
  show "waits (trace t) = waits (trace s)" using k quiet_history(2) [OF k(2)] by simp
  show "pending_result t = pending_result s" using assms(1) by (simp add: calm_def)
qed

lemma reported_turn:
  assumes "mstate s = GracefulShutdown" "jobs s \<noteq> []" "child_status s = []"
    and w: "epoll_waitForEvent pf (Some 500) s = (Inr (case q of [] \<Rightarrow> None | e # es \<Rightarrow> Some e),
      s\<lparr>trace := h, pending_events := tl q, watch_pids := w\<rparr>)"
  shows "handleEvent c pf t s = (if q = [] then (Inr True, s\<lparr>trace := h, pending_events := [], watch_pids := w\<rparr>)
    else handleEvent c pf t (s\<lparr>trace := h, pending_events := q, watch_pids := w\<rparr>))"
proof (cases q)
  case Nil
  then show ?thesis using assms by (simp add: handleEvent_apply em_waitForEvent_def monad_simps)
next
  case (Cons e es)
  let ?s = "s\<lparr>trace := h, pending_events := q, watch_pids := w\<rparr>"
  have "?s\<lparr>pending_events := es\<rparr> = s\<lparr>trace := h, pending_events := es, watch_pids := w\<rparr>" by (cases s) simp
  then have "epoll_waitForEvent pf (Some 500) ?s = epoll_waitForEvent pf (Some 500) s"
    unfolding w using Cons assms(3) by (simp add: epoll_waitForEvent_def getPendingEvent_def monad_simps)
  then show ?thesis using Cons assms(1,2) by (simp add: handleEvent_apply em_waitForEvent_def monad_simps)
qed

lemma wait_turn:
  assumes ob: "obedient pf D" and d: "draining_but A s" and l: "linked pf A s" and q: "pending_events s = []"
    and A: "A \<noteq> {}" "Suc (card A) < loop_bound pf" and pf: "group_kills_end pf" "\<forall>h. 0 \<le> fst (sys_int pf h (Proc SysClock))"
  shows "\<exists>B s'. handleEvent c pf t s = (Inr True, s') \<and> draining_but (A - B) s' \<and> linked pf (A - B) s' \<and>
    pending_result s' = pending_result s \<and> turns_left D (A - B) s' < turns_left D A s"
proof -
  have s: "mstate s = GracefulShutdown" "child_status s = []" "jobs s \<noteq> []" "pending_events s = []"
    using d q A(1) by (auto simp: draining_but_def)
  have un: "unreported pf (trace s) = job_pid s ` A" using l by (simp add: linked_def)
  have "unreported pf (trace s) \<subseteq> watch_pids s" using awaited_pid(2) [OF d] un by auto
  moreover have "Suc (card (unreported pf (trace s))) < loop_bound pf"
    using card_image_le [OF finite_awaited [OF d], of "job_pid s"] A(2) un by simp
  ultimately obtain ps k where w: "epoll_waitForEvent pf (Some 500) s =
      (Inr (case exit_events ps of [] \<Rightarrow> None | e # es \<Rightarrow> Some e),
       s\<lparr>trace := k @ trace s, pending_events := tl (exit_events ps), watch_pids := watch_pids s - fst ` set ps\<rparr>)"
    and ps: "distinct (map fst ps)" "fst ` set ps \<subseteq> job_pid s ` A" "\<forall>(p, st) \<in> set ps. WIFEXITED st \<or> WIFSIGNALED st"
    and h: "unreported pf (k @ trace s) = job_pid s ` A - fst ` set ps" "waits (k @ trace s) = Suc (waits (trace s))"
      "D \<le> waits (trace s) \<longrightarrow> ps \<noteq> []"
    using wait_obedient [OF ob q s(2)] un A(1) by auto
  let ?B = "{i \<in> A. job_pid s i \<in> fst ` set ps}"
  let ?s = "s\<lparr>trace := k @ trace s, pending_events := exit_events ps, watch_pids := watch_pids s - fst ` set ps\<rparr>"
  note r = reports_draining [OF d q ps refl, of ?s "k @ trace s", OF refl]
  have linked: "linked pf (A - ?B) ?s" using r(3) h(1) by (simp add: linked_def)
  have n: "drain_turns ?s = 2 * length ps + 1" by (simp add: drain_turns_def o_def split_beta sum_list_triv)
  have base: "drain_turns s = 1" using q by (simp add: drain_turns_def)
  show ?thesis
  proof (cases "ps = []")
    case True
    then have "turns_left D (A - ?B) ?s < turns_left D A s" using h(2,3) n base by (simp add: turns_left_def)
    moreover have "handleEvent c pf t s = (Inr True, ?s)"
      using reported_turn [OF s(1,3,2) w, of c t] True by simp
    ultimately show ?thesis using r(1) linked by (intro exI [of _ ?B] exI [of _ ?s]) simp
  next
    case False
    then obtain e rest where e: "pending_events ?s = e # rest" by (cases ps) auto
    obtain s' where s': "handleEvent c pf t ?s = (Inr True, s')" "draining_but (A - ?B) s'" "drain_turns s' < drain_turns ?s"
      "calm (A - ?B) ?s s'"
      using drain_turn [OF r(1) e pf] by blast
    note calm = calm_facts [OF s'(4) linked]
    have "turns_left D (A - ?B) s' < turns_left D A s"
      using s'(3) n base r(2) calm(2) h(2) by (simp add: turns_left_def)
    moreover have "handleEvent c pf t s = (Inr True, s')"
      using reported_turn [OF s(1,3,2) w, of c t] False s'(1) by simp
    ultimately show ?thesis using s'(2) calm(1,3) by (intro exI [of _ ?B] exI [of _ s']) simp
  qed
qed

lemma obeys:
  assumes ob: "obedient pf D" and pf: "group_kills_end pf" "\<forall>h. 0 \<le> fst (sys_int pf h (Proc SysClock))"
  shows "draining_but A s \<Longrightarrow> linked pf A s \<Longrightarrow> Suc (card A) < loop_bound pf \<Longrightarrow> turns_left D A s \<le> n \<Longrightarrow>
    \<exists>s'. main_loop n c pf s = (Inr (), s') \<and> mstate s' = Finished \<and> jobs s' = [] \<and> pending_result s' = pending_result s"
proof (induction n arbitrary: A s)
  case 0
  then show ?case by (simp add: turns_left_def drain_turns_def)
next
  case (Suc n)
  note d = Suc.prems(1)
  have step: ?case if "handleEvent c pf None s = (Inr True, t)" "draining_but (A - B) t" "linked pf (A - B) t"
    "pending_result t = pending_result s" "turns_left D (A - B) t < turns_left D A s" for B t
  proof -
    have "Suc (card (A - B)) < loop_bound pf"
      using card_mono [OF finite_awaited [OF d], of "A - B"] Suc.prems(3) by (simp add: Diff_subset)
    then show ?thesis using Suc.IH [OF that(2,3)] that Suc.prems(4) by (simp add: monad_simps)
  qed
  show ?case
  proof (cases "pending_events s")
    case (Cons e rest)
    then obtain s1 where s1: "handleEvent c pf None s = (Inr True, s1)" "draining_but A s1" "drain_turns s1 < drain_turns s" "calm A s s1"
      using drain_turn [OF d Cons pf] by blast
    note calm = calm_facts [OF s1(4) Suc.prems(2)]
    then show ?thesis using step [where t = s1 and B = "{}"] s1(1-3) by (simp add: turns_left_def)
  next
    case Nil
    show ?thesis
    proof (cases "A = {}")
      case True
      then have "draining s" using d by simp
      then show ?thesis using drained(1) [OF _ Nil, of c pf None] drained(2) [OF _ Nil] by (simp add: monad_simps)
    next
      case False
      then show ?thesis using wait_turn [OF ob d Suc.prems(2) Nil False Suc.prems(3) pf, of c None] step by blast
    qed
  qed
qed

section \<open>The signal\<close>

lemma stop_trace_set: "set (stop_trace js H) = (\<Union>i \<in> snd ` set js. case H i of Some j \<Rightarrow> set (stop_kills j) | None \<Rightarrow> {})"
proof (induction js)
  case (Cons p js)
  have "stop_trace (p # js) H = stop_trace js H @ (case H (snd p) of Some j \<Rightarrow> stop_kills j | None \<Rightarrow> [])"
    by (simp add: stop_trace_def split_beta)
  then show ?case using Cons.IH by (simp split: option.split) blast
qed (simp add: stop_trace_def)

lemma stop_kills_set:
  "c \<in> set (stop_kills j) \<longleftrightarrow> jb_state j = Running \<and> \<not> jb_unload_requested j \<and> jb_pid j \<noteq> 0 \<and> c = Proc (SysKill (jb_pid j) SIGTERM)"
  by (auto simp: stop_kills_def)

lemma stop_trace_pids:
  assumes "\<forall>i \<in> snd ` set js. \<exists>j. H i = Some j \<and> \<not> jb_unload_requested j \<and> (jb_state j = Running \<longrightarrow> 0 < jb_pid j)"
  shows "terminated (stop_trace js H) = (\<lambda>i. jb_pid (the (H i))) ` {i \<in> snd ` set js. \<exists>j. H i = Some j \<and> jb_state j = Running}" (is "?T = ?P")
    and "c \<in> set (stop_trace js H) \<Longrightarrow> \<exists>p. c = Proc (SysKill p SIGTERM)"
proof -
  have mem: "c \<in> set (stop_trace js H) \<longleftrightarrow> (\<exists>i \<in> snd ` set js. \<exists>j. H i = Some j \<and> c \<in> set (stop_kills j))" for c
  proof -
    have "c \<in> (case H i of Some j \<Rightarrow> set (stop_kills j) | None \<Rightarrow> {}) \<longleftrightarrow> (\<exists>j. H i = Some j \<and> c \<in> set (stop_kills j))" for i
      by (cases "H i") simp_all
    then show ?thesis unfolding stop_trace_set UN_iff by simp
  qed
  show "c \<in> set (stop_trace js H) \<Longrightarrow> \<exists>p. c = Proc (SysKill p SIGTERM)"
    unfolding mem stop_kills_set by blast
  show "?T = ?P"
  proof (intro subset_antisym subsetI)
    fix p assume "p \<in> ?T"
    then obtain i j where "i \<in> snd ` set js" "H i = Some j" "jb_state j = Running" "p = jb_pid j"
      unfolding terminated_def mem stop_kills_set by blast
    then show "p \<in> ?P" by (intro image_eqI [of _ _ i]) auto
  next
    fix p assume "p \<in> ?P"
    then obtain i where "i \<in> snd ` set js" "\<exists>j. H i = Some j \<and> jb_state j = Running" "p = jb_pid (the (H i))" by blast
    then obtain j where i: "i \<in> snd ` set js" "H i = Some j" "jb_state j = Running" "p = jb_pid j" by auto
    moreover have "\<not> jb_unload_requested j" "0 < jb_pid j" using assms i by fastforce+
    ultimately have "Proc (SysKill p SIGTERM) \<in> set (stop_kills j)" "0 < p" by (simp_all add: stop_kills_set)
    then show "p \<in> ?T" unfolding terminated_def mem using i(1,2) by blast
  qed
qed

lemma terminated_append: "terminated (k @ h) = terminated k \<union> terminated h"
  by (auto simp: terminated_def)

lemma reported_kills:
  assumes "\<forall>c \<in> set k. c \<noteq> Proc (SysWaitpidNohang (- 1))"
  shows "reported pf (k @ h) = reported pf h"
  using assms by (induction k) auto

text \<open>The callback of a shutdown signal is the request to stop, with the result that the daemon will return.\<close>

definition shutdown_callbacks :: "(closure \<times> manager_result) set" where
  "shutdown_callbacks =
     {(OnSigint, Reboot), (OnSigusr1, Halt), (OnSigusr2, HaltAndPowerDown), (OnSigterm, SingleUserMode)}"

lemma shutdown_signal:
  assumes "(cl, r) \<in> shutdown_callbacks" "mstate s = MgrRunning" "child_status s = []" "pending_events s = [SignalEvent sig]"
    and "signal_callbacks s sig = Some cl"
    and "stopRunning c pf (s\<lparr>pending_events := [], pending_result := r\<rparr>) = (Inr (), s')" "mstate s' = GracefulShutdown"
  shows "handleEvent c pf t s = (Inr True, s')"
proof -
  have "run_closure c pf cl (SignalEvent sig) (s\<lparr>pending_events := []\<rparr>) = stopRunning c pf (s\<lparr>pending_events := [], pending_result := r\<rparr>)"
    using assms(1,2) by (auto simp: shutdown_callbacks_def on_shutdown_signal_def handleShutdownSignal_def stopRunning_def monad_simps)
  then show ?thesis
    using assms(2-7) by (simp add: handleEvent_apply em_waitForEvent_def epoll_waitForEvent_def getPendingEvent_def callback_of_def monad_simps)
qed

text \<open>A running job that the daemon watches and has not yet told to end.\<close>

definition watched :: "platform \<Rightarrow> mgr \<Rightarrow> nat \<Rightarrow> job \<Rightarrow> bool" where
  "watched pf s i j \<longleftrightarrow> jb_started_at j \<noteq> None \<and> 0 < jb_pid j \<and> process_callbacks s (jb_pid j) = Some (OnProcessExit i) \<and>
     jb_pid j \<in> watch_pids s \<and> jb_pid j \<notin> reported pf (trace s)"

definition serving :: "platform \<Rightarrow> mgr \<Rightarrow> bool" where
  "serving pf s \<longleftrightarrow> mgr_ok s \<and> mstate s = MgrRunning \<and> child_status s = [] \<and> ipc_callbacks s ''delete_job'' = Some OnDeleteJob \<and>
     overrides_readable pf s \<and> unreported pf (trace s) = {} \<and>
     (\<forall>i \<in> snd ` set (jobs s). \<exists>j. heap s i = Some j \<and> stoppable j \<and> \<not> jb_unload_requested j \<and>
        (jb_state j = Running \<longrightarrow> watched pf s i j))"

lemma servingD:
  assumes "serving pf s"
  shows "mgr_ok s" "mstate s = MgrRunning" "child_status s = []" "ipc_callbacks s ''delete_job'' = Some OnDeleteJob"
    "overrides_readable pf s" "unreported pf (trace s) = {}"
    and "\<forall>i \<in> snd ` set (jobs s). \<exists>j. heap s i = Some j \<and> stoppable j"
    and "\<forall>i \<in> snd ` set (jobs s). \<exists>j. heap s i = Some j \<and> stoppable j \<and> (jb_state j = Running \<longrightarrow> jb_started_at j \<noteq> None)"
    and "\<forall>i \<in> snd ` set (jobs s). \<exists>j. heap s i = Some j \<and> \<not> jb_unload_requested j \<and> (jb_state j = Running \<longrightarrow> 0 < jb_pid j)"
    and "\<forall>i \<in> running_jobs s. \<exists>j. heap s i = Some j \<and> watched pf s i j"
proof -
  note s = assms [unfolded serving_def]
  show "mgr_ok s" "mstate s = MgrRunning" "child_status s = []" "ipc_callbacks s ''delete_job'' = Some OnDeleteJob"
    "overrides_readable pf s" "unreported pf (trace s) = {}"
    using s by simp_all
  show "\<forall>i \<in> snd ` set (jobs s). \<exists>j. heap s i = Some j \<and> stoppable j" using s by blast
  show "\<forall>i \<in> snd ` set (jobs s). \<exists>j. heap s i = Some j \<and> stoppable j \<and> (jb_state j = Running \<longrightarrow> jb_started_at j \<noteq> None)"
    "\<forall>i \<in> snd ` set (jobs s). \<exists>j. heap s i = Some j \<and> \<not> jb_unload_requested j \<and> (jb_state j = Running \<longrightarrow> 0 < jb_pid j)"
    using s unfolding watched_def by blast+
  show "\<forall>i \<in> running_jobs s. \<exists>j. heap s i = Some j \<and> watched pf s i j"
    using s unfolding running_jobs_def by fastforce
qed

lemma signal_taken:
  assumes s: "serving pf s" and "pending_events s = [SignalEvent sig]" "signal_callbacks s sig = Some cl" "(cl, r) \<in> shutdown_callbacks"
  shows "\<exists>s'. handleEvent c pf t s = (Inr True, s') \<and> draining_but (running_jobs s) s' \<and> linked pf (running_jobs s) s' \<and>
    pending_result s' = r \<and> turns_left D (running_jobs s) s' \<le> 2 * length (jobs s) + D + 1"
proof -
  let ?s = "s\<lparr>pending_events := [], pending_result := r\<rparr>" and ?R = "running_jobs s"
  note f = servingD [OF s]
  have R: "running_jobs ?s = ?R" by (simp add: running_jobs_def)
  have ok: "mgr_ok ?s" using f(1) by (simp add: mgr_ok_def view_def)
  obtain k ch where k: "stopRunning c pf ?s = (Inr (), stopped ?s (stop_trace (jobs s) (heap s) @ k @ trace s) ch [])" "list_all quiet_call k"
    using stop_request [OF ok, of pf c] f(2,5,7) by (auto simp: overrides_readable_def)
  let ?h = "stop_trace (jobs s) (heap s) @ k @ trace s"
  let ?t = "stopped ?s ?h ch []"
  have "mgr_ok ?t" using preservesE [OF daemon_ok(2) k(1) ok] .
  moreover have "exits_but ?R ?s []" by (simp add: exits_but_def R)
  moreover have "\<forall>i \<in> ?R. \<exists>j. heap ?s i = Some j \<and> process_callbacks ?s (jb_pid j) = Some (OnProcessExit i) \<and> jb_pid j \<in> watch_pids ?s"
    using f(10) by (fastforce simp: watched_def)
  ultimately have drain: "draining_but ?R ?t" and left: "2 * card ?R + drain_turns ?t \<le> 2 * length (jobs s) + 1"
    using stopped_draining [OF ok, where A = ?R and exits = "[]" and h = ?h and ch = ch]
      stopped_turns [OF ok, where A = ?R and exits = "[]" and h = ?h and ch = ch] f(3,4,8) R by simp_all
  have "terminated (stop_trace (jobs s) (heap s)) = job_pid s ` ?R"
    unfolding running_jobs_def by (rule stop_trace_pids(1) [OF f(9)])
  moreover have "unreported pf (k @ trace s) = {}" using f(6) quiet_history(1) [OF k(2)] by simp
  moreover have "reported pf ?h = reported pf (trace s)"
  proof -
    have "\<forall>c \<in> set k. c \<noteq> Proc (SysWaitpidNohang (- 1))" using k(2) by (auto simp: list_all_iff)
    moreover have "\<forall>c \<in> set (stop_trace (jobs s) (heap s)). c \<noteq> Proc (SysWaitpidNohang (- 1))"
      using stop_trace_pids(2) [OF f(9)] by blast
    ultimately show ?thesis by (simp add: reported_kills)
  qed
  moreover have "reported pf (k @ trace s) = reported pf (trace s)"
    using k(2) by (intro reported_kills) (auto simp: list_all_iff)
  moreover have "job_pid s ` ?R \<inter> reported pf (trace s) = {}" using f(10) by (fastforce simp: watched_def)
  ultimately have "unreported pf ?h = job_pid s ` ?R"
    unfolding unreported_def terminated_append [of "stop_trace (jobs s) (heap s)"] by blast
  moreover have "job_pid ?t ` ?R = job_pid s ` ?R"
    by (intro image_cong) (auto simp: stop_heap_def stop_job_def running_jobs_def)
  ultimately have "linked pf ?R ?t" by (simp add: linked_def)
  moreover have "handleEvent c pf t s = (Inr True, ?t)"
    using shutdown_signal [OF assms(4) f(2,3) assms(2,3) k(1)] by simp
  ultimately show ?thesis using drain left by (intro exI [of _ ?t]) (simp add: turns_left_def)
qed

text \<open>
  C11: a shutdown signal ends the daemon: it tells every running job to end, waits for the kernel to
  report their exits, in whatever order and however they are spread over its waits, deletes every job,
  and the main loop returns the result that belongs to the signal. With processes that are all
  reported by the \<open>D\<close>th wait that takes two turns for each job, \<open>D\<close> waits and two turns more.
\<close>

theorem signal_ends_daemon:
  assumes "serving pf s" and "pending_events s = [SignalEvent sig]" "signal_callbacks s sig = Some cl" "(cl, r) \<in> shutdown_callbacks"
    and "obedient pf D" and "group_kills_end pf" and "\<forall>h. 0 \<le> fst (sys_int pf h (Proc SysClock))"
    and "Suc (length (jobs s)) < loop_bound pf"
  shows "\<exists>s'. runMainLoop (2 * length (jobs s) + D + 2) c pf s = (Inr r, s') \<and> mstate s' = Finished \<and> jobs s' = []"
proof -
  let ?R = "running_jobs s"
  obtain s1 where s1: "handleEvent c pf None s = (Inr True, s1)" "draining_but ?R s1" "linked pf ?R s1"
    "pending_result s1 = r" "turns_left D ?R s1 \<le> 2 * length (jobs s) + D + 1"
    using signal_taken [OF assms(1-4)] by blast
  have "?R \<subseteq> snd ` set (jobs s)" by (auto simp: running_jobs_def)
  then have "card ?R \<le> length (jobs s)"
    by (metis List.finite_set card_length card_mono finite_imageI length_map order_trans set_map)
  then have "Suc (card ?R) < loop_bound pf" using assms(8) by linarith
  from obeys [OF assms(5-7) s1(2,3) this s1(5)] obtain s2 where
    "main_loop (2 * length (jobs s) + D + 1) c pf s1 = (Inr (), s2)" "mstate s2 = Finished" "jobs s2 = []" "pending_result s2 = r"
    using s1(4) by auto
  then show ?thesis using s1(1) servingD(2) [OF assms(1)] by (simp add: runMainLoop_def monad_simps)
qed

text \<open>
  A kernel whose processes end one after the other: the first wait times out, and from then on
  \<open>waitpid\<close> reports the processes that were told to end, the smallest identifier first.
\<close>

definition pick :: "int set \<Rightarrow> int" where
  "pick P = (if P = {} then 0 else Min P)"

primrec ended :: "syscall list \<Rightarrow> int set" where
  "ended [] = {}"
| "ended (c # h) = (if c = Proc (SysWaitpidNohang (- 1)) then insert (pick (terminated h - ended h)) (ended h) else ended h)"

definition reaping_platform :: platform where
  "reaping_platform = null_platform\<lparr>
     sys_int := (\<lambda>h c. case c of
         Evt (SysEpollWait fd t) \<Rightarrow> (if waits h = 0 \<or> terminated h - ended h = {} then 0 else 1, 0)
       | Evt (SysReadSiginfo fd) \<Rightarrow> if h \<noteq> [] \<and> hd h = c then (- 1, EAGAIN) else (sizeof_siginfo, 0)
       | Proc (SysWaitpidNohang p) \<Rightarrow> (if p = - 1 then pick (terminated h - ended h) else 0, 0)
       | _ \<Rightarrow> (0, 0)),
     sys_epoll_event := (\<lambda>_ _. PayU32 EVTYPE_SIGNAL), sys_siginfo := (\<lambda>_ _. SIGCHLD)\<rparr>"

lemma reaping_platform_obedient: "obedient reaping_platform 1"
proof -
  have "reported reaping_platform h = ended h" for h
    by (induction h) (simp_all add: reaping_platform_def)
  then have u: "unreported reaping_platform h = terminated h - ended h" for h by (simp add: unreported_def)
  have pick: "P \<noteq> {} \<Longrightarrow> finite P \<Longrightarrow> pick P \<in> P" "pick {} = 0" for P by (simp_all add: pick_def)
  have fin: "finite (terminated h - ended h)" for h using finite_unreported [of reaping_platform h] by (simp add: u)
  have pos: "0 < p" if "p \<in> terminated h - ended h" for p h using that by (simp add: terminated_def)
  have p: "pick (terminated h - ended h) = 0 \<or> pick (terminated h - ended h) \<in> terminated h - ended h"
    "terminated h - ended h \<noteq> {} \<Longrightarrow> pick (terminated h - ended h) \<noteq> 0" for h
    using pick fin pos by (metis less_irrefl)+
  show ?thesis
    unfolding obedient_def Let_def u
    using p by (auto simp: reaping_platform_def null_platform_def wait_status_defs EVTYPE_SIGNAL_def simp del: Diff_iff)
qed

definition term_mgr :: mgr where
  "term_mgr = stop_mgr\<lparr>pending_events := [SignalEvent SIGTERM], signal_callbacks := [SIGTERM \<mapsto> OnSigterm], watch_pids := {77}\<rparr>"

lemma term_mgr_serving: "serving reaping_platform term_mgr"
proof -
  have "mgr_ok term_mgr"
    by (auto simp: mgr_ok_def view_def own_ok_def term_mgr_def stop_mgr_def running_job_def mk_job_def
        daemon_manifest_def default_manifest_def fun_upd_def split: if_splits)
  moreover have "trace term_mgr = []" by (simp add: term_mgr_def stop_mgr_def blank_mgr_def init_em_def em_state.defs mgr.defs)
  moreover have "jlib reaping_platform = jlib null_platform" by (simp add: reaping_platform_def)
  ultimately show ?thesis
    using no_override
    by (auto simp: serving_def watched_def unreported_def terminated_def overrides_readable_def term_mgr_def stop_mgr_def
        running_job_def mk_job_def stoppable_def)
qed

theorem signal_ends_daemon_witness:
  "\<exists>s'. runMainLoop 7 sample_config reaping_platform term_mgr = (Inr SingleUserMode, s') \<and> mstate s' = Finished \<and> jobs s' = []"
proof -
  have "loop_bound reaping_platform = Suc 9" by (simp add: reaping_platform_def null_platform_def)
  then have "group_kills_end reaping_platform"
    unfolding group_kills_end_def by (simp only: kill_group_loop.simps) (auto simp: reaping_platform_def monad_simps)
  moreover have "\<forall>h. 0 \<le> fst (sys_int reaping_platform h (Proc SysClock))" by (simp add: reaping_platform_def)
  moreover have "Suc (length (jobs term_mgr)) < loop_bound reaping_platform"
    by (simp add: term_mgr_def stop_mgr_def reaping_platform_def null_platform_def)
  moreover have "2 * length (jobs term_mgr) + 1 + 2 = 7" by (simp add: term_mgr_def stop_mgr_def)
  ultimately show ?thesis
    using signal_ends_daemon [OF term_mgr_serving _ _ _ reaping_platform_obedient, of SIGTERM OnSigterm SingleUserMode sample_config]
    by (simp only:) (simp add: term_mgr_def shutdown_callbacks_def)
qed

end
