(* ===== verification/Stuck.thy ===== *)
theory Stuck
  imports Shutdown
begin

text \<open>
  A shutdown that does not end: a job that waits for a timer when the request to stop arrives. On Linux
  its timer cannot be cancelled, the exception is swallowed, and the job stays.
\<close>

section \<open>Unloading a job that waits for a timer\<close>

definition armed :: "job \<Rightarrow> bool" where
  "armed j \<longleftrightarrow> jb_state j = Waiting \<and> \<not> jb_unload_requested j \<and> jb_timer_id j \<noteq> None"

text \<open>The descriptors of the timers are not in \<open>epfd\<close>: \<open>monitorTimer\<close> adds them to \<open>timer_epfd\<close>.\<close>

definition timers_apart :: "'a em_state_scheme \<Rightarrow> bool" where
  "timers_apart s \<longleftrightarrow> (\<forall>(t, fd) \<in> set (timerfd_map s). \<forall>p. Evt (SysEpollAdd (epfd s) fd p) \<notin> set (trace s))"

fun adds_descriptor :: "syscall \<Rightarrow> bool" where
  "adds_descriptor (Evt (SysEpollAdd ep fd p)) = True"
| "adds_descriptor _ = False"

text \<open>What unloading a job leaves of the event manager as far as the end of the shutdown depends on it.\<close>

definition stays :: "'a em_state_scheme \<Rightarrow> 'b em_state_scheme \<Rightarrow> bool" where
  "stays s t \<longleftrightarrow> child_status t = child_status s \<and> ipc_callbacks t = ipc_callbacks s \<and> epfd t = epfd s \<and>
     sf_current t = sf_current s \<and> set (timerfd_map t) \<subseteq> set (timerfd_map s) \<and>
     (\<forall>c \<in> set (trace t). adds_descriptor c \<longrightarrow> c \<in> set (trace s))"

lemma stays_refl [simp]: "stays s s"
  by (simp add: stays_def)

lemma stays_trans: "stays s t \<Longrightarrow> stays t u \<Longrightarrow> stays s u"
  unfolding stays_def by (metis subset_trans)

lemma stays_apart:
  assumes "stays s t" and "timers_apart s"
  shows "timers_apart t"
proof -
  have "Evt (SysEpollAdd (epfd t) fd p) \<notin> set (trace t)" if "(n, fd) \<in> set (timerfd_map t)" for n fd p
  proof -
    have "(n, fd) \<in> set (timerfd_map s)" "epfd t = epfd s" using that assms(1) by (auto simp: stays_def)
    then have "Evt (SysEpollAdd (epfd t) fd p) \<notin> set (trace s)" using assms(2) by (auto simp: timers_apart_def)
    then show ?thesis using assms(1) unfolding stays_def by (metis adds_descriptor.simps(1))
  qed
  then show ?thesis by (auto simp: timers_apart_def)
qed

lemma stays_job [simp]: "stays (job_in s i j) (c :: 'a em_state_scheme) = stays s c" "stays (x :: 'a em_state_scheme) (job_out s i c') = stays x c'"
  "stays (x :: 'a em_state_scheme) (job_in s i j) = stays x s" "pending_events (job_out s i c') = pending_events c'"
  "pending_events (job_in s i j) = pending_events s" "sf_current (job_in s i j) = sf_current s"
  by (cases s, simp add: stays_def timers_apart_def job_in_def job_out_def em_state.defs job_ctx.defs)+

lemma stays_mark [simp]: "stays s (mark_unload x) = stays s x" "stays (mark_unload x) s = stays x s"
  by (simp_all add: stays_def mark_unload_def)

lemma cancel_fails:
  assumes "epoll_del_documented pf" and "timers_apart x" and "jb_timer_id (this x) = Some t"
  shows "\<exists>e y. cancelTimer pf x = (Inl (Throw e), y) \<and> stays x y \<and> this y = this x \<and> pending_events y = pending_events x"
proof (cases "map_of (timerfd_map x) t")
  case None
  then show ?thesis
    using assms(3) by (simp add: cancelTimer_def opt_value_def deleteTimer_def ignoreTimer_def monad_simps)
next
  case (Some fd)
  then have "(t, fd) \<in> set (timerfd_map x)" by (rule map_of_SomeD)
  then have "\<forall>p. Evt (SysEpollAdd (epfd x) fd p) \<notin> set (trace x)" using assms(2) by (auto simp: timers_apart_def)
  moreover have "set (AList.delete t (timerfd_map x)) \<subseteq> set (timerfd_map x)" by (auto simp: AList.delete_eq)
  ultimately show ?thesis
    using assms(1,3) Some
    by (simp add: cancelTimer_def opt_value_def deleteTimer_def ignoreTimer_def sys_error_def epoll_del_documented_def
        monad_simps stays_def)
qed

definition stop_any :: "job \<Rightarrow> job" where
  "stop_any j = (if armed j then j\<lparr>jb_unload_requested := True\<rparr> else stop_job j)"

lemma unload_any:
  assumes "heap s i = Some j" and "stoppable j \<or> armed j" and "epoll_del_documented pf" and "timers_apart s"
    and "overrides_readable pf s"
  shows "\<exists>b t. unload_one pf i s = (Inr b, t) \<and> stays s t \<and> heap t = (heap s)(i \<mapsto> stop_any j) \<and>
    jobs t = jobs s \<and> mstate t = mstate s \<and> pending_events t = pending_events s @ (if armed j then [] else stop_calls j)"
proof (cases "armed j")
  case False
  have "adds_descriptor c \<longrightarrow> c \<in> set (trace s)" if "c \<in> set (stop_kills j @ trace s)" for c
    using that by (auto simp: stop_kills_def split: if_splits)
  then show ?thesis
    using stop_one [OF assms(1), of pf] assms(2,5) False
    by (auto simp: overrides_readable_def stop_any_def stays_def)
next
  case True
  let ?x = "job_in s i j"
  obtain r where "override_enabled (jlib pf) (sf_current s) (label (jb_manifest j)) = Inr r"
    using assms(5) by (auto simp: overrides_readable_def)
  then have u: "job_unloadJob pf True ?x = (case cancelTimer pf (mark_unload ?x) of
      (Inl e, s') \<Rightarrow> (Inl e, s') | (Inr _, s') \<Rightarrow> (Inr True, unloaded s'))"
    using job_unloadJob_eq [of ?x pf r True] True by (auto simp: armed_def get_job_state_def)
  obtain t where t: "jb_timer_id j = Some t" using True by (auto simp: armed_def)
  have "timers_apart (mark_unload ?x)" by (rule stays_apart [OF _ assms(4)]) simp
  moreover have "jb_timer_id (this (mark_unload ?x)) = Some t" using t by (simp add: mark_unload_def)
  ultimately obtain e y where y: "cancelTimer pf (mark_unload ?x) = (Inl (Throw e), y)" "stays (mark_unload ?x) y"
      "this y = this (mark_unload ?x)" "pending_events y = pending_events (mark_unload ?x)"
    using cancel_fails [OF assms(3)] by blast
  have "unload_one pf i s = (Inr False, job_out s i y)"
    using assms(1) True u y(1) by (simp add: unload_one_def monad_simps with_job_apply job_out_in armed_def)
  moreover have "stays s y" using y(2) by simp
  ultimately show ?thesis using y(3,4) True by (auto simp: stop_any_def mark_unload_def)
qed

lemma unload_loop:
  assumes "epoll_del_documented pf" and "distinct (map snd js)"
    and "\<forall>i \<in> snd ` set js. \<exists>j. heap s i = Some j \<and> (stoppable j \<or> armed j)" and "timers_apart s" and "overrides_readable pf s"
  shows "\<exists>b' t. foldM (\<lambda>success (l, i). bindM (unload_one pf i) (\<lambda>ok. returnM (success \<and> ok))) b js s = (Inr b', t) \<and>
    stays s t \<and> jobs t = jobs s \<and> mstate t = mstate s \<and>
    (\<forall>i j. heap s i = Some j \<and> armed j \<and> i \<in> snd ` set js \<longrightarrow> heap t i = Some (j\<lparr>jb_unload_requested := True\<rparr>)) \<and>
    (\<forall>i. i \<notin> snd ` set js \<longrightarrow> heap t i = heap s i) \<and>
    (\<forall>e \<in> set (pending_events t). e \<in> set (pending_events s) \<or>
       (\<exists>i \<in> snd ` set js. \<exists>j. heap s i = Some j \<and> \<not> armed j \<and> e = IpcEvent ''delete_job'' (label (jb_manifest j))))"
  using assms(2-)
proof (induction js arbitrary: b s)
  case Nil
  then show ?case by (simp add: monad_simps)
next
  case (Cons p js)
  obtain l i where p: "p = (l, i)" by fastforce
  have i: "i \<notin> snd ` set js" and d: "distinct (map snd js)" using Cons.prems(1) p by auto
  obtain j where j: "heap s i = Some j" "stoppable j \<or> armed j" using Cons.prems(2) p by auto
  from unload_any [OF j assms(1) Cons.prems(3,4)] obtain ok t where t: "unload_one pf i s = (Inr ok, t)" "stays s t"
      "heap t = (heap s)(i \<mapsto> stop_any j)" "jobs t = jobs s" "mstate t = mstate s"
      "pending_events t = pending_events s @ (if armed j then [] else stop_calls j)"
    by blast
  have h: "heap t k = heap s k" if "k \<in> snd ` set js" for k using that i t(3) by auto
  have jobs: "\<forall>k \<in> snd ` set js. \<exists>j. heap t k = Some j \<and> (stoppable j \<or> armed j)" using h Cons.prems(2) by simp
  have ov: "overrides_readable pf t" using t(2) Cons.prems(4) by (simp add: overrides_readable_def stays_def)
  obtain b' u where u: "foldM (\<lambda>success (l, i). bindM (unload_one pf i) (\<lambda>ok. returnM (success \<and> ok))) (b \<and> ok) js t = (Inr b', u)"
      "stays t u" "jobs u = jobs t" "mstate u = mstate t"
    and armed: "\<forall>k j. heap t k = Some j \<and> armed j \<and> k \<in> snd ` set js \<longrightarrow> heap u k = Some (j\<lparr>jb_unload_requested := True\<rparr>)"
    and other: "\<forall>k. k \<notin> snd ` set js \<longrightarrow> heap u k = heap t k"
    and q: "\<forall>e \<in> set (pending_events u). e \<in> set (pending_events t) \<or>
       (\<exists>k \<in> snd ` set js. \<exists>j. heap t k = Some j \<and> \<not> armed j \<and> e = IpcEvent ''delete_job'' (label (jb_manifest j)))"
    using Cons.IH [OF d jobs stays_apart [OF t(2) Cons.prems(3)] ov, of "b \<and> ok"] by blast
  have "heap u k = Some (ja\<lparr>jb_unload_requested := True\<rparr>)" if "heap s k = Some ja" "armed ja" "k \<in> snd ` set (p # js)" for k ja
  proof (cases "k = i")
    case True
    then show ?thesis using that other i j(1) t(3) by (simp add: stop_any_def)
  next
    case False
    then show ?thesis using that armed h p by simp
  qed
  moreover have "heap u k = heap s k" if "k \<notin> snd ` set (p # js)" for k
    using that other t(3) p by simp
  moreover have "e \<in> set (pending_events s) \<or>
      (\<exists>k \<in> snd ` set (p # js). \<exists>j. heap s k = Some j \<and> \<not> armed j \<and> e = IpcEvent ''delete_job'' (label (jb_manifest j)))"
    if e: "e \<in> set (pending_events u)" for e
  proof -
    consider "e \<in> set (pending_events t)"
      | k j where "k \<in> snd ` set js" "heap t k = Some j" "\<not> armed j" "e = IpcEvent ''delete_job'' (label (jb_manifest j))"
      using q e by blast
    then show ?thesis
    proof cases
      case 1
      then show ?thesis using t(6) j(1) p by (auto simp: stop_calls_def split: if_splits)
    next
      case 2
      then have "heap s k = Some j" "k \<in> snd ` set (p # js)" using h by simp_all
      then show ?thesis using 2(3,4) by blast
    qed
  qed
  moreover have "foldM (\<lambda>success (l, i). bindM (unload_one pf i) (\<lambda>ok. returnM (success \<and> ok))) b (p # js) s = (Inr b', u)"
    using t(1) u(1) by (simp add: p monad_simps)
  moreover have "stays s u" "jobs u = jobs s" "mstate u = mstate s" using stays_trans [OF t(2) u(2)] t(4,5) u(3,4) by simp_all
  ultimately show ?case by blast
qed

section \<open>The turns after it\<close>

text \<open>A system on which nothing happens: every wait for an event times out.\<close>

definition idle :: "platform \<Rightarrow> bool" where
  "idle pf \<longleftrightarrow> (\<forall>h fd. fst (sys_int pf h (Evt (SysEpollWait fd 500))) = 0)"

text \<open>The shutdown has begun, the job is loaded, and what is queued are deletions of other jobs.\<close>

definition held :: "string \<Rightarrow> nat \<Rightarrow> job \<Rightarrow> mgr \<Rightarrow> bool" where
  "held l i j s \<longleftrightarrow> mgr_ok s \<and> mstate s = GracefulShutdown \<and> child_status s = [] \<and>
     ipc_callbacks s ''delete_job'' = Some OnDeleteJob \<and> (l, i) \<in> set (jobs s) \<and> heap s i = Some j \<and>
     (\<forall>e \<in> set (pending_events s). \<exists>m. e = IpcEvent ''delete_job'' m \<and> m \<noteq> l)"

lemma wait_idle:
  assumes "idle pf" and "0 < loop_bound pf" and "child_status s = []" "pending_events s = []"
  shows "epoll_waitForEvent pf (Some 500) s = (Inr None, s\<lparr>trace := Evt (SysEpollWait (epfd s) 500) # trace s\<rparr>)"
proof -
  obtain m where m: "loop_bound pf = Suc m" using assms(2) gr0_implies_Suc by blast
  obtain e where "sys_int pf (trace s) (Evt (SysEpollWait (epfd s) 500)) = (0, e)"
    using assms(1) unfolding idle_def by (metis prod.collapse)
  then show ?thesis
    using assms(3,4) m
    by (simp add: epoll_waitForEvent_def getPendingEvent_def epollGetOne_def wait_switch_def EVTYPE_NONE_def monad_simps Let_def)
qed

lemma held_turn:
  assumes h: "held l i j s" and "idle pf" and "0 < loop_bound pf"
  shows "\<exists>s'. handleEvent c pf t s = (Inr True, s') \<and> held l i j s'"
proof -
  have s: "mgr_ok s" "mstate s = GracefulShutdown" "child_status s = []" "ipc_callbacks s ''delete_job'' = Some OnDeleteJob"
    "(l, i) \<in> set (jobs s)" "heap s i = Some j" "jobs s \<noteq> []"
    using h by (auto simp: held_def)
  show ?thesis
  proof (cases "pending_events s")
    case Nil
    let ?s = "s\<lparr>trace := Evt (SysEpollWait (epfd s) 500) # trace s\<rparr>"
    have "handleEvent c pf t s = (Inr True, ?s)"
      using s(2,7) wait_idle [OF assms(2,3) s(3) Nil] by (simp add: handleEvent_apply em_waitForEvent_def monad_simps)
    moreover have "held l i j ?s" using h by (simp add: held_def mgr_ok_def view_def)
    ultimately show ?thesis by blast
  next
    case (Cons e rest)
    then obtain m where m: "e = IpcEvent ''delete_job'' m" "m \<noteq> l" using h by (auto simp: held_def)
    let ?d = "s\<lparr>pending_events := rest\<rparr>"
    let ?s = "case map_of (jobs s) m of None \<Rightarrow> ?d
      | Some k \<Rightarrow> ?d\<lparr>jobs := AList.delete m (jobs s), heap := (heap s)(k := None)\<rparr>"
    have turn: "handleEvent c pf t s = (Inr True, ?s)"
    proof (rule handle_pending [OF s(2,7,3) Cons])
      show "dispatch_event (run_closure c pf) e (s\<lparr>pending_events := rest\<rparr>) = (Inr (), ?s)"
        using s(4) m(1) by (simp add: callback_of_def on_delete_job_def destroy_job_def monad_simps split: option.split)
      show "mstate ?s \<noteq> Finished" using s(2) by (simp split: option.split)
    qed
    have "k \<noteq> i" if "map_of (jobs s) m = Some k" for k
      using owned_facts(7) [OF s(1,5)] map_of_SomeD [OF that] m(2) by blast
    moreover have "mgr_ok ?s" using preservesE [OF daemon_ok(3) turn s(1)] .
    ultimately have "held l i j ?s"
      using h Cons m(2) by (auto simp: held_def AList.delete_eq split: option.splits)
    then show ?thesis using turn by blast
  qed
qed

lemma held_forever:
  assumes "idle pf" and "0 < loop_bound pf"
  shows "held l i j s \<Longrightarrow> \<exists>s'. main_loop n c pf s = (Inl Hang, s') \<and> held l i j s'"
proof (induction n arbitrary: s)
  case 0
  then show ?case by (simp add: monad_simps)
next
  case (Suc n)
  obtain s' where "handleEvent c pf None s = (Inr True, s')" "held l i j s'"
    using held_turn [OF Suc.prems assms] by blast
  then show ?case using Suc.IH [of s'] by (simp add: monad_simps)
qed

text \<open>
  C37: one job that waits for a timer is enough to keep the daemon from ending: the request to stop is
  accepted, but the timer cannot be cancelled, the exception is swallowed, and the job stays in
  \<open>Waiting\<close> with its unload requested and its deletion not queued. On a system on which nothing else
  happens the main loop then never returns, however many turns it gets, and the job stays loaded.
\<close>

theorem waiting_job_blocks_shutdown:
  assumes "mgr_ok s" and "mstate s = MgrRunning" and "child_status s = []" and "pending_events s = []"
    and "ipc_callbacks s ''delete_job'' = Some OnDeleteJob" and "overrides_readable pf s"
    and "\<forall>i \<in> snd ` set (jobs s). \<exists>j. heap s i = Some j \<and> (stoppable j \<or> armed j)"
    and "(l, i) \<in> set (jobs s)" and "heap s i = Some j" and "armed j"
    and "epoll_del_documented pf" and "timers_apart s" and "idle pf" and "0 < loop_bound pf"
  shows "\<exists>s1. stopRunning c pf s = (Inr (), s1) \<and> mstate s1 = GracefulShutdown \<and>
    (\<forall>n. \<exists>s2. main_loop n c pf s1 = (Inl Hang, s2) \<and> (l, i) \<in> set (jobs s2) \<and>
       heap s2 i = Some (j\<lparr>jb_unload_requested := True\<rparr>))"
proof -
  have d: "distinct (map snd (jobs s))" using assms(1) by (simp add: mgr_ok_def view_def own_ok_def)
  obtain k ch where close: "close_listener pf s = (Inr (), s\<lparr>trace := k @ trace s, chan := ch\<rparr>)"
    and k: "\<forall>c \<in> set k. \<not> adds_descriptor c"
  proof (cases "0 \<le> ch_sockfd (chan s)")
    case True
    then show ?thesis
      using that [of "(chan s)\<lparr>ch_sockfd := - 1\<rparr>" "[Proc (SysClose (ch_sockfd (chan s)))]"] by (simp add: close_listener_def unbindAndStopListening_def monad_simps)
  next
    case False
    then show ?thesis
      using that [of "chan s" "[]"] by (simp add: close_listener_def unbindAndStopListening_def monad_simps)
  qed
  let ?s = "s\<lparr>trace := k @ trace s, chan := ch\<rparr>"
  have s: "stays s ?s" using k by (auto simp: stays_def)
  have ov: "overrides_readable pf ?s" using assms(6) by (simp add: overrides_readable_def)
  have jobs: "\<forall>i \<in> snd ` set (jobs s). \<exists>j. heap ?s i = Some j \<and> (stoppable j \<or> armed j)" using assms(7) by simp
  obtain b t where loop: "foldM (\<lambda>success (l, i). bindM (unload_one pf i) (\<lambda>ok. returnM (success \<and> ok))) True (jobs s) ?s = (Inr b, t)"
    and keep: "stays ?s t" "jobs t = jobs ?s" "mstate t = mstate ?s"
      "\<forall>i j. heap ?s i = Some j \<and> armed j \<and> i \<in> snd ` set (jobs s) \<longrightarrow> heap t i = Some (j\<lparr>jb_unload_requested := True\<rparr>)"
    and queue: "\<forall>e \<in> set (pending_events t). e \<in> set (pending_events ?s) \<or>
       (\<exists>i \<in> snd ` set (jobs s). \<exists>j. heap ?s i = Some j \<and> \<not> armed j \<and> e = IpcEvent ''delete_job'' (label (jb_manifest j)))"
    using unload_loop [OF assms(11) d jobs stays_apart [OF s assms(12)] ov, of True] by blast
  have "unloadAllJobs pf ?s = (Inr b, t)" using loop by (simp add: unloadAllJobs_def monad_simps)
  moreover have "jobs t = jobs s" "mstate t = MgrRunning" using keep(2,3) assms(2) by simp_all
  ultimately have t: "unloadAllJobs pf ?s = (Inr b, t)" "stays ?s t" "jobs t = jobs s" "mstate t = MgrRunning"
    using keep(1) by simp_all
  have armed: "heap t i = Some (j\<lparr>jb_unload_requested := True\<rparr>)" using keep(4) assms(8-10) by force
  have q: "\<forall>e \<in> set (pending_events t). \<exists>i \<in> snd ` set (jobs s). \<exists>j. heap s i = Some j \<and> \<not> armed j \<and>
      e = IpcEvent ''delete_job'' (label (jb_manifest j))"
    using queue assms(4) by simp
  let ?t = "t\<lparr>mstate := GracefulShutdown\<rparr>"
  have stop: "stopRunning c pf s = (Inr (), ?t)"
    unfolding stopRunning_def mgr_execute_def thenM_apply execute_candidates
    using assms(2) close t(1) by (simp add: candidates_def mgr_table_def monad_simps put_mgr_state_def)
  have "\<exists>m. e = IpcEvent ''delete_job'' m \<and> m \<noteq> l" if "e \<in> set (pending_events t)" for e
  proof -
    from bspec [OF q that] obtain i' j' where e: "i' \<in> snd ` set (jobs s)" "heap s i' = Some j'" "\<not> armed j'" "e = IpcEvent ''delete_job'' (label (jb_manifest j'))"
      by (elim bexE exE conjE) (rule that)
    then obtain l' where l': "(l', i') \<in> set (jobs s)" by auto
    then have "label (jb_manifest j') = l'" using owned_facts(5) [OF assms(1) l'] e(2) by simp
    moreover have "l' \<noteq> l" using owned_facts(4) [OF assms(1) assms(8)] l' e(2,3) assms(9,10) by auto
    ultimately show ?thesis using e(4) by simp
  qed
  moreover have "mgr_ok ?t" using preservesE [OF daemon_ok(2) stop assms(1)] .
  moreover have "child_status t = []" "ipc_callbacks t ''delete_job'' = Some OnDeleteJob"
    using t(2) assms(3,5) by (simp_all add: stays_def)
  ultimately have "held l i (j\<lparr>jb_unload_requested := True\<rparr>) ?t"
    using t(3) armed assms(8) by (simp add: held_def)
  then have "\<exists>s2. main_loop n c pf ?t = (Inl Hang, s2) \<and> (l, i) \<in> set (jobs s2) \<and> heap s2 i = Some (j\<lparr>jb_unload_requested := True\<rparr>)" for n
    using held_forever [OF assms(13,14)] by (meson held_def)
  then show ?thesis using stop by auto
qed

text \<open>A daemon with one periodic job, whose timer is 1 with the descriptor 40.\<close>

definition periodic_mgr :: mgr where
  "periodic_mgr = stop_mgr\<lparr>jobs := [(''b'', 1)],
     heap := [1 \<mapsto> (mk_job None (daemon_manifest\<lparr>label := ''b'', start_interval := Some 60\<rparr>))\<lparr>jb_state := Waiting, jb_timer_id := Some 1\<rparr>],
     process_callbacks := Map.empty, timerfd_map := [(1, 40)], timer_callbacks := [(1, OnPeriodicTimer 1)]\<rparr>"

theorem waiting_job_blocks_shutdown_witness:
  "\<exists>s1 j. stopRunning sample_config linux_platform periodic_mgr = (Inr (), s1) \<and> mstate s1 = GracefulShutdown \<and>
     (\<forall>n. \<exists>s2. main_loop n sample_config linux_platform s1 = (Inl Hang, s2) \<and> (''b'', 1) \<in> set (jobs s2) \<and> heap s2 1 = Some j)"
proof -
  let ?j = "(mk_job None (daemon_manifest\<lparr>label := ''b'', start_interval := Some 60\<rparr>))\<lparr>jb_state := Waiting, jb_timer_id := Some 1\<rparr>"
  have ok: "mgr_ok periodic_mgr"
    by (auto simp: mgr_ok_def view_def own_ok_def periodic_mgr_def stop_mgr_def mk_job_def
        daemon_manifest_def default_manifest_def fun_upd_def split: if_splits)
  have armed: "armed ?j" by (simp add: armed_def mk_job_def)
  have jobs: "\<forall>i \<in> snd ` set (jobs periodic_mgr). \<exists>j. heap periodic_mgr i = Some j \<and> (stoppable j \<or> armed j)"
    using armed by (simp add: periodic_mgr_def)
  have "jlib linux_platform = jlib null_platform" by (simp add: linux_platform_def)
  then have ov: "overrides_readable linux_platform periodic_mgr"
    using no_override by (simp add: overrides_readable_def periodic_mgr_def stop_mgr_def)
  have apart: "timers_apart periodic_mgr"
    by (simp add: timers_apart_def periodic_mgr_def stop_mgr_def blank_mgr_def init_em_def em_state.defs mgr.defs)
  have "idle linux_platform" "0 < loop_bound linux_platform"
    by (simp_all add: idle_def linux_platform_def null_platform_def)
  from waiting_job_blocks_shutdown [OF ok _ _ _ _ ov jobs _ _ armed linux_platform_documented apart this, of "''b''" 1 sample_config]
  show ?thesis by (simp add: periodic_mgr_def stop_mgr_def) blast
qed

end
