(* ===== verification/Wrapper.thy ===== *)
theory Wrapper
  imports Text
begin

text \<open>
  The library for socket activation, \<open>sa-wrapper/wrapper.c\<close>: preloaded into a job, it replaces
  \<open>bind\<close> by a function that hands out the sockets the job has inherited.

  It runs in the process of the job, so it has an environment of its own: \<open>wrap_env\<close> answers a
  call as a function of the calls made before. A \<open>struct sockaddr\<close> is the list of its bytes. What
  \<open>malloc\<close> returns is filled with arbitrary bytes.
\<close>

section \<open>The environment\<close>

type_synonym bytes = "8 word list"

datatype wrap_call =
    WDlopen string | WDlsym string | WGetenv string
  | WCalloc "64 word" | WMalloc | WGetsockname int
  | WDup2 int int | WLibcBind int bytes "32 word"

record wrap_env =
  we_int :: "wrap_call list \<Rightarrow> wrap_call \<Rightarrow> int"
  we_getenv :: "string \<Rightarrow> string option"
  we_garbage :: "wrap_call list \<Rightarrow> nat \<Rightarrow> 8 word"
  we_name :: "wrap_call list \<Rightarrow> int \<Rightarrow> bytes"

section \<open>State\<close>

record sock_info =
  si_fd :: int
  si_sa :: bytes
  si_sa_len :: "32 word"

text \<open>The static variables; \<open>libc_bind_ptr\<close> and \<open>s_info\<close> start as null pointers.\<close>

record wrap_state =
  wtrace :: "wrap_call list"
  libc_bind_ptr :: bool
  s_info :: "sock_info list"
  s_cnt :: "64 word"

definition init_wrap :: wrap_state where
  "init_wrap = \<lparr>wtrace = [], libc_bind_ptr = False, s_info = [], s_cnt = 0\<rparr>"

definition wcall :: "wrap_env \<Rightarrow> wrap_call \<Rightarrow> (wrap_state, int) M" where
  "wcall env c = (\<lambda>s. (Inr (we_int env (wtrace s) c), s\<lparr>wtrace := c # wtrace s\<rparr>))"

lemma wcall_apply [monad_simps]:
  "wcall env c s = (Inr (we_int env (wtrace s) c), s\<lparr>wtrace := c # wtrace s\<rparr>)"
  by (simp add: wcall_def)

section \<open>Reading the number of sockets\<close>

text \<open>
  \<open>strtoul\<close> in base 10: the value, \<open>ULONG_MAX\<close> when it is out of range, and what follows the
  number; without digits nothing is read.
\<close>

definition strtoul10 :: "string \<Rightarrow> 64 word \<times> string" where
  "strtoul10 s =
     (let t = dropWhile is_space s;
          neg = (t \<noteq> [] \<and> hd t = CHR ''-'');
          u = (if t \<noteq> [] \<and> (hd t = CHR ''-'' \<or> hd t = CHR ''+'') then tl t else t);
          digits = takeWhile (\<lambda>c. digit_value 10 c \<noteq> None) u;
          n = scan_digits 10 digits 0 in
      if digits = [] then (0, s)
      else
        (if 2 ^ 64 \<le> n then - 1 else if neg then - word_of_nat n else word_of_nat n,
         dropWhile (\<lambda>c. digit_value 10 c \<noteq> None) u))"

section \<open>wrapper_init\<close>

definition SIZEOF_SOCKADDR :: nat where "SIZEOF_SOCKADDR = 16"

text \<open>\<open>3 + i\<close> is a \<open>size_t\<close>, stored in an \<open>int\<close>.\<close>

definition inherited_fd :: "64 word \<Rightarrow> int" where
  "inherited_fd i = sint (ucast (3 + i) :: 32 word)"

text \<open>
  One turn of the loop. \<open>getsockname\<close> writes at most \<open>sa_len\<close> bytes of the name and leaves the rest
  of the structure as \<open>malloc\<close> gave it.
\<close>

definition inherit_one :: "wrap_env \<Rightarrow> 64 word \<Rightarrow> (wrap_state, sock_info) M" where
  "inherit_one env i =
     bindM (getsM (\<lambda>s. map (we_garbage env (wtrace s)) [0..<SIZEOF_SOCKADDR])) (\<lambda>raw.
     bindM (wcall env WMalloc) (\<lambda>p.
     if p = 0 then failM (Exit 1)
     else
       bindM (getsM (\<lambda>s. we_name env (wtrace s) (inherited_fd i))) (\<lambda>name.
       bindM (wcall env (WGetsockname (inherited_fd i))) (\<lambda>rv.
       if rv < 0 then returnM \<lparr>si_fd = - 1, si_sa = raw, si_sa_len = word_of_nat SIZEOF_SOCKADDR\<rparr>
       else
         let written = take SIZEOF_SOCKADDR name in
         returnM \<lparr>si_fd = inherited_fd i, si_sa = written @ drop (length written) raw,
           si_sa_len = word_of_nat (length name)\<rparr>))))"

primrec inherit_loop :: "nat \<Rightarrow> wrap_env \<Rightarrow> 64 word \<Rightarrow> (wrap_state, unit) M" where
  "inherit_loop 0 env i = returnM ()"
| "inherit_loop (Suc n) env i =
     bindM (inherit_one env i) (\<lambda>info.
     thenM (modifyM (\<lambda>s. s\<lparr>s_info := s_info s @ [info]\<rparr>))
           (inherit_loop n env (i + 1)))"

text \<open>The result of \<open>calloc\<close> is not tested: the first store goes through it.\<close>

definition wrapper_init :: "wrap_env \<Rightarrow> (wrap_state, unit) M" where
  "wrapper_init env =
     bindM (wcall env (WDlopen ''libc.so.7'')) (\<lambda>handle.
     if handle = 0 then failM (Exit 1)
     else
       bindM (wcall env (WDlsym ''bind'')) (\<lambda>sym.
       thenM (modifyM (\<lambda>s. s\<lparr>libc_bind_ptr := sym \<noteq> 0\<rparr>))
      (if sym = 0 then failM (Exit 1)
       else
         thenM (wcall env (WGetenv ''LISTEN_FDS''))
        (case we_getenv env ''LISTEN_FDS'' of
           None \<Rightarrow> modifyM (\<lambda>s. s\<lparr>s_cnt := 0\<rparr>)
         | Some buf \<Rightarrow>
             (let (n, rest) = strtoul10 buf in
              thenM (modifyM (\<lambda>s. s\<lparr>s_cnt := n\<rparr>))
             (if rest \<noteq> [] then modifyM (\<lambda>s. s\<lparr>s_cnt := 0\<rparr>)
              else
                bindM (wcall env (WCalloc n)) (\<lambda>p.
                thenM (modifyM (\<lambda>s. s\<lparr>s_info := []\<rparr>))
               (if p = 0 \<and> n \<noteq> 0 then failM (Undefined ''store through a null pointer'')
                else inherit_loop (unat n) env 0))))))))"

section \<open>bind\<close>

text \<open>
  The port is read from the third and fourth byte of whatever address is passed, whatever its
  family.
\<close>

definition sin_port :: "bytes \<Rightarrow> bytes" where
  "sin_port addr = [addr ! 2, addr ! 3]"

primrec bind_scan :: "wrap_env \<Rightarrow> int \<Rightarrow> bytes \<Rightarrow> sock_info list \<Rightarrow> (wrap_state, int option) M" where
  "bind_scan env s addr [] = returnM None"
| "bind_scan env s addr (info # infos) =
     (if length addr < 4 then failM (Undefined ''read past the end of the address'')
      else if sin_port addr = sin_port (si_sa info) then
        bindM (wcall env (WDup2 (si_fd info) s)) (\<lambda>rv. returnM (Some (if rv < 0 then - 1 else 0)))
      else bind_scan env s addr infos)"

text \<open>The pointer passed refers to an object of \<open>addrlen\<close> bytes: the list \<open>addr\<close>.\<close>

definition wrapper_bind :: "wrap_env \<Rightarrow> int \<Rightarrow> bytes \<Rightarrow> (wrap_state, int) M" where
  "wrapper_bind env s addr =
     bindM (getsM (\<lambda>st. take (unat (s_cnt st)) (s_info st))) (\<lambda>infos.
     bindM (bind_scan env s addr infos) (\<lambda>r.
     case r of
       Some rv \<Rightarrow> returnM rv
     | None \<Rightarrow>
         bindM (getsM libc_bind_ptr) (\<lambda>p.
         if \<not> p then failM (Undefined ''call through a null pointer'')
         else wcall env (WLibcBind s addr (word_of_nat (length addr))))))"


section \<open>What a job sees\<close>

lemma strtoul10_show_base:
  assumes "n < 2 ^ 64"
  shows "strtoul10 (show_base 10 n) = (word_of_nat n, [])"
proof -
  have d: "\<forall>c \<in> set (show_base 10 n). digit_value 10 c \<noteq> None"
    by (rule show_base_digits) simp_all
  obtain c cs where eq: "show_base 10 n = c # cs"
    using show_base_nonempty by (cases "show_base 10 n") blast+
  have c: "\<not> is_space c" "c \<noteq> CHR ''-''" "c \<noteq> CHR ''+''"
    using d eq digit_value_char [of 10 c] by simp_all
  have "takeWhile (\<lambda>c. digit_value 10 c \<noteq> None) (show_base 10 n) = show_base 10 n"
    "dropWhile (\<lambda>c. digit_value 10 c \<noteq> None) (show_base 10 n) = []"
    using d by (simp_all add: takeWhile_eq_all_conv)
  then show ?thesis
    using c assms scan_digits_show_base [of 10 n] by (simp add: strtoul10_def eq Let_def)
qed

text \<open>
  \<open>inherits env n names\<close>: the job was started with \<open>LISTEN_FDS=n\<close>, its descriptors from 3 are
  sockets with these names, and there is memory.
\<close>

definition inherits :: "wrap_env \<Rightarrow> nat \<Rightarrow> (nat \<Rightarrow> bytes) \<Rightarrow> bool" where
  "inherits env n names \<longleftrightarrow>
     we_getenv env ''LISTEN_FDS'' = Some (show_base 10 n) \<and> n < 2 ^ 31 - 3 \<and>
     (\<forall>h. we_int env h (WDlopen ''libc.so.7'') \<noteq> 0 \<and> we_int env h (WDlsym ''bind'') \<noteq> 0 \<and>
        we_int env h WMalloc \<noteq> 0 \<and> (\<forall>k. we_int env h (WCalloc k) \<noteq> 0) \<and>
        (\<forall>i < n. 0 \<le> we_int env h (WGetsockname (3 + int i)) \<and> we_name env h (3 + int i) = names i \<and>
           4 \<le> length (names i)))"

lemma inherited_fd_small: "n < 2 ^ 31 - 3 \<Longrightarrow> inherited_fd (word_of_nat n) = 3 + int n"
proof -
  assume n: "n < 2 ^ 31 - 3"
  have s: "3 + word_of_nat n = (word_of_nat (3 + n) :: 64 word)" by simp
  have u: "uint (word_of_nat k :: 64 word) = int k" if "k < 2 ^ 31" for k
    using that by (simp add: unsigned_of_nat take_bit_nat_eq_self)
  have "3 + n < 2 ^ 31" using n by simp
  then show ?thesis
    unfolding inherited_fd_def s using u [of "3 + n"] sint_ucast_small [of "word_of_nat (3 + n)"]
    by (simp del: of_nat_add of_nat_numeral)
qed

text \<open>The table the constructor builds: one entry for each descriptor, in order, under its name.\<close>

definition entry_for :: "(nat \<Rightarrow> bytes) \<Rightarrow> nat \<Rightarrow> sock_info \<Rightarrow> bool" where
  "entry_for names i info \<longleftrightarrow> si_fd info = 3 + int i \<and> sin_port (si_sa info) = sin_port (names i)"

lemma inherit_one_ok:
  assumes "inherits env n names" and "i < n"
  shows "\<exists>info h. inherit_one env (word_of_nat i) s = (Inr info, s\<lparr>wtrace := h\<rparr>) \<and> entry_for names i info"
proof -
  let ?fd = "3 + int i"
  have fd: "inherited_fd (word_of_nat i) = ?fd"
    using assms by (simp add: inherited_fd_small inherits_def)
  have env: "we_int env h WMalloc \<noteq> 0" "0 \<le> we_int env h (WGetsockname ?fd)"
    "we_name env h ?fd = names i" "4 \<le> length (names i)" for h
    using assms by (simp_all add: inherits_def)
  have port: "sin_port (take SIZEOF_SOCKADDR (names i) @ rest) = sin_port (names i)" for rest
    using env(4) by (simp add: sin_port_def nth_append SIZEOF_SOCKADDR_def)
  show ?thesis
    using env
    by (auto simp: inherit_one_def monad_simps fd Let_def entry_for_def port not_less
        intro!: exI [of _ "WGetsockname ?fd # WMalloc # wtrace s"])
qed

lemma inherit_loop_ok:
  assumes "inherits env n names"
  shows "i + k = n \<Longrightarrow> \<exists>infos h. inherit_loop k env (word_of_nat i) s =
      (Inr (), s\<lparr>s_info := s_info s @ infos, wtrace := h\<rparr>) \<and> list_all2 (entry_for names) [i..<n] infos"
proof (induction k arbitrary: i s)
  case 0
  then show ?case by (auto simp: monad_simps intro!: exI [of _ "[]"] exI [of _ "wtrace s"])
next
  case (Suc k)
  from inherit_one_ok [OF assms, of i s] Suc.prems obtain info h where
    one: "inherit_one env (word_of_nat i) s = (Inr info, s\<lparr>wtrace := h\<rparr>)" "entry_for names i info" by auto
  let ?s = "s\<lparr>wtrace := h, s_info := s_info s @ [info]\<rparr>"
  from Suc.IH [of "Suc i" ?s] Suc.prems obtain infos h' where
    rest: "inherit_loop k env (word_of_nat (Suc i)) ?s =
      (Inr (), ?s\<lparr>s_info := s_info ?s @ infos, wtrace := h'\<rparr>)" "list_all2 (entry_for names) [Suc i..<n] infos" by auto
  have "[i..<n] = i # [Suc i..<n]" using Suc.prems by (simp add: upt_conv_Cons)
  then show ?case
    using one rest
    by (auto simp: monad_simps add.commute intro!: exI [of _ "info # infos"] exI [of _ h'])
qed

lemma wrapper_init_ok:
  assumes "inherits env n names"
  shows "\<exists>st. wrapper_init env init_wrap = (Inr (), st) \<and> list_all2 (entry_for names) [0..<n] (s_info st) \<and>
    unat (s_cnt st) = n \<and> libc_bind_ptr st"
proof -
  have n: "n < 2 ^ 31 - 3" "strtoul10 (show_base 10 n) = (word_of_nat n, [])" "unat (word_of_nat n :: 64 word) = n"
    using assms by (simp_all add: inherits_def strtoul10_show_base unsigned_of_nat take_bit_nat_eq_self)
  have env: "we_int env h (WDlopen ''libc.so.7'') \<noteq> 0" "we_int env h (WDlsym ''bind'') \<noteq> 0"
    "we_int env h (WCalloc k) \<noteq> 0" "we_getenv env ''LISTEN_FDS'' = Some (show_base 10 n)" for h k
    using assms by (simp_all add: inherits_def)
  let ?s = "init_wrap\<lparr>libc_bind_ptr := True, s_cnt := word_of_nat n, wtrace :=
    [WCalloc (word_of_nat n), WGetenv ''LISTEN_FDS'', WDlsym ''bind'', WDlopen ''libc.so.7'']\<rparr>"
  obtain infos h where
    "inherit_loop n env 0 ?s = (Inr (), ?s\<lparr>s_info := infos, wtrace := h\<rparr>)"
    "list_all2 (entry_for names) [0..<n] infos"
    using inherit_loop_ok [OF assms, of 0 n ?s] by (auto simp: init_wrap_def)
  then show ?thesis
    using env n by (simp add: wrapper_init_def monad_simps init_wrap_def)
qed

lemma bind_scan_find:
  assumes "list_all2 (entry_for names) is infos" and "4 \<le> length addr"
  shows "bind_scan env s addr infos = (case find (\<lambda>i. sin_port (names i) = sin_port addr) is of
      None \<Rightarrow> returnM None
    | Some i \<Rightarrow> bindM (wcall env (WDup2 (3 + int i) s)) (\<lambda>rv. returnM (Some (if rv < 0 then - 1 else 0))))"
  using assms by (induction rule: list_all2_induct) (auto simp: entry_for_def)

text \<open>
  C33: socket activation: in a job that was started with \<open>LISTEN_FDS=n\<close> and \<open>n\<close> sockets from
  descriptor 3, \<open>bind\<close> duplicates the first inherited socket with the port of the address onto the
  caller's socket, without binding anything, and calls the library's \<open>bind\<close> when there is none.
\<close>

theorem bind_hands_out:
  assumes "inherits env n names"
  shows "\<exists>st. wrapper_init env init_wrap = (Inr (), st) \<and>
    (\<forall>s addr. 4 \<le> length addr \<longrightarrow> wrapper_bind env s addr st =
       (case find (\<lambda>i. sin_port (names i) = sin_port addr) [0..<n] of
          Some i \<Rightarrow> (Inr (if we_int env (wtrace st) (WDup2 (3 + int i) s) < 0 then - 1 else 0),
            st\<lparr>wtrace := WDup2 (3 + int i) s # wtrace st\<rparr>)
        | None \<Rightarrow> wcall env (WLibcBind s addr (word_of_nat (length addr))) st))"
proof -
  obtain st where st: "wrapper_init env init_wrap = (Inr (), st)" "libc_bind_ptr st" "unat (s_cnt st) = n"
    and all: "list_all2 (entry_for names) [0..<n] (s_info st)" using wrapper_init_ok [OF assms] by blast
  have "length (s_info st) = n" using list_all2_lengthD [OF all] by simp
  then have t: "take n (s_info st) = s_info st" by simp
  show ?thesis
    using st bind_scan_find [OF all]
    by (auto simp: wrapper_bind_def monad_simps t split: option.split intro!: exI [of _ st])
qed

text \<open>
  The family of the address is not looked at: a job that inherits the socket of port 12148 and binds
  a socket of the file system under \<open>/tmp\<close> is handed the one of the port.
\<close>

definition port_env :: wrap_env where
  "port_env = \<lparr>we_int = (\<lambda>_ _. 1), we_getenv = (\<lambda>_. Some ''1''), we_garbage = (\<lambda>_ _. 0),
     we_name = (\<lambda>_ _. [2, 0, 0x2f, 0x74, 0, 0, 0, 0, 0, 0, 0, 0, 0, 0, 0, 0])\<rparr>"

definition tmp_addr :: bytes where
  "tmp_addr = [1, 0] @ map (\<lambda>c. of_char c) ''/tmp/s'' @ [0]"

theorem bind_hands_out_witness:
  "\<exists>st. wrapper_init port_env init_wrap = (Inr (), st) \<and>
     wrapper_bind port_env 7 tmp_addr st = (Inr 0, st\<lparr>wtrace := WDup2 3 7 # wtrace st\<rparr>)"
proof -
  have "show_base 10 1 = ''1''" by (simp add: show_base.simps digit_char_def char_of_def bit_0)
  then have "inherits port_env 1 (\<lambda>_. [2, 0, 0x2f, 0x74, 0, 0, 0, 0, 0, 0, 0, 0, 0, 0, 0, 0])"
    by (simp add: inherits_def port_env_def)
  from bind_hands_out [OF this] show ?thesis
    by (force simp: tmp_addr_def sin_port_def port_env_def)
qed

text \<open>Without a well-formed \<open>LISTEN_FDS\<close> nothing is replaced.\<close>

theorem bind_passes_through:
  assumes "wrapper_init env init_wrap = (Inr (), st)"
    and "case we_getenv env ''LISTEN_FDS'' of None \<Rightarrow> True | Some buf \<Rightarrow> snd (strtoul10 buf) \<noteq> []"
  shows "wrapper_bind env s addr st = wcall env (WLibcBind s addr (word_of_nat (length addr))) st"
proof -
  have "s_cnt st = 0" "libc_bind_ptr st"
    using assms by (auto simp: wrapper_init_def monad_simps init_wrap_def split: if_splits option.splits prod.splits)
  then show ?thesis by (simp add: wrapper_bind_def monad_simps)
qed

theorem bind_passes_through_witness:
  "\<exists>st. wrapper_init (port_env\<lparr>we_getenv := (\<lambda>_. Some ''2x'')\<rparr>) init_wrap = (Inr (), st) \<and>
     wrapper_bind (port_env\<lparr>we_getenv := (\<lambda>_. Some ''2x'')\<rparr>) 7 tmp_addr st = (Inr 1, st\<lparr>wtrace := WLibcBind 7 tmp_addr 9 # wtrace st\<rparr>)"
proof -
  let ?env = "port_env\<lparr>we_getenv := (\<lambda>_. Some ''2x'')\<rparr>"
  have n: "strtoul10 ''2x'' = (2, ''x'')"
    by (simp add: strtoul10_def is_space_def digit_value_def char_code_def)
  then obtain st where "wrapper_init ?env init_wrap = (Inr (), st)"
    by (simp add: wrapper_init_def monad_simps port_env_def)
  then show ?thesis
    using bind_passes_through [of ?env st 7 tmp_addr] n
    by (simp add: monad_simps port_env_def tmp_addr_def)
qed

end
