(* ===== verification/Spec2Isabelle.thy ===== *)
theory Spec2Isabelle
  imports Log ProgramFacts ClientServer Registry Kqueue Runs Starting Sigterm Stuck Wrapper
begin

text \<open>
  A model of relaunchd, a service manager in the manner of launchd, with the theorems that say what
  it does right and where it does not. Where the build chooses by system, it follows Linux.

  The program. \<open>main.cc\<close> chooses by \<open>argv[0]\<close> between the daemon \<open>launchd\<close> (\<open>launchd.cc\<close>) and the
  client \<open>launchctl\<close> (\<open>launchctl.cc\<close>, \<open>rpc_client.cc\<close>). The daemon builds one \<open>Manager\<close>
  (\<open>manager.cc\<close>), which owns the \<open>Job\<close> objects (\<open>job.cc\<close>), an event manager (\<open>event.h\<close>), the socket
  of the RPC protocol (\<open>channel.cc\<close>) and the state file (\<open>state_file.cc\<close>). Manifests
  (\<open>manifest.cc\<close>) become jobs; a job is a state machine (\<open>fsm.h\<close>) that forks its program through an
  \<open>ExecMonitor\<close> and reacts to its exit, to timers and to requests. Clients talk to the manager
  through \<open>rpc_server.cc\<close>. The main loop waits for one event at a time and runs its closure.

  How the code is modelled.

    \<^item> Every function is a computation \<open>'s \<Rightarrow> (abrupt + 'a) \<times> 's\<close> of the theory Prelude: it gets the
      state and returns a value or the way it ended, and the state it left behind. A C++ exception is
      \<open>Throw\<close>; \<open>abort\<close>, \<open>exit\<close>, undefined behaviour and a loop that does not end are \<open>Abort\<close>, \<open>Exit\<close>,
      \<open>Undefined\<close> and \<open>Hang\<close>, which no \<open>catch\<close> stops.
    \<^item> The state is one record that grows with the layers: the trace of system calls (Platform), the
      state file (StateFile), the event manager (Events, \<open>em_state\<close>), and then either one job
      (Job, \<open>job_ctx\<close>) or the whole manager (Manager, \<open>mgr\<close>). A call on a job from the manager takes
      the shared layers into the job's context and back (\<open>with_job\<close>).
    \<^item> The operating system is a parameter, the record \<open>platform\<close>: the answer to a call is a function
      of the calls made so far, so every theorem holds for every behaviour of the system. The same
      record holds the JSON library, a third-party package; \<open>json_documented\<close> states the behaviour
      the code relies on, and \<open>nl_json\<close> is a library that has it; \<open>json_text_documented\<close> is the round
      trip through text, and \<open>text_json\<close> a library that prints and parses.
    \<^item> A \<open>unique_ptr\<close> is an identity in an owning map; the objects are in \<open>heap\<close>, and the use of one
      that is gone is \<open>Undefined\<close>. A closure is a value of the datatype \<open>closure\<close>, run by
      \<open>run_closure\<close>.
    \<^item> Integers are \<open>int\<close> where the code cannot overflow them and words where it can: the timers, the
      length of a message, the numbers of a manifest.

  The theories, in the order of their imports.

    \<^item> Prelude: the monad, its evaluation rules (\<open>monad_simps\<close>), predicates that computations keep
      (\<open>preserves\<close>, \<open>carries\<close>) and the ways they can fail (\<open>fails_in\<close>).
    \<^item> Json, Platform: the two parameters, with concrete instances for the witnesses; \<open>clock.h\<close>.
    \<^item> Text, Plist, Manifest: string helpers; property lists; labels, \<open>from_json\<close>, \<open>rectify\<close>, \<open>validate\<close> (\<open>manifest.h\<close>,
      \<open>manifest.cc\<close>). What a parsed manifest is, and which manifests are rejected.
    \<^item> JsonText: documents as text. How a stored value is read back (\<open>stored_as\<close>), and a printer and a
      parser of compact JSON with the proof that they agree.
    \<^item> Signals, Domain, StateFile: \<open>signal_names.h\<close>, \<open>domain.cc\<close> and \<open>options.cc\<close>, \<open>state_file.cc\<close>.
      Lookup by name and number, the domain of a process. The state file is text on a disk:
      creating, printing, writing, renaming, removing and reading it can each fail, and the theorems
      say what is left then, and that what was stored is read back with the same switches.
    \<^item> Log: where a message goes, and what a fatal error does (\<open>log.h\<close>, \<open>log.cc\<close>), in an environment of
      its own; the daemon's model keeps of it that a fatal error aborts.
    \<^item> Fsm: the generic machine of \<open>fsm.h\<close>; the locale \<open>fsm_owner\<close> is what an owner supplies, and is
      interpreted by jobs and by the manager. \<open>execute\<close> equals a scan of the table as written.
    \<^item> Events: the event manager over epoll, signalfd and timerfd (\<open>event.h\<close>). Kqueue: the other
      implementation of its kernel interface; the locale \<open>kernel_events\<close> is what the event manager
      relies on, and is interpreted by both.
    \<^item> Job, JobFacts: \<open>exec_monitor.h\<close>, \<open>job.h\<close>, \<open>job.cc\<close>. The diagram of a job, the child between
      fork and exec, keeping alive, reaping, unloading.
    \<^item> Channel, Manager, RpcServer, Daemon: the rest of the daemon, up to \<open>handleEvent\<close>, the main loop
      and the construction and destruction of the manager.
    \<^item> ManagerInv: the locales \<open>load_keeps\<close>, \<open>call_keeps\<close> and \<open>request_keeps\<close>: a predicate that system
      calls cannot falsify and that the few places that change what it speaks of keep, is kept by
      every load, by every call of a client and by its whole dispatch. \<open>load_invariant\<close>, \<open>request_invariant\<close> and \<open>daemon_invariant\<close> are the case of the
      manager's fields, up to every event. Ownership interprets them for the ownership of the job
      objects, DaemonFacts for the order of the manager's states, Registry for the refinement.
    \<^item> Registry: an abstract registry of queued and loaded manifests, which the daemon implements.
    \<^item> DaemonFacts, RequestFacts: loading, the shutdown, requests and their answers, and the requests
      that go wrong.
    \<^item> JobCallbacks, Callbacks, Runs: which closures the tables of the event manager hold, and in which
      state the job is that each refers to. Callbacks interprets \<open>load_keeps\<close> and \<open>request_keeps\<close> for it;
      Runs follows the daemon event by event, shows that an exit never calls a destroyed job in a run
      without periodic jobs, and that it does when a periodic job is unloaded while it runs.
    \<^item> Shutdown: from the request to stop to the end: once the processes of the jobs have ended, the
      main loop empties the manager and stops. Sigterm puts the whole of it together: a shutdown signal
      arrives, the jobs are told to end, the system reports their exits in its own time, and the main
      loop returns. Stuck shows what is excluded there: with a job that waits for a timer it does not.
    \<^item> Starting: on a system that grants processes and timers, every queued job is started, armed or
      kept as its manifest says; what a failed fork leads to. \<open>yields\<close> is the calculus of the
      computations that only make calls.
    \<^item> RpcClient, Programs, ProgramFacts, ClientServer: the client, the two programs and \<open>main\<close>; the
      life of \<open>launchd\<close>, and what the server makes of what the client sends: the requests that name a
      job or paths, a submitted job (which the server loads and never starts), and the list.
    \<^item> Wrapper: the library for socket activation, \<open>sa-wrapper/wrapper.c\<close>, which runs inside a job and
      has an environment of its own.

  Bounds. A loop of the code that only the system can end (waiting, reading signals, reaping,
  killing a group) runs at most \<open>loop_bound\<close> times and then ends in \<open>Hang\<close>, so a theorem that gives
  a result excludes it; \<open>kill_group_ends\<close> shows for the group that the bound is enough when each wait
  takes a process away, \<open>unload_completes\<close> uses it for the whole exit of a job, and
  \<open>reap_children_once\<close> says what the reaping loop does when the kernel has fewer ended processes than
  the bound. The main loop takes its number of turns as an argument, and
  \<open>signal_ends_daemon\<close> gives a number that is enough from the signal to the end. A job's machine calls
  itself inside its own actions; \<open>job_execute_nesting\<close> shows that the depth of two is exact.

  Not modelled: the messages that are logged on the way, and what is printed on the error output; the
  vendored XML parser, of which the tree it returns is a parameter; \<open>launch.h\<close>, the prototypes of an
  interface that the repository does not implement; the two handlers of \<open>rpc_server.cc\<close> that are
  compiled out; the tests. A hash map that is iterated over is visited in the order of insertion, one
  of the orders the library may take.
\<close>

section \<open>The registry of a daemon with a job\<close>

text \<open>
  The refinement of the registry at a daemon that has loaded and started a job, and at the same daemon
  after a request to stop.
\<close>

lemma booted_registry:
  obtains s m where "reachable sample_config boot_platform boot_domain s"
    and "loaded (registry_of s) ''a'' = Some m"
proof -
  obtain s where s: "reachable sample_config boot_platform boot_domain s" "jobs s = [(''a'', 0)]"
    using boot_reachable by blast
  have "mgr_ok s" using reachable_follows [OF s(1)] by (simp add: follows_def mgr_ok_def)
  then have "loaded (registry_of s) ''a'' \<noteq> None"
    using s(2) by (auto simp: registry_of_simps Registry.held_def mgr_ok_def view_def own_ok_def)
  then show thesis using that s(1) by blast
qed

theorem daemon_refines_registry_witness:
  "\<exists>s m. reachable sample_config boot_platform boot_domain s \<and> loaded (registry_of s) ''a'' = Some m \<and>
     reg_step\<^sup>*\<^sup>* reg_init (registry_of s) \<and>
     reg_step\<^sup>*\<^sup>* (registry_of s) (registry_of (snd (handleEvent sample_config boot_platform None s)))"
proof -
  obtain s m where s: "reachable sample_config boot_platform boot_domain s" "loaded (registry_of s) ''a'' = Some m"
    by (rule booted_registry)
  from daemon_refines_registry [OF s(1), of None] show ?thesis using s by blast
qed

theorem shutdown_only_unloads_witness:
  "\<exists>s m. reachable sample_config boot_platform boot_domain s \<and> loaded (registry_of s) ''a'' = Some m \<and>
     reg_ok (registry_of s) \<and> reg_ok (registry_of (snd (stopRunning sample_config boot_platform s)))"
proof -
  obtain s m where s: "reachable sample_config boot_platform boot_domain s" "loaded (registry_of s) ''a'' = Some m"
    by (rule booted_registry)
  from shutdown_only_unloads [OF s(1)] shutdown_only_unloads [OF reachable.stopped [OF s(1)]]
  show ?thesis using s by blast
qed

end
